(* ===== verification/Prelude.thy ===== *)
theory Prelude
  imports Main "HOL-Library.Word" "HOL-Library.Monad_Syntax"
begin

text \<open>
  Shared vocabulary of the development: the machine integers of the C sources, the
  result type of code that may run into undefined behaviour, little-endian words as
  byte lists, and the generic lemmas the component theories use.

  The target is the one the Makefile builds for: gcc on little-endian LP64 Linux.
  Memory exhaustion (a NULL result of \<open>malloc\<close>, \<open>calloc\<close> or \<open>strdup\<close>) is not
  modelled.
\<close>

unbundle bit_operations_syntax

type_synonym u8 = "8 word"
type_synonym u16 = "16 word"
type_synonym u32 = "32 word"

named_theorems wf_simps \<open>the well-formedness invariants of the components\<close>
named_theorems c_simps \<open>the operations of the components, unfolded\<close>

section \<open>Results of C code\<close>

text \<open>
  A call either returns a value (\<open>Inr\<close>) or leaves the defined behaviour of C
  (\<open>Inl\<close>): it reads through NULL or a freed pointer, accesses an array out of its
  bounds, shifts by the width of the operand or more, reads a variable that was never
  assigned, or never returns. \<open>Uncaught\<close> is a C++ exception that nobody catches.
\<close>

datatype fault = Null_deref | Use_after_free | Out_of_bounds | Bad_shift | Uninitialised | Diverges | Uncaught

type_synonym 'a c = "fault + 'a"

definition cbind :: "'a c \<Rightarrow> ('a \<Rightarrow> 'b c) \<Rightarrow> 'b c" where
  "cbind m f = (case m of Inl e \<Rightarrow> Inl e | Inr x \<Rightarrow> f x)"

lemma cbind_simps [simp]:
  "cbind (Inl e) f = Inl e"
  "cbind (Inr x) f = f x"
  by (simp_all add: cbind_def)

lemma cbind_eq_Inr [simp]: "cbind m f = Inr y \<longleftrightarrow> (\<exists>x. m = Inr x \<and> f x = Inr y)"
  by (cases m) auto

lemma cbind_eq_Inl: "cbind m f = Inl e \<longleftrightarrow> m = Inl e \<or> (\<exists>x. m = Inr x \<and> f x = Inl e)"
  by (cases m) auto

lemma cbindE:
  assumes "cbind m f = Inr y"
  obtains x where "m = Inr x" "f x = Inr y"
  using assms by auto

lemma if_cases:
  assumes "(if b then x else y) = z"
  obtains "b" "x = z" | "\<not> b" "y = z"
  using assms by (cases b) auto

lemma cbind_cong [fundef_cong]:
  "m = m' \<Longrightarrow> (\<And>x. m' = Inr x \<Longrightarrow> f x = f' x) \<Longrightarrow> cbind m f = cbind m' f'"
  by (cases m') auto

text \<open>The outcome of a loop given as a partial function: \<open>None\<close> is "never returns".\<close>

definition of_loop :: "'a c option \<Rightarrow> 'a c" where
  "of_loop r = (case r of None \<Rightarrow> Inl Diverges | Some x \<Rightarrow> x)"

lemma of_loop_simps [simp]:
  "of_loop None = Inl Diverges"
  "of_loop (Some x) = x"
  by (simp_all add: of_loop_def)

lemma of_loop_eq_Inr [simp]: "of_loop r = Inr y \<longleftrightarrow> r = Some (Inr y)"
  by (cases r) auto

text \<open>An array read \<open>a[i]\<close>, and a write, within the bounds of the array or not.\<close>

definition array_get :: "'a list \<Rightarrow> nat \<Rightarrow> 'a c" where
  "array_get xs i = (if i < length xs then Inr (xs ! i) else Inl Out_of_bounds)"

definition array_set :: "'a list \<Rightarrow> nat \<Rightarrow> 'a \<Rightarrow> 'a list c" where
  "array_set xs i x = (if i < length xs then Inr (xs[i := x]) else Inl Out_of_bounds)"

lemma array_get_in [simp]: "i < length xs \<Longrightarrow> array_get xs i = Inr (xs ! i)"
  by (simp add: array_get_def)

lemma array_set_in [simp]: "i < length xs \<Longrightarrow> array_set xs i x = Inr (xs[i := x])"
  by (simp add: array_set_def)

text \<open>
  \<open>memcpy(dst + off, src, n)\<close>: both ranges have to lie within their arrays.
\<close>

definition memcpy :: "'a list \<Rightarrow> nat \<Rightarrow> 'a list \<Rightarrow> nat \<Rightarrow> 'a list c" where
  "memcpy dst off src n =
     (if off + n \<le> length dst \<and> n \<le> length src
      then Inr (take off dst @ take n src @ drop (off + n) dst)
      else Inl Out_of_bounds)"

lemma length_memcpy: "memcpy dst off src n = Inr d \<Longrightarrow> length d = length dst"
  by (auto simp: memcpy_def split: if_splits)

lemma drop_update: "i < length xs \<Longrightarrow> drop i (xs[i := x]) = x # drop (Suc i) xs"
  by (simp add: upd_conv_take_nth_drop)

lemma drop_eq_Cons:
  assumes "drop i xs = y # ys"
  shows "i < length xs \<and> xs ! i = y \<and> drop (Suc i) xs = ys"
proof -
  have "i < length xs"
    using assms by (metis drop_eq_Nil list.distinct(1) not_le)
  with assms Cons_nth_drop_Suc[of i xs] show ?thesis by simp
qed

section \<open>Searching a list\<close>

text \<open>The position of the first element with a property: a pointer into a list of structures.\<close>

fun find_index :: "('a \<Rightarrow> bool) \<Rightarrow> 'a list \<Rightarrow> nat option" where
  "find_index P [] = None"
| "find_index P (x # xs) = (if P x then Some 0 else map_option Suc (find_index P xs))"

lemma find_index_None: "find_index P xs = None \<longleftrightarrow> (\<forall>x \<in> set xs. \<not> P x)"
  by (induction xs) auto

lemma find_index_Some:
  "find_index P xs = Some i \<Longrightarrow> i < length xs \<and> P (xs ! i) \<and> (\<forall>j < i. \<not> P (xs ! j))"
proof (induction xs arbitrary: i)
  case (Cons x xs)
  show ?case
  proof (cases "P x")
    case False
    with Cons.prems obtain k where "find_index P xs = Some k" "i = Suc k" by auto
    with Cons.IH False show ?thesis by (auto simp: nth_Cons split: nat.splits)
  qed (use Cons.prems in auto)
qed simp

lemma find_index_eqI:
  "i < length xs \<Longrightarrow> P (xs ! i) \<Longrightarrow> (\<And>j. j < i \<Longrightarrow> \<not> P (xs ! j)) \<Longrightarrow> find_index P xs = Some i"
proof (induction xs arbitrary: i)
  case (Cons x xs)
  show ?case
  proof (cases i)
    case (Suc k)
    with Cons.prems(3)[of 0] have "\<not> P x" by simp
    moreover have "\<not> P (xs ! j)" if "j < k" for j
      using Cons.prems(3)[of "Suc j"] that Suc by simp
    with Cons.prems Suc have "find_index P xs = Some k" by (intro Cons.IH) auto
    ultimately show ?thesis using Suc by simp
  qed (use Cons.prems in simp)
qed simp

lemma find_index_cong_update:
  "i < length xs \<Longrightarrow> P y = P (xs ! i) \<Longrightarrow> find_index P (xs[i := y]) = find_index P xs"
  by (induction xs arbitrary: i) (auto split: nat.splits)

section \<open>Words\<close>

lemma unat_u8: "unat w < 256" for w :: u8
proof -
  have "unat w < 2 ^ LENGTH(8)" by (rule unsigned_less)
  then show ?thesis by simp
qed

lemma unat_u32: "unat w < 2 ^ 32" for w :: u32
proof -
  have "unat w < 2 ^ LENGTH(32)" by (rule unsigned_less)
  then show ?thesis by simp
qed

lemma unat_Suc_le:
  fixes a b :: "'a::len word"
  assumes "a < b"
  shows "unat (a + 1) = Suc (unat a)"
proof -
  from assms have "unat a < unat b" by (simp add: word_less_nat_alt)
  moreover have "unat b < 2 ^ LENGTH('a)" by (rule unsigned_less)
  ultimately have "Suc (unat a) < 2 ^ LENGTH('a)" by linarith
  then show ?thesis by (simp add: unat_word_ariths)
qed

lemma unat_minus_le:
  fixes a b :: "'a::len word"
  assumes "b \<le> a"
  shows "unat (a - b) = unat a - unat b"
  using assms by (simp add: unat_sub)

text \<open>A 32-bit word as its four bytes in memory (least significant first) and back.\<close>

definition le_bytes :: "u32 \<Rightarrow> u8 list" where
  "le_bytes w = [ucast w, ucast (drop_bit 8 w), ucast (drop_bit 16 w), ucast (drop_bit 24 w)]"

definition le_word :: "u8 list \<Rightarrow> u32" where
  "le_word bs = ucast (bs ! 0) OR push_bit 8 (ucast (bs ! 1)) OR
     push_bit 16 (ucast (bs ! 2)) OR push_bit 24 (ucast (bs ! 3))"

lemma length_le_bytes [simp]: "length (le_bytes w) = 4"
  by (simp add: le_bytes_def)

lemma le_word_bytes [simp]: "le_word (le_bytes w @ bs) = w"
proof (rule bit_word_eqI)
  fix n assume "n < LENGTH(32)"
  then have "n < 8 \<or> (8 \<le> n \<and> n < 16) \<or> (16 \<le> n \<and> n < 24) \<or> (24 \<le> n \<and> n < 32)"
    by auto
  then show "bit (le_word (le_bytes w @ bs)) n = bit w n"
    by (auto simp: le_word_def le_bytes_def bit_simps)
qed

lemma u8_high: "8 \<le> n \<Longrightarrow> \<not> bit w n" for w :: u8
  using bit_imp_le_length[of w n] by auto

lemma bit_le_word:
  "bit (le_word [a, b, c, d]) n = (if n < 8 then bit a n else if n < 16 then bit b (n - 8)
     else if n < 24 then bit c (n - 16) else n < 32 \<and> bit d (n - 24))"
  by (auto simp: le_word_def bit_or_iff bit_push_bit_iff bit_ucast_iff u8_high)

lemma le_bytes_word: "le_bytes (le_word [a, b, c, d]) = [a, b, c, d]"
proof -
  have "bit (ucast (drop_bit k (le_word [a, b, c, d])) :: u8) n =
      (n < 8 \<and> bit (le_word [a, b, c, d]) (k + n))" for k n
    by (auto simp: bit_ucast_iff bit_drop_bit_eq add.commute)
  note bits = this[of 0, simplified] this[of 8] this[of 16] this[of 24]
  have "ucast (le_word [a, b, c, d]) = a"
    by (rule bit_word_eqI) (simp add: bits bit_le_word)
  moreover have "ucast (drop_bit 8 (le_word [a, b, c, d])) = b"
    by (rule bit_word_eqI) (simp only: bits bit_le_word, simp)
  moreover have "ucast (drop_bit 16 (le_word [a, b, c, d])) = c"
    by (rule bit_word_eqI) (simp only: bits bit_le_word, simp)
  moreover have "ucast (drop_bit 24 (le_word [a, b, c, d])) = d"
    by (rule bit_word_eqI) (simp only: bits bit_le_word, simp)
  ultimately show ?thesis by (simp add: le_bytes_def)
qed

end
