(* ===== verification/Llist.thy ===== *)
theory Llist
  imports Prelude
begin

text \<open>
  The singly linked list of \<open>utils/llist.c\<close> at pointer level: nodes live in a heap, the
  list header holds the addresses of its first and last node, and every dereference of
  the code is a heap access that may fault. \<open>llist_abs\<close> relates a header to the list of
  its data; the refinement lemmas show that append, indexing, the \<open>llist_foreach\<close> loop
  and clearing behave like the list operations, without faults and always returning. The
  component theories use plain lists for their linked lists on the strength of this.
\<close>

section \<open>Nodes, headers and operations\<close>

record 'a llnode =
  ll_data :: 'a
  ll_next :: "nat option"
  ll_free :: bool

record llist =
  ll_first :: "nat option"
  ll_last :: "nat option"

type_synonym 'a node_heap = "nat \<rightharpoonup> 'a llnode"

text \<open>Reading a node through a pointer that may be NULL or dangling.\<close>

definition deref :: "'a node_heap \<Rightarrow> nat option \<Rightarrow> 'a llnode c" where
  "deref h p = (case p of None \<Rightarrow> Inl Null_deref
     | Some n \<Rightarrow> (case h n of None \<Rightarrow> Inl Use_after_free | Some x \<Rightarrow> Inr x))"

definition llist_new :: llist where
  "llist_new = \<lparr>ll_first = None, ll_last = None\<rparr>"

text \<open>
  \<open>llist_append\<close>: \<open>n\<close> is the address \<open>calloc\<close> returns for the node; \<open>data\<close> is
  \<open>None\<close> for NULL.
\<close>

definition llist_append ::
    "nat \<Rightarrow> 'a node_heap \<Rightarrow> llist \<Rightarrow> 'a option \<Rightarrow> bool \<Rightarrow> (int \<times> 'a node_heap \<times> llist) c" where
  "llist_append n h l data free_data =
     (case data of None \<Rightarrow> Inr (-1, h, l)
      | Some d \<Rightarrow>
         (let node = \<lparr>ll_data = d, ll_next = None, ll_free = free_data\<rparr>;
              h1 = h(n \<mapsto> node)
          in if ll_first l = None
             then Inr (0, h1, l\<lparr>ll_first := Some n, ll_last := Some n\<rparr>)
             else cbind (deref h1 (ll_last l)) (\<lambda>old.
                Inr (0, h1(the (ll_last l) \<mapsto> old\<lparr>ll_next := Some n\<rparr>), l\<lparr>ll_last := Some n\<rparr>))))"

fun get_index_loop :: "'a node_heap \<Rightarrow> nat option \<Rightarrow> nat \<Rightarrow> nat option c" where
  "get_index_loop h node 0 = Inr node"
| "get_index_loop h node (Suc k) =
     cbind (deref h node) (\<lambda>x. case ll_next x of None \<Rightarrow> Inr None
                              | Some m \<Rightarrow> get_index_loop h (Some m) k)"

definition llist_get_index :: "'a node_heap \<Rightarrow> llist \<Rightarrow> int \<Rightarrow> nat option c" where
  "llist_get_index h l index =
     (if index < 0 then Inr None else get_index_loop h (ll_first l) (nat index))"

text \<open>
  \<open>llist_foreach\<close> from index \<open>i\<close> on: the data of the nodes the loop body is run with,
  in order. The loop has no bound of its own.
\<close>

partial_function (option) foreach_loop :: "'a node_heap \<Rightarrow> llist \<Rightarrow> nat \<Rightarrow> 'a list c option" where
  "foreach_loop h l i =
     (case llist_get_index h l (int i) of
        Inl e \<Rightarrow> Some (Inl e)
      | Inr None \<Rightarrow> Some (Inr [])
      | Inr (Some n) \<Rightarrow>
          (case deref h (Some n) of
             Inl e \<Rightarrow> Some (Inl e)
           | Inr x \<Rightarrow> Option.bind (foreach_loop h l (Suc i))
               (\<lambda>r. Some (cbind r (\<lambda>xs. Inr (ll_data x # xs))))))"

declare foreach_loop.simps [code]

definition llist_foreach :: "'a node_heap \<Rightarrow> llist \<Rightarrow> 'a list c" where
  "llist_foreach h l = of_loop (foreach_loop h l 0)"

text \<open>
  \<open>llist_clear\<close>: frees every node, and the data of those appended with \<open>free_data\<close>.
  The result lists the data freed.
\<close>

partial_function (option) clear_loop :: "'a node_heap \<Rightarrow> nat option \<Rightarrow> 'a list \<Rightarrow> ('a node_heap \<times> 'a list) c option" where
  "clear_loop h node freed =
     (case node of None \<Rightarrow> Some (Inr (h, freed))
      | Some n \<Rightarrow> (case deref h (Some n) of
           Inl e \<Rightarrow> Some (Inl e)
         | Inr x \<Rightarrow> clear_loop (h(n := None)) (ll_next x)
                      (if ll_free x then freed @ [ll_data x] else freed)))"

declare clear_loop.simps [code]

definition llist_clear :: "'a node_heap \<Rightarrow> llist \<Rightarrow> ('a node_heap \<times> 'a list \<times> llist) c" where
  "llist_clear h l = cbind (of_loop (clear_loop h (ll_first l) []))
     (\<lambda>(h', freed). Inr (h', freed, l\<lparr>ll_first := None, ll_last := None\<rparr>))"

text \<open>\<open>llist_destroy\<close> also frees the header and sets the caller's pointer to NULL.\<close>

definition llist_destroy :: "'a node_heap \<Rightarrow> llist option \<Rightarrow> ('a node_heap \<times> 'a list \<times> llist option) c" where
  "llist_destroy h lp = (case lp of None \<Rightarrow> Inr (h, [], None)
     | Some l \<Rightarrow> cbind (llist_clear h l) (\<lambda>(h', freed, _). Inr (h', freed, None)))"

section \<open>The list a header stands for\<close>

text \<open>\<open>chain h p ns\<close>: following \<open>next\<close> from \<open>p\<close> visits exactly the nodes \<open>ns\<close>.\<close>

fun chain :: "'a node_heap \<Rightarrow> nat option \<Rightarrow> nat list \<Rightarrow> bool" where
  "chain h p [] \<longleftrightarrow> p = None"
| "chain h p (n # ns) \<longleftrightarrow> p = Some n \<and> (\<exists>x. h n = Some x \<and> chain h (ll_next x) ns)"

definition node_data :: "'a node_heap \<Rightarrow> nat \<Rightarrow> 'a" where
  "node_data h n = ll_data (the (h n))"

definition llist_ok :: "'a node_heap \<Rightarrow> llist \<Rightarrow> nat list \<Rightarrow> bool" where
  "llist_ok h l ns \<longleftrightarrow> chain h (ll_first l) ns \<and> distinct ns \<and>
     ll_last l = (if ns = [] then None else Some (last ns))"

definition llist_abs :: "'a node_heap \<Rightarrow> llist \<Rightarrow> 'a list \<Rightarrow> bool" where
  "llist_abs h l xs \<longleftrightarrow> (\<exists>ns. llist_ok h l ns \<and> xs = map (node_data h) ns)"

section \<open>Lemmas\<close>

lemma deref_Some [simp]: "h n = Some x \<Longrightarrow> deref h (Some n) = Inr x"
  by (simp add: deref_def)

lemma chain_dom: "chain h p ns \<Longrightarrow> set ns \<subseteq> dom h"
  by (induction ns arbitrary: p) auto

lemma chain_frame:
  "chain h p ns \<Longrightarrow> (\<And>n. n \<in> set ns \<Longrightarrow> h' n = h n) \<Longrightarrow> chain h' p ns"
  by (induction ns arbitrary: p) auto

lemma chain_snoc:
  assumes "chain h p (ns @ [m])" and "distinct (ns @ [m])" and "h n = Some y"
    and "ll_next y = None" and "n \<notin> set (ns @ [m])"
  shows "chain (h(m \<mapsto> (the (h m))\<lparr>ll_next := Some n\<rparr>)) p (ns @ [m, n])"
  using assms
proof (induction ns arbitrary: p)
  case Nil
  then show ?case by auto
next
  case (Cons k ns)
  then show ?case by (auto simp: fun_upd_def)
qed

lemma get_index_chain:
  "chain h p ns \<Longrightarrow> k < length ns \<Longrightarrow> get_index_loop h p k = Inr (Some (ns ! k))"
proof (induction ns arbitrary: p k)
  case (Cons n ns)
  then show ?case
    by (cases k; cases ns) auto
qed simp

lemma get_index_chain_end:
  "chain h p ns \<Longrightarrow> ns \<noteq> [] \<Longrightarrow> get_index_loop h p (length ns) = Inr None"
proof (induction ns arbitrary: p)
  case (Cons n ns)
  then show ?case by (cases ns) auto
qed simp

text \<open>
  \<open>llist_get_index\<close> on the list itself. On an empty list any index above 0 reads the
  \<open>next\<close> field through the NULL head.
\<close>

definition list_get_index :: "'a list \<Rightarrow> nat \<Rightarrow> 'a option c" where
  "list_get_index xs i = (if xs = [] \<and> 0 < i then Inl Null_deref
     else Inr (if i < length xs then Some (xs ! i) else None))"

lemma get_index_loop_eq:
  "chain h p ns \<Longrightarrow> get_index_loop h p i = list_get_index ns i"
proof (induction ns arbitrary: p i)
  case Nil
  then show ?case by (cases i) (simp_all add: list_get_index_def deref_def)
next
  case (Cons n ns)
  show ?case
  proof (cases i)
    case (Suc k)
    from Cons.prems obtain x where x: "p = Some n" "h n = Some x" "chain h (ll_next x) ns" by auto
    with Cons.IH[OF x(3), of k] Suc show ?thesis
      by (cases ns) (auto simp: list_get_index_def)
  qed (use Cons.prems in \<open>simp add: list_get_index_def\<close>)
qed

lemma get_index_ok:
  assumes "llist_ok h l ns" and "i \<le> length ns"
  shows "llist_get_index h l (int i) = Inr (if i < length ns then Some (ns ! i) else None)"
proof (cases "i < length ns")
  case True
  with assms show ?thesis by (auto simp: llist_get_index_def llist_ok_def intro: get_index_chain)
next
  case False
  with assms have "i = length ns" by simp
  with assms show ?thesis
    by (cases "ns = []") (auto simp: llist_get_index_def llist_ok_def intro: get_index_chain_end)
qed

lemma llist_ok_node:
  assumes "llist_ok h l ns" and "i < length ns"
  obtains x where "h (ns ! i) = Some x"
proof -
  from assms(1) have "set ns \<subseteq> dom h"
    by (intro chain_dom[of h "ll_first l"]) (simp add: llist_ok_def)
  moreover have "ns ! i \<in> set ns" using assms(2) by simp
  ultimately show thesis using that by blast
qed

lemma foreach_loop_ok:
  assumes "llist_ok h l ns" and "i \<le> length ns"
  shows "foreach_loop h l i = Some (Inr (map (node_data h) (drop i ns)))"
  using assms(2)
proof (induction "length ns - i" arbitrary: i)
  case 0
  then have "i = length ns" by simp
  then show ?case
    using get_index_ok[OF assms(1), of "length ns"] by (subst foreach_loop.simps) simp
next
  case (Suc k)
  then have i: "i < length ns" by simp
  from Suc have IH: "foreach_loop h l (Suc i) = Some (Inr (map (node_data h) (drop (Suc i) ns)))"
    by simp
  obtain x where x: "h (ns ! i) = Some x"
    using llist_ok_node[OF assms(1) i] by auto
  have "drop i ns = ns ! i # drop (Suc i) ns" using i by (simp add: Cons_nth_drop_Suc)
  with x IH i get_index_ok[OF assms(1), of i] show ?case
    by (subst foreach_loop.simps) (simp add: node_data_def)
qed

lemma clear_loop_ok:
  assumes "chain h p ns" and "distinct ns"
  shows "clear_loop h p freed =
     Some (Inr (h |` (- set ns), freed @ map (node_data h) (filter (\<lambda>n. ll_free (the (h n))) ns)))"
  using assms
proof (induction ns arbitrary: h p freed)
  case Nil
  moreover have "h |` UNIV = h" by (simp add: restrict_map_def)
  ultimately show ?case by (subst clear_loop.simps) simp
next
  case (Cons n ns)
  then obtain x where p: "p = Some n" and x: "h n = Some x" and c: "chain h (ll_next x) ns"
    by auto
  let ?h = "h(n := None)"
  from Cons.prems have n: "n \<notin> set ns" by simp
  from c n have c': "chain ?h (ll_next x) ns" by (auto intro: chain_frame)
  have same: "map (node_data ?h) (filter (\<lambda>m. ll_free (the (?h m))) ns) =
      map (node_data h) (filter (\<lambda>m. ll_free (the (h m))) ns)"
  proof -
    have "filter (\<lambda>m. ll_free (the (?h m))) ns = filter (\<lambda>m. ll_free (the (h m))) ns"
      using n by (intro filter_cong) auto
    then show ?thesis using n by (auto simp: node_data_def)
  qed
  have restr: "?h |` (- set ns) = h |` (- set (n # ns))"
    by (auto simp: restrict_map_def fun_eq_iff)
  have IH: "clear_loop ?h (ll_next x) fr = Some (Inr (h |` (- set (n # ns)),
      fr @ map (node_data h) (filter (\<lambda>m. ll_free (the (h m))) ns)))" for fr
  proof -
    from Cons.prems(2) have "distinct ns" by simp
    from Cons.IH[OF c' this, of fr] show ?thesis by (simp only: same restr)
  qed
  show ?case
    unfolding p using x
    by (subst clear_loop.simps) (simp add: IH, simp add: node_data_def)
qed

lemma llist_append_ok:
  assumes ok: "llist_ok h l ns" and fresh: "n \<notin> dom h"
  shows "\<exists>h' l'. llist_append n h l (Some d) f = Inr (0, h', l') \<and> llist_ok h' l' (ns @ [n]) \<and>
     map (node_data h') (ns @ [n]) = map (node_data h) ns @ [d] \<and> dom h' = insert n (dom h)"
proof (cases "ns = []")
  case True
  with ok show ?thesis
    by (auto simp: llist_append_def llist_ok_def node_data_def)
next
  case False
  then obtain ms m where ns: "ns = ms @ [m]" by (metis rev_exhaust)
  let ?h1 = "h(n \<mapsto> \<lparr>ll_data = d, ll_next = None, ll_free = f\<rparr>)"
  from ok have c: "chain h (ll_first l) ns" and dist: "distinct ns" and la: "ll_last l = Some m"
    by (auto simp: llist_ok_def ns)
  from chain_dom[OF c] fresh have nn: "n \<notin> set ns" and m: "m \<in> dom h" by (auto simp: ns)
  then obtain y where y: "h m = Some y" by auto
  have hm: "?h1 m = Some y" using y nn by (auto simp: ns)
  let ?h2 = "?h1(m \<mapsto> y\<lparr>ll_next := Some n\<rparr>)"
  from c nn have "chain ?h1 (ll_first l) ns" by (auto intro: chain_frame)
  then have "chain (?h1(m \<mapsto> (the (?h1 m))\<lparr>ll_next := Some n\<rparr>)) (ll_first l) (ms @ [m, n])"
    using dist nn unfolding ns by (intro chain_snoc) auto
  then have c2: "chain ?h2 (ll_first l) (ms @ [m, n])" by (simp only: hm option.sel)
  obtain k where first: "ll_first l = Some k" using c by (cases ms) (auto simp: ns)
  have "llist_append n h l (Some d) f = Inr (0, ?h2, l\<lparr>ll_last := Some n\<rparr>)"
    using first la hm by (simp add: llist_append_def Let_def)
  moreover have "llist_ok ?h2 (l\<lparr>ll_last := Some n\<rparr>) (ns @ [n])"
    using c2 nn dist by (simp add: llist_ok_def ns)
  moreover have "map (node_data ?h2) (ns @ [n]) = map (node_data h) ns @ [d]"
    using nn y by (auto simp: node_data_def ns)
  moreover have "dom ?h2 = insert n (dom h)" using m by auto
  ultimately show ?thesis by blast
qed

section \<open>The interface of a sequence\<close>

text \<open>
  What the clients of the list rely on: appending to a well-formed list succeeds and
  adds the element at the end, and the iteration visits the elements in order. \<open>fresh\<close>
  says which addresses the memory allocator may hand out.
\<close>

fun append_all ::
    "('s \<Rightarrow> nat) \<Rightarrow> (nat \<Rightarrow> 's \<Rightarrow> 'a \<Rightarrow> (int \<times> 's) c) \<Rightarrow> 's \<Rightarrow> 'a list \<Rightarrow> 's c" where
  "append_all alloc app s [] = Inr s"
| "append_all alloc app s (x # xs) =
     cbind (app (alloc s) s x) (\<lambda>(rv, s'). append_all alloc app s' xs)"

locale sequence =
  fixes inv :: "'s \<Rightarrow> bool"
    and items :: "'s \<Rightarrow> 'a list"
    and fresh :: "'s \<Rightarrow> nat \<Rightarrow> bool"
    and app :: "nat \<Rightarrow> 's \<Rightarrow> 'a \<Rightarrow> (int \<times> 's) c"
    and each :: "'s \<Rightarrow> 'a list c"
  assumes append: "inv s \<Longrightarrow> fresh s n \<Longrightarrow>
      \<exists>s'. app n s x = Inr (0, s') \<and> inv s' \<and> items s' = items s @ [x]"
    and each: "inv s \<Longrightarrow> each s = Inr (items s)"
begin

lemma append_all_items:
  assumes "\<And>s. inv s \<Longrightarrow> fresh s (alloc s)" and "inv s"
  shows "\<exists>s'. append_all alloc app s xs = Inr s' \<and> inv s' \<and> items s' = items s @ xs"
  using assms(2)
proof (induction xs arbitrary: s)
  case (Cons x xs)
  from append[OF Cons.prems assms(1)[OF Cons.prems], of x] obtain s' where
    s': "app (alloc s) s x = Inr (0, s')" "inv s'" "items s' = items s @ [x]" by auto
  from Cons.IH[OF s'(2)] s' show ?case by auto
qed simp

lemma each_append_all:
  assumes "\<And>s. inv s \<Longrightarrow> fresh s (alloc s)" and "inv s"
  shows "cbind (append_all alloc app s xs) each = Inr (items s @ xs)"
  using append_all_items[OF assms, of xs] each by auto

end

definition seq_inv :: "'a node_heap \<times> llist \<Rightarrow> bool" where
  "seq_inv s \<longleftrightarrow> finite (dom (fst s)) \<and> (\<exists>ns. llist_ok (fst s) (snd s) ns)"

definition seq_items :: "'a node_heap \<times> llist \<Rightarrow> 'a list" where
  "seq_items s = (case llist_foreach (fst s) (snd s) of Inl e \<Rightarrow> [] | Inr xs \<Rightarrow> xs)"

definition seq_append :: "bool \<Rightarrow> nat \<Rightarrow> 'a node_heap \<times> llist \<Rightarrow> 'a \<Rightarrow> (int \<times> 'a node_heap \<times> llist) c" where
  "seq_append f n s d = llist_append n (fst s) (snd s) (Some d) f"

lemma foreach_ok: "llist_ok h l ns \<Longrightarrow> llist_foreach h l = Inr (map (node_data h) ns)"
  using foreach_loop_ok[of h l ns 0] by (simp add: llist_foreach_def)

interpretation lls: sequence seq_inv seq_items "\<lambda>s n. n \<notin> dom (fst s)" "seq_append f"
    "\<lambda>s. llist_foreach (fst s) (snd s)" for f
proof unfold_locales
  fix s :: "'a node_heap \<times> llist" and n :: nat and x :: 'a
  assume inv: "seq_inv s" and "n \<notin> dom (fst s)"
  then obtain ns where ok: "llist_ok (fst s) (snd s) ns" and fin: "finite (dom (fst s))"
    by (auto simp: seq_inv_def)
  from llist_append_ok[OF ok \<open>n \<notin> dom (fst s)\<close>, of x f] obtain h' l' where
    "llist_append n (fst s) (snd s) (Some x) f = Inr (0, h', l')" "llist_ok h' l' (ns @ [n])"
    "map (node_data h') (ns @ [n]) = map (node_data (fst s)) ns @ [x]"
    "dom h' = insert n (dom (fst s))" by auto
  then show "\<exists>s'. seq_append f n s x = Inr (0, s') \<and> seq_inv s' \<and> seq_items s' = seq_items s @ [x]"
    using foreach_ok[OF ok] foreach_ok[of h' l' "ns @ [n]"] fin
    by (auto simp: seq_append_def seq_inv_def seq_items_def)
next
  fix s :: "'a node_heap \<times> llist"
  assume "seq_inv s"
  then show "llist_foreach (fst s) (snd s) = Inr (seq_items s)"
    by (auto simp: seq_inv_def seq_items_def foreach_ok)
qed

lemma seq_inv_new: "finite (dom h) \<Longrightarrow> seq_inv (h, llist_new)"
  by (simp add: seq_inv_def llist_ok_def llist_new_def exI[of _ "[]"])

lemma seq_items_new: "seq_items (h, llist_new) = []"
  using foreach_ok[of h llist_new "[]"] by (simp add: seq_items_def llist_ok_def llist_new_def)

section \<open>Properties\<close>

text \<open>
  C39. Appending values to a new list one after the other, with any memory allocator that
  hands out addresses not in use, never fails, and iterating over the list then terminates
  and visits exactly these values, in order.
\<close>

theorem llist_append_iterate:
  assumes "finite (dom h)" "\<And>s. finite (dom (fst s)) \<Longrightarrow> alloc s \<notin> dom (fst s)"
  shows "cbind (append_all alloc (seq_append f) (h, llist_new) xs) (\<lambda>s. llist_foreach (fst s) (snd s)) = Inr xs"
proof -
  have "alloc s \<notin> dom (fst s)" if "seq_inv s" for s :: "'a node_heap \<times> llist"
    using that assms(2) by (simp add: seq_inv_def)
  from lls.each_append_all[OF this seq_inv_new[OF assms(1)], of f xs] show ?thesis
    by (simp add: seq_items_new)
qed

theorem llist_append_iterate_witness:
  "cbind (append_all (\<lambda>s. LEAST n. n \<notin> dom (fst s)) (seq_append True) (Map.empty, llist_new) ''abc'')
     (\<lambda>s. llist_foreach (fst s) (snd s)) = Inr ''abc''"
proof (rule llist_append_iterate)
  fix s :: "char node_heap \<times> llist"
  assume "finite (dom (fst s))"
  then obtain n where "n \<notin> dom (fst s)" using ex_new_if_finite[OF infinite_UNIV_nat] by blast
  then show "(LEAST n. n \<notin> dom (fst s)) \<notin> dom (fst s)" by (rule LeastI)
qed simp

text \<open>
  Clearing a well-formed list terminates, frees exactly its nodes and, once each, the
  data of those nodes that were appended with the flag to free them, and leaves an empty
  list.
\<close>

theorem llist_clear_frees:
  assumes "llist_ok h l ns"
  shows "llist_clear h l = Inr (h |` (- set ns), map (node_data h) (filter (\<lambda>n. ll_free (the (h n))) ns), llist_new)"
  using clear_loop_ok[of h "ll_first l" ns "[]"] assms
  by (simp add: llist_clear_def llist_ok_def llist_new_def)

theorem llist_clear_frees_witness:
  "llist_clear [3 \<mapsto> \<lparr>ll_data = CHR ''a'', ll_next = None, ll_free = True\<rparr>] \<lparr>ll_first = Some 3, ll_last = Some 3\<rparr> =
     Inr (Map.empty, ''a'', llist_new)"
  using llist_clear_frees[of "[3 \<mapsto> \<lparr>ll_data = CHR ''a'', ll_next = None, ll_free = True\<rparr>]"
      "\<lparr>ll_first = Some 3, ll_last = Some 3\<rparr>" "[3]"]
  by (simp add: llist_ok_def node_data_def)

text \<open>
  Asking a well-formed list for an index gives the node there, or NULL past the end; but
  an empty list is dereferenced through its NULL head for every index above 0.
\<close>

theorem llist_get_index_spec:
  assumes "llist_ok h l ns"
  shows "llist_get_index h l (int i) =
     (if ns = [] \<and> 0 < i then Inl Null_deref else Inr (if i < length ns then Some (ns ! i) else None))"
  using get_index_loop_eq[of h "ll_first l" ns i] assms
  by (simp add: llist_get_index_def llist_ok_def list_get_index_def)

theorem llist_get_index_spec_witness:
  "llist_get_index (Map.empty :: char node_heap) llist_new 1 = Inl Null_deref"
  using llist_get_index_spec[of "Map.empty :: char node_heap" llist_new "[]" 1]
  by (simp add: llist_ok_def llist_new_def)

end
