(* ===== verification/Rfc.thy ===== *)
theory Rfc
  imports Prelude
begin

text \<open>
  The constants of \<open>RFC/RFC-2131.h\<close>, \<open>RFC/RFC-2132.h\<close> and \<open>RFC/RFC-1700.h\<close>: option tags,
  message types, opcodes, hardware types and sizes. Tags are bytes, as on the wire;
  message types are the 32-bit numbers the code compares.
\<close>

section \<open>RFC 2131\<close>

abbreviation (input) MAGIC_COOKIE :: u32 where "MAGIC_COOKIE \<equiv> 0x63825363"

abbreviation (input) DHCP_DISCOVER :: u32 where "DHCP_DISCOVER \<equiv> 1"
abbreviation (input) DHCP_OFFER :: u32 where "DHCP_OFFER \<equiv> 2"
abbreviation (input) DHCP_REQUEST :: u32 where "DHCP_REQUEST \<equiv> 3"
abbreviation (input) DHCP_DECLINE :: u32 where "DHCP_DECLINE \<equiv> 4"
abbreviation (input) DHCP_ACK :: u32 where "DHCP_ACK \<equiv> 5"
abbreviation (input) DHCP_NAK :: u32 where "DHCP_NAK \<equiv> 6"
abbreviation (input) DHCP_RELEASE :: u32 where "DHCP_RELEASE \<equiv> 7"
abbreviation (input) DHCP_INFORM :: u32 where "DHCP_INFORM \<equiv> 8"

abbreviation (input) BOOTREQUEST :: u8 where "BOOTREQUEST \<equiv> 1"
abbreviation (input) BOOTREPLY :: u8 where "BOOTREPLY \<equiv> 2"

definition rfc2131_dhcp_message_type_to_str :: "u32 \<Rightarrow> string" where
  "rfc2131_dhcp_message_type_to_str t =
     (if t = DHCP_DISCOVER then ''DHCP_DISCOVER''
      else if t = DHCP_OFFER then ''DHCP_OFFER''
      else if t = DHCP_REQUEST then ''DHCP_REQUEST''
      else if t = DHCP_DECLINE then ''DHCP_DECLINE''
      else if t = DHCP_ACK then ''DHCP_ACK''
      else if t = DHCP_NAK then ''DHCP_NAK''
      else if t = DHCP_RELEASE then ''DHCP_RELEASE''
      else if t = DHCP_INFORM then ''DHCP_INFORM''
      else ''Unknown DHCP Message Type'')"

section \<open>RFC 1700\<close>

abbreviation (input) ETHERNET :: u8 where "ETHERNET \<equiv> 1"

section \<open>RFC 2132\<close>

abbreviation (input) DHCP_OPTION_MAX_LENGHT :: nat where "DHCP_OPTION_MAX_LENGHT \<equiv> 253"
abbreviation (input) DHCP_PACKET_OPTIONS_SIZE :: nat where "DHCP_PACKET_OPTIONS_SIZE \<equiv> 312"

abbreviation (input) DHCP_OPTION_PAD :: u8 where "DHCP_OPTION_PAD \<equiv> 0"
abbreviation (input) DHCP_OPTION_SUBNET_MASK :: u8 where "DHCP_OPTION_SUBNET_MASK \<equiv> 1"
abbreviation (input) DHCP_OPTION_TIME_OFFSET :: u8 where "DHCP_OPTION_TIME_OFFSET \<equiv> 2"
abbreviation (input) DHCP_OPTION_ROUTER :: u8 where "DHCP_OPTION_ROUTER \<equiv> 3"
abbreviation (input) DHCP_OPTION_TIME_SERVERS :: u8 where "DHCP_OPTION_TIME_SERVERS \<equiv> 4"
abbreviation (input) DHCP_OPTION_NAME_SERVERS :: u8 where "DHCP_OPTION_NAME_SERVERS \<equiv> 5"
abbreviation (input) DHCP_OPTION_DOMAIN_NAME_SERVERS :: u8 where "DHCP_OPTION_DOMAIN_NAME_SERVERS \<equiv> 6"
abbreviation (input) DHCP_OPTION_LOG_SERVERS :: u8 where "DHCP_OPTION_LOG_SERVERS \<equiv> 7"
abbreviation (input) DHCP_OPTION_COOKIE_SERVERS :: u8 where "DHCP_OPTION_COOKIE_SERVERS \<equiv> 8"
abbreviation (input) DHCP_OPTION_LPR_SERVERS :: u8 where "DHCP_OPTION_LPR_SERVERS \<equiv> 9"
abbreviation (input) DHCP_OPTION_IMPRESS_SERVERS :: u8 where "DHCP_OPTION_IMPRESS_SERVERS \<equiv> 10"
abbreviation (input) DHCP_OPTION_RESOURCE_LOCATION_SERVERS :: u8 where "DHCP_OPTION_RESOURCE_LOCATION_SERVERS \<equiv> 11"
abbreviation (input) DHCP_OPTION_HOST_NAME :: u8 where "DHCP_OPTION_HOST_NAME \<equiv> 12"
abbreviation (input) DHCP_OPTION_BOOT_FILE_SIZE :: u8 where "DHCP_OPTION_BOOT_FILE_SIZE \<equiv> 13"
abbreviation (input) DHCP_OPTION_MERIT_DUMP :: u8 where "DHCP_OPTION_MERIT_DUMP \<equiv> 14"
abbreviation (input) DHCP_OPTION_DOMAIN_NAME :: u8 where "DHCP_OPTION_DOMAIN_NAME \<equiv> 15"
abbreviation (input) DHCP_OPTION_SWAP_SERVER :: u8 where "DHCP_OPTION_SWAP_SERVER \<equiv> 16"
abbreviation (input) DHCP_OPTION_ROOT_PATH :: u8 where "DHCP_OPTION_ROOT_PATH \<equiv> 17"
abbreviation (input) DHCP_OPTION_EXTENSIONS_PATH :: u8 where "DHCP_OPTION_EXTENSIONS_PATH \<equiv> 18"
abbreviation (input) DHCP_OPTION_IP_FORWARDING_ENABLE_DISABLE :: u8 where "DHCP_OPTION_IP_FORWARDING_ENABLE_DISABLE \<equiv> 19"
abbreviation (input) DHCP_OPTION_NON_LOCAL_SOURCE_ROUTING_ENABLE_DISABLE :: u8 where "DHCP_OPTION_NON_LOCAL_SOURCE_ROUTING_ENABLE_DISABLE \<equiv> 20"
abbreviation (input) DHCP_OPTION_POLICY_FILTER :: u8 where "DHCP_OPTION_POLICY_FILTER \<equiv> 21"
abbreviation (input) DHCP_OPTION_MAX_DGRAM_REASSEMBLY_SIZE :: u8 where "DHCP_OPTION_MAX_DGRAM_REASSEMBLY_SIZE \<equiv> 22"
abbreviation (input) DHCP_OPTION_DEFAULT_IP_TTL :: u8 where "DHCP_OPTION_DEFAULT_IP_TTL \<equiv> 23"
abbreviation (input) DHCP_OPTION_PATH_MTU_AGING_TIMEOUT :: u8 where "DHCP_OPTION_PATH_MTU_AGING_TIMEOUT \<equiv> 24"
abbreviation (input) DHCP_OPTION_PATH_MTU_PLATEAU_TABLE :: u8 where "DHCP_OPTION_PATH_MTU_PLATEAU_TABLE \<equiv> 25"
abbreviation (input) DHCP_OPTION_INTERFACE_MTU :: u8 where "DHCP_OPTION_INTERFACE_MTU \<equiv> 26"
abbreviation (input) DHCP_OPTION_ALL_SUBNETS_LOCAL :: u8 where "DHCP_OPTION_ALL_SUBNETS_LOCAL \<equiv> 27"
abbreviation (input) DHCP_OPTION_BROADCAST_ADDRESS :: u8 where "DHCP_OPTION_BROADCAST_ADDRESS \<equiv> 28"
abbreviation (input) DHCP_OPTION_PERFORM_MASK_DISCOVERY :: u8 where "DHCP_OPTION_PERFORM_MASK_DISCOVERY \<equiv> 29"
abbreviation (input) DHCP_OPTION_MASK_SUPPLIER :: u8 where "DHCP_OPTION_MASK_SUPPLIER \<equiv> 30"
abbreviation (input) DHCP_OPTION_ROUTER_DISCOVERY :: u8 where "DHCP_OPTION_ROUTER_DISCOVERY \<equiv> 31"
abbreviation (input) DHCP_OPTION_ROUTER_SOLICITATION_ADDRESS :: u8 where "DHCP_OPTION_ROUTER_SOLICITATION_ADDRESS \<equiv> 32"
abbreviation (input) DHCP_OPTION_STATIC_ROUTE :: u8 where "DHCP_OPTION_STATIC_ROUTE \<equiv> 33"
abbreviation (input) DHCP_OPTION_TRAILER_ENCAPSULATION :: u8 where "DHCP_OPTION_TRAILER_ENCAPSULATION \<equiv> 34"
abbreviation (input) DHCP_OPTION_ARP_CACHE_TIMEOUT :: u8 where "DHCP_OPTION_ARP_CACHE_TIMEOUT \<equiv> 35"
abbreviation (input) DHCP_OPTION_IEEE802_3_ENCAPSULATION :: u8 where "DHCP_OPTION_IEEE802_3_ENCAPSULATION \<equiv> 36"
abbreviation (input) DHCP_OPTION_DEFAULT_TCP_TTL :: u8 where "DHCP_OPTION_DEFAULT_TCP_TTL \<equiv> 37"
abbreviation (input) DHCP_OPTION_TCP_KEEPALIVE_INTERVAL :: u8 where "DHCP_OPTION_TCP_KEEPALIVE_INTERVAL \<equiv> 38"
abbreviation (input) DHCP_OPTION_TCP_KEEPALIVE_GARBAGE :: u8 where "DHCP_OPTION_TCP_KEEPALIVE_GARBAGE \<equiv> 39"
abbreviation (input) DHCP_OPTION_NIS_DOMAIN :: u8 where "DHCP_OPTION_NIS_DOMAIN \<equiv> 40"
abbreviation (input) DHCP_OPTION_NIS_SERVERS :: u8 where "DHCP_OPTION_NIS_SERVERS \<equiv> 41"
abbreviation (input) DHCP_OPTION_NTP_SERVERS :: u8 where "DHCP_OPTION_NTP_SERVERS \<equiv> 42"
abbreviation (input) DHCP_OPTION_VENDOR_SPECIFIC_INFO :: u8 where "DHCP_OPTION_VENDOR_SPECIFIC_INFO \<equiv> 43"
abbreviation (input) DHCP_OPTION_NETBIOS_NAME_SERVERS :: u8 where "DHCP_OPTION_NETBIOS_NAME_SERVERS \<equiv> 44"
abbreviation (input) DHCP_OPTION_NETBIOS_DD_SERVER :: u8 where "DHCP_OPTION_NETBIOS_DD_SERVER \<equiv> 45"
abbreviation (input) DHCP_OPTION_NETBIOS_NODE_TYPE :: u8 where "DHCP_OPTION_NETBIOS_NODE_TYPE \<equiv> 46"
abbreviation (input) DHCP_OPTION_NETBIOS_SCOPE :: u8 where "DHCP_OPTION_NETBIOS_SCOPE \<equiv> 47"
abbreviation (input) DHCP_OPTION_X_WINDOW_FONT_SERVER :: u8 where "DHCP_OPTION_X_WINDOW_FONT_SERVER \<equiv> 48"
abbreviation (input) DHCP_OPTION_X_WINDOW_DISPLAY_MANAGER :: u8 where "DHCP_OPTION_X_WINDOW_DISPLAY_MANAGER \<equiv> 49"
abbreviation (input) DHCP_OPTION_REQUESTED_IP_ADDRESS :: u8 where "DHCP_OPTION_REQUESTED_IP_ADDRESS \<equiv> 50"
abbreviation (input) DHCP_OPTION_IP_ADDRESS_LEASE_TIME :: u8 where "DHCP_OPTION_IP_ADDRESS_LEASE_TIME \<equiv> 51"
abbreviation (input) DHCP_OPTION_OVERLOAD :: u8 where "DHCP_OPTION_OVERLOAD \<equiv> 52"
abbreviation (input) DHCP_OPTION_DHCP_MESSAGE_TYPE :: u8 where "DHCP_OPTION_DHCP_MESSAGE_TYPE \<equiv> 53"
abbreviation (input) DHCP_OPTION_SERVER_IDENTIFIER :: u8 where "DHCP_OPTION_SERVER_IDENTIFIER \<equiv> 54"
abbreviation (input) DHCP_OPTION_PARAMETER_REQUEST_LIST :: u8 where "DHCP_OPTION_PARAMETER_REQUEST_LIST \<equiv> 55"
abbreviation (input) DHCP_OPTION_MESSAGE :: u8 where "DHCP_OPTION_MESSAGE \<equiv> 56"
abbreviation (input) DHCP_OPTION_MAX_DHCP_MESSAGE_SIZE :: u8 where "DHCP_OPTION_MAX_DHCP_MESSAGE_SIZE \<equiv> 57"
abbreviation (input) DHCP_OPTION_RENEWAL_TIME_VALUE :: u8 where "DHCP_OPTION_RENEWAL_TIME_VALUE \<equiv> 58"
abbreviation (input) DHCP_OPTION_REBINDING_TIME_VALUE :: u8 where "DHCP_OPTION_REBINDING_TIME_VALUE \<equiv> 59"
abbreviation (input) DHCP_OPTION_VENDOR_CLASS_IDENTIFIER :: u8 where "DHCP_OPTION_VENDOR_CLASS_IDENTIFIER \<equiv> 60"
abbreviation (input) DHCP_OPTION_CLIENT_IDENTIFIER :: u8 where "DHCP_OPTION_CLIENT_IDENTIFIER \<equiv> 61"
abbreviation (input) DHCP_OPTION_NWIP_DOMAIN_NAME :: u8 where "DHCP_OPTION_NWIP_DOMAIN_NAME \<equiv> 62"
abbreviation (input) DHCP_OPTION_NWIP_SUBOPTIONS :: u8 where "DHCP_OPTION_NWIP_SUBOPTIONS \<equiv> 63"
abbreviation (input) DHCP_OPTION_USER_CLASS :: u8 where "DHCP_OPTION_USER_CLASS \<equiv> 77"
abbreviation (input) DHCP_OPTION_FQDN :: u8 where "DHCP_OPTION_FQDN \<equiv> 81"
abbreviation (input) DHCP_OPTION_DHCP_AGENT_OPTIONS :: u8 where "DHCP_OPTION_DHCP_AGENT_OPTIONS \<equiv> 82"
abbreviation (input) DHCP_OPTION_END :: u8 where "DHCP_OPTION_END \<equiv> 255"

end
