(* ===== verification/Dhcp_options.thy ===== *)
theory Dhcp_options
  imports Rfc
begin

text \<open>
  DHCP options (\<open>dhcp_options.c\<close>): the option structure with its value union, parsing
  and serialising the options field of a packet, and the option lists messages and pools
  carry. The union is its 256 bytes of storage (253 rounded up to the alignment of its
  32-bit members); \<open>number\<close> and \<open>ip\<close> read the first four bytes in host order.
  A list of options is the list its \<open>llist_t\<close> stands for.
\<close>

section \<open>The structure\<close>

datatype dhcp_option_type =
  DHCP_OPTION_NUMERIC | DHCP_OPTION_STRING | DHCP_OPTION_IP | DHCP_OPTION_BOOL | DHCP_OPTION_BIN

record dhcp_option =
  opt_type :: dhcp_option_type
  opt_tag :: u8
  opt_lenght :: u8
  opt_value :: "u8 list"

definition union_size :: nat where
  "union_size = 256"

definition zeros :: "nat \<Rightarrow> u8 list" where
  "zeros n = replicate n 0"

definition number :: "dhcp_option \<Rightarrow> u32" where
  "number o1 = le_word (opt_value o1)"

definition set_number :: "u32 \<Rightarrow> dhcp_option \<Rightarrow> dhcp_option" where
  "set_number w o1 = o1\<lparr>opt_value := le_bytes w @ drop 4 (opt_value o1)\<rparr>"

abbreviation ip :: "dhcp_option \<Rightarrow> u32" where "ip \<equiv> number"

abbreviation len :: "dhcp_option \<Rightarrow> nat" where "len o1 \<equiv> unat (opt_lenght o1)"

definition tag_in :: "int \<Rightarrow> u8 list \<Rightarrow> bool" where
  "tag_in tag ts \<longleftrightarrow> (\<exists>t \<in> set ts. uint t = tag)"

definition dhcp_option_tag_to_type :: "int \<Rightarrow> dhcp_option_type" where
  "dhcp_option_tag_to_type tag =
    (if tag_in tag [DHCP_OPTION_IP_FORWARDING_ENABLE_DISABLE,
        DHCP_OPTION_NON_LOCAL_SOURCE_ROUTING_ENABLE_DISABLE, DHCP_OPTION_ROUTER_DISCOVERY,
        DHCP_OPTION_ALL_SUBNETS_LOCAL, DHCP_OPTION_MASK_SUPPLIER,
        DHCP_OPTION_TRAILER_ENCAPSULATION, DHCP_OPTION_PERFORM_MASK_DISCOVERY,
        DHCP_OPTION_IEEE802_3_ENCAPSULATION, DHCP_OPTION_TCP_KEEPALIVE_GARBAGE]
     then DHCP_OPTION_BOOL
     else if tag_in tag [DHCP_OPTION_SUBNET_MASK, DHCP_OPTION_ROUTER,
        DHCP_OPTION_REQUESTED_IP_ADDRESS, DHCP_OPTION_SERVER_IDENTIFIER,
        DHCP_OPTION_TIME_SERVERS, DHCP_OPTION_NAME_SERVERS, DHCP_OPTION_DOMAIN_NAME_SERVERS,
        DHCP_OPTION_LOG_SERVERS, DHCP_OPTION_COOKIE_SERVERS, DHCP_OPTION_LPR_SERVERS,
        DHCP_OPTION_IMPRESS_SERVERS, DHCP_OPTION_RESOURCE_LOCATION_SERVERS,
        DHCP_OPTION_SWAP_SERVER, DHCP_OPTION_BROADCAST_ADDRESS,
        DHCP_OPTION_ROUTER_SOLICITATION_ADDRESS, DHCP_OPTION_STATIC_ROUTE,
        DHCP_OPTION_NIS_SERVERS, DHCP_OPTION_NTP_SERVERS, DHCP_OPTION_NETBIOS_NAME_SERVERS,
        DHCP_OPTION_NETBIOS_DD_SERVER, DHCP_OPTION_X_WINDOW_FONT_SERVER,
        DHCP_OPTION_X_WINDOW_DISPLAY_MANAGER]
     then DHCP_OPTION_IP
     else if tag_in tag [DHCP_OPTION_DHCP_MESSAGE_TYPE, DHCP_OPTION_TIME_OFFSET,
        DHCP_OPTION_BOOT_FILE_SIZE, DHCP_OPTION_MERIT_DUMP,
        DHCP_OPTION_MAX_DGRAM_REASSEMBLY_SIZE, DHCP_OPTION_IP_ADDRESS_LEASE_TIME,
        DHCP_OPTION_DEFAULT_IP_TTL, DHCP_OPTION_PATH_MTU_AGING_TIMEOUT,
        DHCP_OPTION_INTERFACE_MTU, DHCP_OPTION_DEFAULT_TCP_TTL,
        DHCP_OPTION_TCP_KEEPALIVE_INTERVAL, DHCP_OPTION_NETBIOS_NODE_TYPE,
        DHCP_OPTION_RENEWAL_TIME_VALUE, DHCP_OPTION_REBINDING_TIME_VALUE,
        DHCP_OPTION_ARP_CACHE_TIMEOUT, DHCP_OPTION_OVERLOAD]
     then DHCP_OPTION_NUMERIC
     else if tag_in tag [DHCP_OPTION_HOST_NAME, DHCP_OPTION_DOMAIN_NAME,
        DHCP_OPTION_POLICY_FILTER, DHCP_OPTION_NIS_DOMAIN, DHCP_OPTION_USER_CLASS,
        DHCP_OPTION_FQDN, DHCP_OPTION_ROOT_PATH, DHCP_OPTION_EXTENSIONS_PATH,
        DHCP_OPTION_NETBIOS_SCOPE]
     then DHCP_OPTION_STRING
     else DHCP_OPTION_BIN)"

section \<open>Values on the wire\<close>

definition be_word :: "u8 list \<Rightarrow> u32" where
  "be_word bs = foldl (\<lambda>n b. push_bit 8 n OR ucast b) 0 bs"

definition parse_option_value_numeric :: "dhcp_option \<Rightarrow> u8 list \<Rightarrow> dhcp_option c" where
  "parse_option_value_numeric o1 v =
     (if len o1 \<le> length v then Inr (set_number (be_word (take (len o1) v)) o1)
      else Inl Out_of_bounds)"

definition parse_option_value_ip :: "dhcp_option \<Rightarrow> u8 list \<Rightarrow> dhcp_option c" where
  "parse_option_value_ip o1 v =
     (if len o1 \<le> length v then Inr (set_number (be_word (take (len o1) v)) o1)
      else Inl Out_of_bounds)"

definition parse_option_value_bool :: "dhcp_option \<Rightarrow> u8 list \<Rightarrow> dhcp_option c" where
  "parse_option_value_bool o1 v = cbind (array_get v 0) (\<lambda>b.
     Inr (o1\<lparr>opt_value := (if b \<noteq> 0 then 1 else 0) # drop 1 (opt_value o1)\<rparr>))"

text \<open>
  The byte loop of the numeric and IP serialisers, from counter \<open>i\<close> on. Shifting a
  32-bit value by 32 or more is undefined.
\<close>

function serialize_number_loop :: "u32 \<Rightarrow> nat \<Rightarrow> nat \<Rightarrow> nat \<Rightarrow> u8 list \<Rightarrow> u8 list c" where
  "serialize_number_loop w n off i raw =
     (if i < n then
        if 32 \<le> 8 * i then Inl Bad_shift
        else cbind (array_set raw (off + (n - i - 1)) (ucast (drop_bit (8 * i) w AND 0xff)))
               (\<lambda>raw'. serialize_number_loop w n off (Suc i) raw')
      else Inr raw)"
  by pat_completeness auto
termination by (relation "measure (\<lambda>(w, n, off, i, raw). n - i)") auto

declare serialize_number_loop.simps [simp del]

definition serialize_option_numeric :: "dhcp_option \<Rightarrow> u8 list \<Rightarrow> nat \<Rightarrow> u8 list c" where
  "serialize_option_numeric o1 raw off = serialize_number_loop (number o1) (len o1) off 0 raw"

definition serialize_option_ip :: "dhcp_option \<Rightarrow> u8 list \<Rightarrow> nat \<Rightarrow> u8 list c" where
  "serialize_option_ip o1 raw off = serialize_number_loop (ip o1) (len o1) off 0 raw"

definition serialize_option_value :: "dhcp_option \<Rightarrow> u8 list \<Rightarrow> nat \<Rightarrow> (int \<times> u8 list) c" where
  "serialize_option_value o1 raw off =
     (case opt_type o1 of
        DHCP_OPTION_NUMERIC \<Rightarrow> cbind (serialize_option_numeric o1 raw off) (\<lambda>r. Inr (0, r))
      | DHCP_OPTION_IP \<Rightarrow> cbind (serialize_option_ip o1 raw off) (\<lambda>r. Inr (0, r))
      | _ \<Rightarrow> cbind (memcpy raw off (opt_value o1) (len o1)) (\<lambda>r. Inr (0, r)))"

definition parse_option_value :: "dhcp_option \<Rightarrow> u8 list \<Rightarrow> (int \<times> dhcp_option) c" where
  "parse_option_value o1 v =
     (case opt_type o1 of
        DHCP_OPTION_NUMERIC \<Rightarrow> cbind (parse_option_value_numeric o1 v) (\<lambda>r. Inr (0, r))
      | DHCP_OPTION_IP \<Rightarrow> cbind (parse_option_value_ip o1 v) (\<lambda>r. Inr (0, r))
      | DHCP_OPTION_BOOL \<Rightarrow> cbind (parse_option_value_bool o1 v) (\<lambda>r. Inr (0, r))
      | _ \<Rightarrow> (let cleared = zeros DHCP_OPTION_MAX_LENGHT @ drop DHCP_OPTION_MAX_LENGHT (opt_value o1)
             in cbind (memcpy cleared 0 v (len o1)) (\<lambda>b. Inr (0, o1\<lparr>opt_value := b\<rparr>))))"

section \<open>Option lists\<close>

definition dhcp_option_retrieve :: "dhcp_option list \<Rightarrow> u8 \<Rightarrow> dhcp_option option" where
  "dhcp_option_retrieve options tag = List.find (\<lambda>o1. opt_tag o1 = tag) options"

text \<open>\<open>None\<close> is a NULL option. A tag already present is left alone, with success.\<close>

definition dhcp_option_add ::
    "dhcp_option list \<Rightarrow> dhcp_option option \<Rightarrow> int \<times> dhcp_option list" where
  "dhcp_option_add dest option =
     (case option of None \<Rightarrow> (-1, dest)
      | Some o1 \<Rightarrow> if dhcp_option_retrieve dest (opt_tag o1) \<noteq> None then (0, dest)
                  else (0, dest @ [o1]))"

definition dhcp_option_new :: dhcp_option where
  "dhcp_option_new = \<lparr>opt_type = DHCP_OPTION_NUMERIC, opt_tag = 0, opt_lenght = 0,
     opt_value = zeros union_size\<rparr>"

text \<open>\<open>value\<close> is the memory the pointer argument points to.\<close>

definition dhcp_option_new_values :: "int \<Rightarrow> int \<Rightarrow> u8 list \<Rightarrow> dhcp_option c" where
  "dhcp_option_new_values tag lenght value =
     (if lenght < 0 then Inl Out_of_bounds
      else cbind (memcpy (opt_value dhcp_option_new) 0 value (nat lenght)) (\<lambda>b.
        Inr \<lparr>opt_type = dhcp_option_tag_to_type tag, opt_tag = of_int tag,
             opt_lenght = of_int lenght, opt_value = b\<rparr>))"

definition dhcp_option_copy :: "dhcp_option option \<Rightarrow> dhcp_option option c" where
  "dhcp_option_copy original =
     (case original of None \<Rightarrow> Inr None
      | Some o1 \<Rightarrow> cbind (dhcp_option_new_values (uint (opt_tag o1)) (uint (opt_lenght o1)) (opt_value o1))
                    (\<lambda>o2. Inr (Some o2)))"

section \<open>The options field of a packet\<close>

text \<open>One option at offset \<open>i\<close>: its tag, its length and its value, through the 253-byte \<open>value_buf\<close>.\<close>

definition parse_one :: "u8 list \<Rightarrow> nat \<Rightarrow> (int \<times> dhcp_option) c" where
  "parse_one raw_options i =
     cbind (array_get raw_options i) (\<lambda>tag.
     cbind (array_get raw_options (i + 1)) (\<lambda>lenght.
       let option = dhcp_option_new\<lparr>opt_tag := tag, opt_type := dhcp_option_tag_to_type (uint tag),
                                    opt_lenght := lenght\<rparr>
       in cbind (memcpy (zeros DHCP_OPTION_MAX_LENGHT) 0 (drop (i + 2) raw_options) (unat lenght))
            (\<lambda>value_buf. parse_option_value option value_buf)))"

text \<open>
  The loop of \<open>dhcp_option_parse\<close>. On a pad byte the code continues without advancing
  \<open>i\<close>.
\<close>

partial_function (option) parse_loop ::
    "u8 list \<Rightarrow> nat \<Rightarrow> dhcp_option list \<Rightarrow> (int \<times> dhcp_option list) c option" where
  "parse_loop raw_options i dest =
     (if i < DHCP_PACKET_OPTIONS_SIZE then
        (case array_get raw_options i of
           Inl e \<Rightarrow> Some (Inl e)
         | Inr t \<Rightarrow>
             if t = DHCP_OPTION_PAD then parse_loop raw_options i dest
             else if t = DHCP_OPTION_END then Some (Inr (0, dest))
             else (case parse_one raw_options i of
                     Inl e \<Rightarrow> Some (Inl e)
                   | Inr (rv, option) \<Rightarrow>
                       if rv \<noteq> 0 then Some (Inr (-1, dest))
                       else (case dhcp_option_add dest (Some option) of
                               (rv2, dest') \<Rightarrow>
                                 if rv2 \<noteq> 0 then Some (Inr (-1, dest'))
                                 else parse_loop raw_options (i + 2 + len option) dest')))
      else Some (Inr (0, dest)))"

declare parse_loop.simps [code]

definition dhcp_option_parse ::
    "dhcp_option list \<Rightarrow> u8 list \<Rightarrow> (int \<times> dhcp_option list) c" where
  "dhcp_option_parse dest raw_options = of_loop (parse_loop raw_options 0 dest)"

fun serialize_loop :: "dhcp_option list \<Rightarrow> nat \<Rightarrow> u8 list \<Rightarrow> (int \<times> u8 list) c" where
  "serialize_loop [] bytes raw = cbind (array_set raw bytes 0xff) (\<lambda>raw. Inr (0, raw))"
| "serialize_loop (o1 # os) bytes raw =
     (if bytes + 2 + len o1 > DHCP_PACKET_OPTIONS_SIZE
      then cbind (array_set raw bytes 0xff) (\<lambda>raw. Inr (-1, raw))
      else cbind (array_set raw bytes (opt_tag o1)) (\<lambda>raw.
           cbind (array_set raw (bytes + 1) (opt_lenght o1)) (\<lambda>raw.
           cbind (serialize_option_value o1 raw (bytes + 2)) (\<lambda>(rv, raw).
             if rv \<noteq> 0 then Inr (-1, raw)
             else serialize_loop os (bytes + 2 + len o1) raw))))"

definition dhcp_options_serialize :: "dhcp_option list \<Rightarrow> u8 list \<Rightarrow> (int \<times> u8 list) c" where
  "dhcp_options_serialize options raw_options = serialize_loop options 0 raw_options"

section \<open>The options of an answer\<close>

text \<open>\<open>blacklist\<close> is the zero-terminated array; \<open>None\<close> is NULL.\<close>

fun blacklist_scan :: "u8 \<Rightarrow> u8 list \<Rightarrow> bool c" where
  "blacklist_scan tag [] = Inl Out_of_bounds"
| "blacklist_scan tag (b # bs) =
     (if b = 0 then Inr False else if b = tag then Inr True else blacklist_scan tag bs)"

definition is_option_blacklisted :: "u8 \<Rightarrow> u8 list option \<Rightarrow> bool c" where
  "is_option_blacklisted tag blacklist =
     (case blacklist of None \<Rightarrow> Inr True | Some bs \<Rightarrow> blacklist_scan tag bs)"

definition lookup_option :: "dhcp_option list \<Rightarrow> dhcp_option list \<Rightarrow> u8 \<Rightarrow> dhcp_option option" where
  "lookup_option pool_options global_options tag =
     (case dhcp_option_retrieve pool_options tag of
        Some o1 \<Rightarrow> Some o1
      | None \<Rightarrow> dhcp_option_retrieve global_options tag)"

fun add_required_loop ::
    "u8 list \<Rightarrow> u8 list \<Rightarrow> dhcp_option list \<Rightarrow> dhcp_option list \<Rightarrow> dhcp_option list \<Rightarrow>
     (int \<times> dhcp_option list) c" where
  "add_required_loop [] black glob pool dest = Inl Out_of_bounds"
| "add_required_loop (tag # required) black glob pool dest =
     (if tag = 0 then Inr (0, dest)
      else cbind (is_option_blacklisted tag (Some black)) (\<lambda>listed.
        if listed then add_required_loop required black glob pool dest
        else (case lookup_option pool glob tag of
                None \<Rightarrow> Inr (-1, dest)
              | Some o1 \<Rightarrow>
                  cbind (dhcp_option_copy (Some o1)) (\<lambda>o2.
                    case dhcp_option_add dest o2 of
                      (rv, dest') \<Rightarrow> if rv \<noteq> 0 then Inr (-1, dest')
                                    else add_required_loop required black glob pool dest'))))"

fun add_requested_loop ::
    "u8 list \<Rightarrow> u8 list \<Rightarrow> dhcp_option list \<Rightarrow> dhcp_option list \<Rightarrow> dhcp_option list \<Rightarrow>
     dhcp_option list c" where
  "add_requested_loop [] black glob pool dest = Inl Out_of_bounds"
| "add_requested_loop (tag # requested) black glob pool dest =
     (if tag = 0 then Inr dest
      else cbind (is_option_blacklisted tag (Some black)) (\<lambda>listed.
        if listed then add_requested_loop requested black glob pool dest
        else cbind (dhcp_option_copy (lookup_option pool glob tag)) (\<lambda>o2.
               add_requested_loop requested black glob pool (snd (dhcp_option_add dest o2)))))"

definition dhcp_option_build_required_options ::
    "dhcp_option list \<Rightarrow> u8 list \<Rightarrow> u8 list \<Rightarrow> u8 list \<Rightarrow> dhcp_option list \<Rightarrow> dhcp_option list \<Rightarrow> u32 \<Rightarrow>
     (int \<times> dhcp_option list) c" where
  "dhcp_option_build_required_options dest requested required black glob pool type =
     cbind (dhcp_option_new_values (uint DHCP_OPTION_DHCP_MESSAGE_TYPE) 1 [ucast type]) (\<lambda>o53.
     case dhcp_option_add dest (Some o53) of (rv, dest) \<Rightarrow>
       if rv \<noteq> 0 then Inr (-1, dest)
       else cbind (add_required_loop required black glob pool dest) (\<lambda>(rv, dest).
              if rv \<noteq> 0 then Inr (-1, dest)
              else cbind (add_requested_loop requested black glob pool dest) (\<lambda>dest.
                     Inr (0, dest))))"

section \<open>The wire format, as a specification\<close>

definition be_bytes :: "nat \<Rightarrow> u32 \<Rightarrow> u8 list" where
  "be_bytes n w = map (\<lambda>j. ucast (drop_bit (8 * j) w)) (rev [0..<n])"

definition is_number_type :: "dhcp_option_type \<Rightarrow> bool" where
  "is_number_type t \<longleftrightarrow> t = DHCP_OPTION_NUMERIC \<or> t = DHCP_OPTION_IP"

definition payload :: "dhcp_option \<Rightarrow> u8 list" where
  "payload o1 = (if is_number_type (opt_type o1) then be_bytes (len o1) (number o1)
                 else take (len o1) (opt_value o1))"

definition encode_option :: "dhcp_option \<Rightarrow> u8 list" where
  "encode_option o1 = opt_tag o1 # opt_lenght o1 # payload o1"

definition encode :: "dhcp_option list \<Rightarrow> u8 list" where
  "encode os = concat (map encode_option os)"

text \<open>Options the serialiser handles: full storage, and numbers of at most four bytes.\<close>

definition opt_ser :: "dhcp_option \<Rightarrow> bool" where
  "opt_ser o1 \<longleftrightarrow> length (opt_value o1) = union_size \<and> (is_number_type (opt_type o1) \<longrightarrow> len o1 \<le> 4)"

text \<open>
  Options in the form the parser produces: the type of the tag, and no more in the
  storage than the length covers.
\<close>

definition value_canon :: "dhcp_option \<Rightarrow> bool" where
  "value_canon o1 =
     (case opt_type o1 of
        DHCP_OPTION_BOOL \<Rightarrow> \<exists>b. opt_value o1 = b # zeros 255 \<and> (b = 0 \<or> b = 1 \<and> 0 < len o1)
      | DHCP_OPTION_STRING \<Rightarrow> drop (len o1) (opt_value o1) = zeros (256 - len o1)
      | DHCP_OPTION_BIN \<Rightarrow> drop (len o1) (opt_value o1) = zeros (256 - len o1)
      | _ \<Rightarrow> \<exists>w. opt_value o1 = le_bytes w @ zeros 252 \<and> take_bit (8 * len o1) w = w)"

definition opt_canon :: "dhcp_option \<Rightarrow> bool" where
  "opt_canon o1 \<longleftrightarrow> opt_ser o1 \<and> len o1 \<le> DHCP_OPTION_MAX_LENGHT \<and>
     opt_tag o1 \<noteq> DHCP_OPTION_PAD \<and> opt_tag o1 \<noteq> DHCP_OPTION_END \<and>
     opt_type o1 = dhcp_option_tag_to_type (uint (opt_tag o1)) \<and> value_canon o1"

section \<open>Lemmas: numbers in network order\<close>

lemma length_zeros [simp]: "length (zeros n) = n"
  by (simp add: zeros_def)

lemma drop_zeros [simp]: "drop k (zeros n) = zeros (n - k)"
  by (simp add: zeros_def)

lemma length_be_bytes [simp]: "length (be_bytes n w) = n"
  by (simp add: be_bytes_def)

lemma be_bytes_nth: "k < n \<Longrightarrow> be_bytes n w ! k = ucast (drop_bit (8 * (n - 1 - k)) w)"
  by (simp add: be_bytes_def rev_nth)

lemma be_bytes_snoc: "be_bytes (Suc n) w = be_bytes n (drop_bit 8 w) @ [ucast w]"
proof (rule nth_equalityI)
  fix i assume "i < length (be_bytes (Suc n) w)"
  then have i: "i < Suc n" by simp
  show "be_bytes (Suc n) w ! i = (be_bytes n (drop_bit 8 w) @ [ucast w]) ! i"
  proof (cases "i < n")
    case True
    then have "8 * (n - i) = 8 * (n - Suc i) + 8" by simp
    with True show ?thesis by (simp add: be_bytes_nth nth_append drop_bit_drop_bit)
  next
    case False
    with i have "i = n" by simp
    then show ?thesis by (simp add: be_bytes_nth nth_append)
  qed
qed simp

lemma be_word_snoc: "be_word (bs @ [b]) = push_bit 8 (be_word bs) OR ucast b"
  by (simp add: be_word_def)

lemma be_word_be_bytes: "be_word (be_bytes n w) = take_bit (8 * n) w"
proof (induction n arbitrary: w)
  case 0
  show ?case by (simp add: be_word_def be_bytes_def)
next
  case (Suc n)
  show ?case unfolding be_bytes_snoc be_word_snoc Suc
  proof (rule bit_word_eqI)
    fix k assume "k < LENGTH(32)"
    then show "bit (push_bit 8 (take_bit (8 * n) (drop_bit 8 w)) OR ucast (ucast w :: u8)) k =
        bit (take_bit (8 * Suc n) w) k"
      by (cases "k < 8") (auto simp: bit_simps)
  qed
qed

lemma ucast_and_ff: "(ucast (w AND 0xff) :: u8) = ucast w" for w :: u32
proof -
  have "(0xff :: u32) = mask 8" by (simp add: mask_eq_exp_minus_1)
  then show ?thesis by (simp only: flip: take_bit_eq_mask) (rule bit_word_eqI, simp add: bit_simps)
qed

lemma serialize_number_loop_eq:
  assumes "n \<le> 4" and "off + n \<le> length raw" and "i \<le> n"
  shows "serialize_number_loop w n off i raw =
     Inr (take off raw @ take (n - i) (be_bytes n w) @ drop (off + (n - i)) raw)"
  using assms
proof (induction w n off i raw rule: serialize_number_loop.induct)
  case (1 w n off i raw)
  show ?case
  proof (cases "i < n")
    case False
    with 1(4) have "i = n" by simp
    then show ?thesis by (subst serialize_number_loop.simps) simp
  next
    case True
    let ?p = "off + (n - i - 1)" and ?b = "ucast (drop_bit (8 * i) w AND 0xff) :: u8"
    let ?raw = "raw[?p := ?b]"
    from True 1(2,3) have p: "?p < length raw" and lt: "\<not> 32 \<le> 8 * i" by simp_all
    from 1(1)[OF True lt, of ?raw] 1(2,3) True p have
      IH: "serialize_number_loop w n off (Suc i) ?raw =
        Inr (take off ?raw @ take (n - Suc i) (be_bytes n w) @ drop (off + (n - Suc i)) ?raw)"
      by simp
    have "take (n - i) (be_bytes n w) = take (n - Suc i) (be_bytes n w) @ [?b]"
    proof -
      have "n - i = Suc (n - Suc i)" using True by simp
      then have "take (n - i) (be_bytes n w) =
          take (n - Suc i) (be_bytes n w) @ [be_bytes n w ! (n - Suc i)]"
        using True by (simp add: take_Suc_conv_app_nth)
      moreover have "be_bytes n w ! (n - Suc i) = ?b"
        using True by (simp add: be_bytes_nth ucast_and_ff)
      ultimately show ?thesis by simp
    qed
    moreover have "drop (off + (n - Suc i)) ?raw = ?b # drop (off + (n - i)) raw"
      using drop_update[OF p, of ?b] True by (simp add: Suc_diff_Suc)
    moreover have "take off ?raw = take off raw" by simp
    ultimately show ?thesis using True lt p IH
      by (simp add: serialize_number_loop.simps[of w n off i raw])
  qed
qed

section \<open>Lemmas: serialising\<close>

lemma len_lt: "len o1 < 256"
  by (rule unat_u8)

lemma length_payload: "opt_ser o1 \<Longrightarrow> length (payload o1) = len o1"
  using len_lt[of o1] by (simp add: payload_def opt_ser_def union_size_def)

lemma length_encode_option: "opt_ser o1 \<Longrightarrow> length (encode_option o1) = 2 + len o1"
  by (simp add: encode_option_def length_payload)

lemma encode_simps [simp]:
  "encode [] = []"
  "encode (o1 # os) = encode_option o1 @ encode os"
  by (simp_all add: encode_def)

lemma serialize_option_value_eq:
  assumes "opt_ser o1" and "off + len o1 \<le> length raw"
  shows "serialize_option_value o1 raw off =
     Inr (0, take off raw @ payload o1 @ drop (off + len o1) raw)"
proof (cases "is_number_type (opt_type o1)")
  case True
  with assms have "serialize_number_loop (number o1) (len o1) off 0 raw =
      Inr (take off raw @ be_bytes (len o1) (number o1) @ drop (off + len o1) raw)"
    by (subst serialize_number_loop_eq) (auto simp: opt_ser_def)
  with True show ?thesis
    by (auto simp: is_number_type_def serialize_option_value_def serialize_option_numeric_def
        serialize_option_ip_def payload_def)
next
  case False
  have "len o1 \<le> length (opt_value o1)"
    using assms(1) len_lt[of o1] by (simp add: opt_ser_def union_size_def)
  with False assms(2) show ?thesis
    by (cases "opt_type o1")
      (auto simp: is_number_type_def serialize_option_value_def payload_def memcpy_def)
qed

text \<open>The two header bytes and the value of one option, written in place.\<close>

lemma write_option_eq:
  assumes ser: "opt_ser o1" and fits: "bytes + 2 + len o1 < length raw"
  shows "cbind (array_set raw bytes (opt_tag o1)) (\<lambda>raw.
           cbind (array_set raw (bytes + 1) (opt_lenght o1)) (\<lambda>raw.
           serialize_option_value o1 raw (bytes + 2))) =
     Inr (0, take bytes raw @ encode_option o1 @ drop (bytes + 2 + len o1) raw)"
proof -
  let ?raw = "raw[bytes := opt_tag o1, Suc bytes := opt_lenght o1]"
  have "take (bytes + 2) ?raw = take bytes raw @ [opt_tag o1, opt_lenght o1]"
    using fits by (intro nth_equalityI) (auto simp: nth_append nth_list_update less_Suc_eq)
  moreover have "drop (bytes + 2 + len o1) ?raw = drop (bytes + 2 + len o1) raw"
    by simp
  ultimately show ?thesis
    using fits by (simp add: serialize_option_value_eq[OF ser] encode_option_def)
qed

lemma serialize_loop_step:
  assumes ser: "opt_ser o1" and fits: "bytes + 2 + len o1 \<le> DHCP_PACKET_OPTIONS_SIZE"
    and raw: "DHCP_PACKET_OPTIONS_SIZE < length raw"
  shows "serialize_loop (o1 # os) bytes raw =
     serialize_loop os (bytes + 2 + len o1) (take bytes raw @ encode_option o1 @ drop (bytes + 2 + len o1) raw)"
proof -
  have lt: "bytes + 2 + len o1 < length raw" using fits raw by simp
  have "serialize_loop (o1 # os) bytes raw =
      cbind (cbind (array_set raw bytes (opt_tag o1)) (\<lambda>raw.
         cbind (array_set raw (bytes + 1) (opt_lenght o1)) (\<lambda>raw.
         serialize_option_value o1 raw (bytes + 2))))
        (\<lambda>(rv, raw). if rv \<noteq> 0 then Inr (-1, raw) else serialize_loop os (bytes + 2 + len o1) raw)"
    using fits lt by simp
  then show ?thesis unfolding write_option_eq[OF ser lt] by simp
qed

text \<open>
  The serialiser writes the longest prefix of the list that fits, and the end marker; it
  reports failure when options are left over.
\<close>

lemma serialize_loop_prefix:
  assumes "\<forall>o1 \<in> set os. opt_ser o1" and "bytes \<le> DHCP_PACKET_OPTIONS_SIZE"
    and "DHCP_PACKET_OPTIONS_SIZE < length raw"
  shows "\<exists>k \<le> length os. serialize_loop os bytes raw =
       Inr (if k = length os then 0 else -1, take bytes raw @ encode (take k os) @ 0xff #
              drop (Suc (bytes + length (encode (take k os)))) raw) \<and>
     bytes + length (encode (take k os)) \<le> DHCP_PACKET_OPTIONS_SIZE \<and>
     (k < length os \<longrightarrow> DHCP_PACKET_OPTIONS_SIZE < bytes + length (encode (take (Suc k) os)))"
  using assms
proof (induction os arbitrary: bytes raw)
  case Nil
  then show ?case by (simp add: upd_conv_take_nth_drop)
next
  case (Cons o1 os)
  then have ser: "opt_ser o1" by simp
  note le = length_encode_option[OF ser]
  let ?b = "bytes + 2 + len o1"
  show ?case
  proof (cases "DHCP_PACKET_OPTIONS_SIZE < ?b")
    case True
    with Cons.prems show ?thesis
      by (intro exI[of _ 0]) (simp add: le upd_conv_take_nth_drop)
  next
    case False
    let ?raw = "take bytes raw @ encode_option o1 @ drop ?b raw"
    have step: "serialize_loop (o1 # os) bytes raw = serialize_loop os ?b ?raw"
      using False Cons.prems by (intro serialize_loop_step[OF ser]) simp_all
    have hyps: "\<forall>o1 \<in> set os. opt_ser o1" "?b \<le> DHCP_PACKET_OPTIONS_SIZE" "DHCP_PACKET_OPTIONS_SIZE < length ?raw"
      using Cons.prems False le by simp_all
    obtain k where k: "k \<le> length os" "serialize_loop os ?b ?raw =
         Inr (if k = length os then 0 else -1, take ?b ?raw @ encode (take k os) @ 0xff #
                drop (Suc (?b + length (encode (take k os)))) ?raw)"
       "?b + length (encode (take k os)) \<le> DHCP_PACKET_OPTIONS_SIZE"
       "k < length os \<longrightarrow> DHCP_PACKET_OPTIONS_SIZE < ?b + length (encode (take (Suc k) os))"
      using Cons.IH[OF hyps] by blast
    have t: "take ?b ?raw = take bytes raw @ encode_option o1"
      and d: "\<And>n. drop (Suc (?b + n)) ?raw = drop (Suc (?b + n)) raw"
      using False Cons.prems le by (simp_all add: ac_simps)
    have "serialize_loop (o1 # os) bytes raw = Inr (if Suc k = length (o1 # os) then 0 else -1,
        take bytes raw @ encode (take (Suc k) (o1 # os)) @ 0xff #
          drop (Suc (bytes + length (encode (take (Suc k) (o1 # os))))) raw)"
      unfolding step k(2) t d by (simp add: le ac_simps)
    with k(1,3,4) le show ?thesis
      by (intro exI[of _ "Suc k"]) (simp del: serialize_loop.simps add: algebra_simps)
  qed
qed

lemma encode_take_Suc: "k < length os \<Longrightarrow> length (encode (take (Suc k) os)) \<le> length (encode os)"
  by (subst (2) append_take_drop_id[of "Suc k", symmetric]) (simp only: encode_def map_append concat_append, simp)

lemma serialize_loop_eq:
  assumes "\<forall>o1 \<in> set os. opt_ser o1" and "bytes + length (encode os) \<le> DHCP_PACKET_OPTIONS_SIZE"
    and "DHCP_PACKET_OPTIONS_SIZE < length raw"
  shows "serialize_loop os bytes raw =
     Inr (0, take bytes raw @ encode os @ 0xff # drop (Suc (bytes + length (encode os))) raw)"
proof -
  have "bytes \<le> DHCP_PACKET_OPTIONS_SIZE" using assms(2) by simp
  then obtain k where k: "k \<le> length os" "serialize_loop os bytes raw =
         Inr (if k = length os then 0 else -1, take bytes raw @ encode (take k os) @ 0xff #
                drop (Suc (bytes + length (encode (take k os)))) raw)"
       "k < length os \<longrightarrow> DHCP_PACKET_OPTIONS_SIZE < bytes + length (encode (take (Suc k) os))"
    using serialize_loop_prefix[OF assms(1) _ assms(3)] by blast
  have "k = length os"
  proof (rule ccontr)
    assume "k \<noteq> length os"
    with k(1,3) encode_take_Suc[of k os] assms(2) show False by simp
  qed
  with k(2) show ?thesis by simp
qed

section \<open>Lemmas: parsing\<close>

lemma parse_number_value:
  assumes "opt_ser o1" "is_number_type (opt_type o1)" "opt_value o1 = le_bytes w @ zeros 252"
    "take_bit (8 * len o1) w = w" "opt_type o2 = opt_type o1" "opt_lenght o2 = opt_lenght o1"
    "opt_tag o2 = opt_tag o1" "opt_value o2 = zeros 256"
  shows "parse_option_value o2 (payload o1 @ zs) = Inr (0, o1)"
proof -
  have "number o1 = w" using assms(3) by (simp add: number_def)
  then have pl: "payload o1 = be_bytes (len o1) w" using assms(2) by (simp add: payload_def)
  have "set_number (be_word (take (len o2) (payload o1 @ zs))) o2 = o1"
    using assms by (simp add: pl be_word_be_bytes set_number_def)
  with assms(2,5,6) pl show ?thesis
    by (auto simp: is_number_type_def parse_option_value_def parse_option_value_numeric_def
        parse_option_value_ip_def)
qed

lemma take_drop_zeros: "take k (zeros n) = zeros (min k n)"
  by (simp add: zeros_def)

lemma zeros_append: "zeros m @ zeros n = zeros (m + n)"
  by (simp add: zeros_def replicate_add)

lemma zeros_Cons: "0 # zeros n = zeros (Suc n)"
  by (simp add: zeros_def)

text \<open>Parsing the payload of an option in canonical form gives the option back.\<close>

lemma parse_value_canon:
  assumes canon: "opt_canon o1"
    and o2: "o2 = dhcp_option_new\<lparr>opt_tag := opt_tag o1, opt_type := opt_type o1,
                                  opt_lenght := opt_lenght o1\<rparr>"
  shows "parse_option_value o2 (payload o1 @ zeros (253 - len o1)) = Inr (0, o1)"
proof -
  have ser: "opt_ser o1" and l: "len o1 \<le> 253" and v: "value_canon o1"
    using canon by (simp_all add: opt_canon_def)
  have val: "length (opt_value o1) = 256" using ser by (simp add: opt_ser_def union_size_def)
  have new: "opt_value o2 = zeros 256" by (simp add: o2 dhcp_option_new_def union_size_def)
  have same: "o2\<lparr>opt_value := opt_value o1\<rparr> = o1" by (simp add: o2 dhcp_option_new_def)
  show ?thesis
  proof (cases "is_number_type (opt_type o1)")
    case True
    then obtain w where "opt_value o1 = le_bytes w @ zeros 252" "take_bit (8 * len o1) w = w"
      using v by (auto simp: value_canon_def is_number_type_def)
    then show ?thesis
      by (intro parse_number_value[OF ser True]) (simp_all add: o2 dhcp_option_new_def union_size_def)
  next
    case False
    then have pl: "payload o1 = take (len o1) (opt_value o1)" by (simp add: payload_def)
    show ?thesis
    proof (cases "opt_type o1 = DHCP_OPTION_BOOL")
      case True
      then obtain b where b: "opt_value o1 = b # zeros 255" "b = 0 \<or> b = 1 \<and> 0 < len o1"
        using v by (auto simp: value_canon_def)
      have "array_get (payload o1 @ zeros (253 - len o1)) 0 = Inr b"
        using b by (cases "len o1") (auto simp: pl array_get_def zeros_def)
      moreover have "(if b \<noteq> 0 then 1 else 0) # drop 1 (opt_value o2) = opt_value o1"
        using b by (auto simp: new)
      ultimately show ?thesis using True same
        by (simp add: parse_option_value_def parse_option_value_bool_def o2)
    next
      case nb: False
      have "drop (len o1) (opt_value o1) = zeros (256 - len o1)"
        using v False nb by (cases "opt_type o1") (auto simp: value_canon_def is_number_type_def)
      then have full: "payload o1 @ zeros (256 - len o1) = opt_value o1"
        by (metis pl append_take_drop_id)
      have "memcpy (zeros 253 @ drop 253 (opt_value o2)) 0 (payload o1 @ zeros (253 - len o1)) (len o1) =
          Inr (opt_value o1)"
        using l full length_payload[OF ser] by (simp add: memcpy_def new zeros_append)
      with False nb same show ?thesis
        by (cases "opt_type o1") (auto simp: parse_option_value_def is_number_type_def o2)
    qed
  qed
qed

lemma parse_one_canon:
  assumes "opt_canon o1" and "drop i raw = encode_option o1 @ post"
  shows "parse_one raw i = Inr (0, o1)"
proof -
  have ser: "opt_ser o1" and l: "len o1 \<le> 253"
    and ty: "opt_type o1 = dhcp_option_tag_to_type (uint (opt_tag o1))"
    using assms(1) by (simp_all add: opt_canon_def)
  note lp = length_payload[OF ser]
  have i: "i + 1 < length raw"
    using arg_cong[OF assms(2), of length] by (simp add: encode_option_def)
  have "raw ! i = opt_tag o1" "raw ! (i + 1) = opt_lenght o1"
    using assms(2) i nth_drop[of i raw 0] nth_drop[of i raw 1] by (simp_all add: encode_option_def)
  moreover have rest: "drop (i + 2) raw = payload o1 @ post"
    using assms(2) drop_drop[of 2 i raw] by (simp add: encode_option_def add.commute)
  moreover have "memcpy (zeros 253) 0 (drop (i + 2) raw) (len o1) =
      Inr (payload o1 @ zeros (253 - len o1))"
    unfolding rest using l lp by (simp add: memcpy_def)
  ultimately show ?thesis
    using i parse_value_canon[OF assms(1) refl] ty by (simp add: parse_one_def Let_def)
qed

lemma dhcp_option_retrieve_None:
  "dhcp_option_retrieve os t = None \<longleftrightarrow> t \<notin> opt_tag ` set os"
  by (auto simp: dhcp_option_retrieve_def find_None_iff)

lemma dhcp_option_retrieve_Some:
  "dhcp_option_retrieve os t = Some o1 \<Longrightarrow> o1 \<in> set os \<and> opt_tag o1 = t"
  by (auto simp: dhcp_option_retrieve_def find_Some_iff)

lemma dhcp_option_add_new:
  "opt_tag o1 \<notin> opt_tag ` set dest \<Longrightarrow> dhcp_option_add dest (Some o1) = (0, dest @ [o1])"
  by (simp add: dhcp_option_add_def dhcp_option_retrieve_None)

lemma parse_loop_encode:
  assumes "drop i raw = encode os @ 0xff # rest" and "\<forall>o1 \<in> set os. opt_canon o1"
    and "distinct (map opt_tag (dest @ os))"
    and "i + length (encode os) \<le> DHCP_PACKET_OPTIONS_SIZE"
  shows "parse_loop raw i dest = Some (Inr (0, dest @ os))"
  using assms
proof (induction os arbitrary: i dest)
  case Nil
  then have "i < length raw" "raw ! i = 0xff" by (auto dest: drop_eq_Cons)
  then show ?case by (subst parse_loop.simps) simp
next
  case (Cons o1 os)
  then have canon: "opt_canon o1" and ser: "opt_ser o1" and ne: "opt_tag o1 \<noteq> 0" "opt_tag o1 \<noteq> 255"
    by (simp_all add: opt_canon_def)
  have d: "drop i raw = encode_option o1 @ (encode os @ 0xff # rest)" using Cons.prems(1) by simp
  have i: "i < length raw" "raw ! i = opt_tag o1" "i < 312"
    using d Cons.prems(4) length_encode_option[OF ser]
    by (auto simp: encode_option_def dest: drop_eq_Cons)
  have "drop (i + 2 + len o1) raw = encode os @ 0xff # rest"
    using arg_cong[OF d, of "drop (2 + len o1)"] length_encode_option[OF ser]
    by (simp add: add.assoc add.commute[of i])
  then have "parse_loop raw (i + 2 + len o1) (dest @ [o1]) = Some (Inr (0, (dest @ [o1]) @ os))"
    using Cons.prems length_encode_option[OF ser] by (intro Cons.IH) auto
  moreover have "dhcp_option_add dest (Some o1) = (0, dest @ [o1])"
    using Cons.prems(3) by (intro dhcp_option_add_new) auto
  ultimately show ?case
    using i ne parse_one_canon[OF canon d] by (subst parse_loop.simps) simp
qed

text \<open>A pad byte in front of an option: the loop never returns.\<close>

lemma parse_loop_returns_no_pad:
  assumes ret: "parse_loop raw i dest = Some r"
  shows "\<not> (i < DHCP_PACKET_OPTIONS_SIZE \<and> i < length raw \<and> raw ! i = DHCP_OPTION_PAD)"
proof (rule parse_loop.raw_induct[where P = "\<lambda>raw i dest r.
    \<not> (i < DHCP_PACKET_OPTIONS_SIZE \<and> i < length raw \<and> raw ! i = DHCP_OPTION_PAD)", OF _ ret])
  fix f raw i dest r
  assume IH: "\<And>raw i dest r. f raw i dest = Some r \<Longrightarrow>
      \<not> (i < DHCP_PACKET_OPTIONS_SIZE \<and> i < length raw \<and> raw ! i = DHCP_OPTION_PAD)"
    and eq: "(if i < DHCP_PACKET_OPTIONS_SIZE then
        (case array_get raw i of
           Inl e \<Rightarrow> Some (Inl e)
         | Inr t \<Rightarrow>
             if t = DHCP_OPTION_PAD then f raw i dest
             else if t = DHCP_OPTION_END then Some (Inr (0, dest))
             else (case parse_one raw i of
                     Inl e \<Rightarrow> Some (Inl e)
                   | Inr (rv, option) \<Rightarrow>
                       if rv \<noteq> 0 then Some (Inr (-1, dest))
                       else (case dhcp_option_add dest (Some option) of
                               (rv2, dest') \<Rightarrow>
                                 if rv2 \<noteq> 0 then Some (Inr (-1, dest'))
                                 else f raw (i + 2 + len option) dest')))
      else Some (Inr (0, dest))) = Some r"
  show "\<not> (i < DHCP_PACKET_OPTIONS_SIZE \<and> i < length raw \<and> raw ! i = DHCP_OPTION_PAD)"
  proof
    assume pad: "i < DHCP_PACKET_OPTIONS_SIZE \<and> i < length raw \<and> raw ! i = DHCP_OPTION_PAD"
    with eq have "f raw i dest = Some r" by simp
    from IH[OF this] pad show False by simp
  qed
qed

section \<open>The interface of a store of tagged options\<close>

text \<open>
  What the users of an option list rely on: at most one option per tag, the first one
  added stays, and adding another one under the same tag is answered by \<open>dup\<close>.
\<close>

locale tagged_store =
  fixes add :: "'s \<Rightarrow> 'o \<Rightarrow> int \<times> 's"
    and find :: "'s \<Rightarrow> u8 \<Rightarrow> 'o option"
    and tag :: "'o \<Rightarrow> u8"
    and dup :: int
  assumes add_new: "find s (tag x) = None \<Longrightarrow> \<exists>s'. add s x = (0, s') \<and>
      (\<forall>t. find s' t = (if t = tag x then Some x else find s t))"
    and add_dup: "find s (tag x) = Some y \<Longrightarrow> add s x = (dup, s)"
begin

lemma find_add:
  "find (snd (add s x)) t =
     (case find s t of Some y \<Rightarrow> Some y | None \<Rightarrow> if t = tag x then Some x else None)"
proof (cases "find s (tag x)")
  case None
  with add_new[OF this] show ?thesis by (auto split: option.splits)
next
  case (Some y)
  with add_dup[OF this] show ?thesis by (auto split: option.splits)
qed

lemma find_add_all:
  "find (foldl (\<lambda>s x. snd (add s x)) s xs) t =
     (case find s t of Some y \<Rightarrow> Some y | None \<Rightarrow> List.find (\<lambda>x. tag x = t) xs)"
  by (induction xs arbitrary: s) (auto simp: find_add split: option.splits)

lemma find_add_stays: "find s t = Some y \<Longrightarrow> find (snd (add s x)) t = Some y"
  by (simp add: find_add)

end

lemma find_append: "List.find P (xs @ ys) = (case List.find P xs of Some x \<Rightarrow> Some x | None \<Rightarrow> List.find P ys)"
  by (induction xs) auto

interpretation opts: tagged_store "\<lambda>os o1. dhcp_option_add os (Some o1)" dhcp_option_retrieve opt_tag 0
proof unfold_locales
  fix s and x :: dhcp_option
  assume "dhcp_option_retrieve s (opt_tag x) = None"
  then show "\<exists>s'. dhcp_option_add s (Some x) = (0, s') \<and>
      (\<forall>t. dhcp_option_retrieve s' t = (if t = opt_tag x then Some x else dhcp_option_retrieve s t))"
    by (auto simp: dhcp_option_add_def dhcp_option_retrieve_def find_append split: option.splits)
next
  fix s and x y :: dhcp_option
  assume "dhcp_option_retrieve s (opt_tag x) = Some y"
  then show "dhcp_option_add s (Some x) = (0, s)" by (simp add: dhcp_option_add_def)
qed

lemma dhcp_option_add_distinct:
  "distinct (map opt_tag os) \<Longrightarrow> distinct (map opt_tag (snd (dhcp_option_add os x)))"
  by (auto simp: dhcp_option_add_def dhcp_option_retrieve_None split: option.splits)

section \<open>Lemmas: the options of an answer\<close>

text \<open>The tags of a zero-terminated array, and those of them not on the blacklist.\<close>

definition tags :: "u8 list \<Rightarrow> u8 list" where
  "tags ts = takeWhile (\<lambda>t. t \<noteq> 0) ts"

definition active :: "u8 list \<Rightarrow> u8 list \<Rightarrow> u8 list" where
  "active black ts = filter (\<lambda>t. t \<notin> set (tags black)) (tags ts)"

definition recopy :: "dhcp_option \<Rightarrow> dhcp_option" where
  "recopy o1 = o1\<lparr>opt_type := dhcp_option_tag_to_type (uint (opt_tag o1)),
     opt_value := take (len o1) (opt_value o1) @ zeros (256 - len o1)\<rparr>"

definition stored :: "dhcp_option list \<Rightarrow> bool" where
  "stored os \<longleftrightarrow> (\<forall>o1 \<in> set os. length (opt_value o1) = union_size)"

definition answer_option :: "dhcp_option list \<Rightarrow> dhcp_option list \<Rightarrow> u8 \<Rightarrow> dhcp_option option" where
  "answer_option pool glob t = map_option recopy (lookup_option pool glob t)"

lemma blacklist_scan_eq: "0 \<in> set bs \<Longrightarrow> blacklist_scan t bs = Inr (t \<in> set (tags bs))"
  by (induction bs) (auto simp: tags_def)

lemma recopy_tag [simp]: "opt_tag (recopy o1) = opt_tag o1"
  by (simp add: recopy_def)

lemma dhcp_option_copy_eq:
  assumes "length (opt_value o1) = union_size"
  shows "dhcp_option_copy (Some o1) = Inr (Some (recopy o1))"
proof -
  have "nat (uint (opt_lenght o1)) = len o1" by (simp only: unat_eq_nat_uint)
  moreover have "len o1 \<le> 256" using len_lt[of o1] by simp
  ultimately show ?thesis
    using assms
    by (simp add: dhcp_option_copy_def dhcp_option_new_values_def dhcp_option_new_def memcpy_def
        recopy_def union_size_def)
qed

lemma lookup_option_stored:
  "stored pool \<Longrightarrow> stored glob \<Longrightarrow> lookup_option pool glob t = Some o1 \<Longrightarrow>
   length (opt_value o1) = union_size \<and> opt_tag o1 = t"
  by (auto simp: lookup_option_def stored_def dest: dhcp_option_retrieve_Some split: option.splits)

definition add_answers ::
    "dhcp_option list \<Rightarrow> dhcp_option list \<Rightarrow> u8 list \<Rightarrow> dhcp_option list \<Rightarrow> dhcp_option list" where
  "add_answers pool glob ts dest =
     foldl (\<lambda>d o1. snd (dhcp_option_add d (Some o1))) dest (List.map_filter (answer_option pool glob) ts)"

lemma add_answers_simps [simp]:
  "add_answers pool glob [] dest = dest"
  "add_answers pool glob (t # ts) dest = add_answers pool glob ts
     (case answer_option pool glob t of None \<Rightarrow> dest | Some o1 \<Rightarrow> snd (dhcp_option_add dest (Some o1)))"
  by (auto simp: add_answers_def List.map_filter_simps split: option.splits)

lemma find_map_filter_answer:
  assumes "stored pool" "stored glob"
  shows "List.find (\<lambda>o1. opt_tag o1 = t) (List.map_filter (answer_option pool glob) ts) =
     (if t \<in> set ts then answer_option pool glob t else None)"
proof (induction ts)
  case Nil
  show ?case by (simp add: List.map_filter_simps)
next
  case (Cons u ts)
  have "opt_tag o1 = u" if "answer_option pool glob u = Some o1" for o1
    using that lookup_option_stored[OF assms] by (auto simp: answer_option_def)
  with Cons show ?case by (auto simp: List.map_filter_simps split: option.splits)
qed

lemma retrieve_add_answers:
  assumes "stored pool" "stored glob"
  shows "dhcp_option_retrieve (add_answers pool glob ts dest) t =
     (case dhcp_option_retrieve dest t of Some y \<Rightarrow> Some y
      | None \<Rightarrow> if t \<in> set ts then answer_option pool glob t else None)"
  unfolding add_answers_def opts.find_add_all find_map_filter_answer[OF assms] by simp

lemma distinct_add_answers:
  "distinct (map opt_tag dest) \<Longrightarrow> distinct (map opt_tag (add_answers pool glob ts dest))"
  by (induction ts arbitrary: dest) (auto simp: dhcp_option_add_distinct split: option.splits)

lemma active_simps:
  "0 \<in> set black \<Longrightarrow> active black (t # ts) = (if t = 0 then [] else
     if t \<in> set (tags black) then active black ts else t # active black ts)"
  by (auto simp: active_def tags_def)

lemma add_requested_loop_eq:
  assumes "0 \<in> set ts" "0 \<in> set black" "stored pool" "stored glob"
  shows "add_requested_loop ts black glob pool dest = Inr (add_answers pool glob (active black ts) dest)"
  using assms(1)
proof (induction ts arbitrary: dest)
  case (Cons t ts)
  show ?case
  proof (cases "t = 0 \<or> t \<in> set (tags black)")
    case True
    with Cons assms(2) show ?thesis
      by (auto simp: active_simps is_option_blacklisted_def blacklist_scan_eq)
  next
    case False
    have "dhcp_option_copy (lookup_option pool glob t) = Inr (answer_option pool glob t)"
    proof (cases "lookup_option pool glob t")
      case None
      then show ?thesis by (simp add: dhcp_option_copy_def answer_option_def)
    next
      case (Some o1)
      then show ?thesis
        using dhcp_option_copy_eq lookup_option_stored[OF assms(3,4) Some]
        by (simp add: answer_option_def)
    qed
    moreover have "snd (dhcp_option_add dest None) = dest" by (simp add: dhcp_option_add_def)
    ultimately show ?thesis using False Cons assms(2)
      by (auto simp: active_simps is_option_blacklisted_def blacklist_scan_eq split: option.splits)
  qed
qed simp

lemma dhcp_option_add_rv: "fst (dhcp_option_add dest (Some o1)) = 0"
  by (simp add: dhcp_option_add_def)

lemma add_required_loop_eq:
  assumes "0 \<in> set ts" "0 \<in> set black" "stored pool" "stored glob"
  shows "\<exists>d. add_required_loop ts black glob pool dest =
     (if \<forall>t \<in> set (active black ts). lookup_option pool glob t \<noteq> None
      then Inr (0, add_answers pool glob (active black ts) dest) else Inr (-1, d))"
  using assms(1)
proof (induction ts arbitrary: dest)
  case (Cons t ts)
  show ?case
  proof (cases "t = 0 \<or> t \<in> set (tags black)")
    case True
    then show ?thesis
    proof (cases "t = 0")
      case False
      with True Cons.prems have "0 \<in> set ts" "t \<in> set (tags black)" by auto
      with False assms(2) Cons.IH[of dest] show ?thesis
        by (simp only: add_required_loop.simps active_simps is_option_blacklisted_def option.case
            blacklist_scan_eq cbind_simps if_True if_False)
    qed (simp add: active_simps assms(2))
  next
    case False
    with assms(2) have nb: "is_option_blacklisted t (Some black) = Inr False"
      by (simp add: is_option_blacklisted_def blacklist_scan_eq)
    show ?thesis
    proof (cases "lookup_option pool glob t")
      case None
      with False nb assms(2) show ?thesis by (simp add: active_simps)
    next
      case (Some o1)
      obtain d where d: "dhcp_option_add dest (Some (recopy o1)) = (0, d)"
        using dhcp_option_add_rv[of dest "recopy o1"] by (cases "dhcp_option_add dest (Some (recopy o1))") simp
      moreover have "dhcp_option_copy (Some o1) = Inr (Some (recopy o1))"
        using lookup_option_stored[OF assms(3,4) Some] by (simp add: dhcp_option_copy_eq)
      ultimately have step:
        "add_required_loop (t # ts) black glob pool dest = add_required_loop ts black glob pool d"
        using False nb Some by simp
      show ?thesis unfolding step
        using Cons.IH[of d] Cons.prems False assms(2) Some d
        by (cases "\<forall>t \<in> set (active black ts). lookup_option pool glob t \<noteq> None")
          (auto simp: active_simps answer_option_def)
    qed
  qed
qed simp

definition message_type_option :: "u32 \<Rightarrow> dhcp_option" where
  "message_type_option type = \<lparr>opt_type = DHCP_OPTION_NUMERIC, opt_tag = DHCP_OPTION_DHCP_MESSAGE_TYPE,
     opt_lenght = 1, opt_value = ucast type # zeros 255\<rparr>"

lemma tag_to_type_53: "dhcp_option_tag_to_type 53 = DHCP_OPTION_NUMERIC"
  by (simp add: dhcp_option_tag_to_type_def tag_in_def)

lemma new_message_type_option:
  "dhcp_option_new_values (uint DHCP_OPTION_DHCP_MESSAGE_TYPE) 1 [ucast type] =
     Inr (message_type_option type)"
  by (simp add: dhcp_option_new_values_def memcpy_def dhcp_option_new_def union_size_def
      message_type_option_def tag_to_type_53)

lemma build_required_options_eq:
  assumes "0 \<in> set required" "0 \<in> set requested" "0 \<in> set black" "stored pool" "stored glob"
  shows "\<exists>d. dhcp_option_build_required_options [] requested required black glob pool type =
     (if \<forall>t \<in> set (active black required). lookup_option pool glob t \<noteq> None
      then Inr (0, add_answers pool glob (active black requested)
             (add_answers pool glob (active black required) [message_type_option type]))
      else Inr (-1, d))"
proof -
  have "dhcp_option_add [] (Some (message_type_option type)) = (0, [message_type_option type])"
    by (simp add: dhcp_option_add_def dhcp_option_retrieve_def)
  moreover obtain d where "add_required_loop required black glob pool [message_type_option type] =
     (if \<forall>t \<in> set (active black required). lookup_option pool glob t \<noteq> None
      then Inr (0, add_answers pool glob (active black required) [message_type_option type])
      else Inr (-1, d))"
    using add_required_loop_eq[OF assms(1,3,4,5)] by blast
  ultimately show ?thesis
    unfolding dhcp_option_build_required_options_def new_message_type_option
    by (auto simp: add_requested_loop_eq[OF assms(2,3,4,5)])
qed

lemma ucast_back [simp]: "ucast (ucast b :: u32) = b" for b :: u8
  by (rule bit_word_eqI) (auto simp: bit_simps)

lemma le_bytes_byte: "le_bytes (ucast b) = [b, 0, 0, 0]" for b :: u8
proof -
  have "drop_bit k (ucast b :: u32) = 0" if "8 \<le> k" for k
    using that by (intro bit_word_eqI) (auto simp: bit_simps u8_high)
  then show ?thesis by (simp add: le_bytes_def)
qed

lemma opt_canon_message_type: "opt_canon (message_type_option type)"
proof -
  let ?b = "ucast type :: u8"
  have v: "opt_value (message_type_option type) = le_bytes (ucast ?b) @ zeros 252"
    by (simp add: message_type_option_def le_bytes_byte zeros_Cons)
  have "take_bit 8 (ucast ?b :: u32) = ucast ?b"
    by (rule bit_word_eqI) (auto simp: bit_simps u8_high)
  then have "value_canon (message_type_option type)"
    using v by (auto simp: value_canon_def message_type_option_def)
  then show ?thesis
    by (simp add: opt_canon_def opt_ser_def message_type_option_def union_size_def tag_to_type_53)
qed

lemma number_message_type: "number (message_type_option type) = ucast (ucast type :: u8)"
  using le_word_bytes[of "ucast (ucast type :: u8)" "zeros 252"]
  by (simp add: number_def message_type_option_def le_bytes_byte zeros_Cons)

lemma encode_message_type:
  "encode [message_type_option type] = [DHCP_OPTION_DHCP_MESSAGE_TYPE, 1, ucast type]"
  using number_message_type[of type]
  by (simp add: encode_option_def payload_def be_bytes_def is_number_type_def)
    (simp add: message_type_option_def)

section \<open>Properties\<close>

text \<open>
  C9. The serialiser never writes outside the options field: whatever the options of an
  answer are (numbers of at most four bytes), it writes the longest prefix of the list that
  fits into 312 bytes in wire format, followed by the end marker, leaves the rest of the
  field alone, and returns 0 exactly when the whole list was written.
\<close>

theorem serialize_writes_fitting_prefix:
  assumes "\<forall>o1 \<in> set os. opt_ser o1" "length raw = 336"
  shows "\<exists>k \<le> length os. dhcp_options_serialize os raw =
       Inr (if k = length os then 0 else -1, encode (take k os) @ 0xff #
              drop (Suc (length (encode (take k os)))) raw) \<and>
     length (encode (take k os)) \<le> DHCP_PACKET_OPTIONS_SIZE \<and>
     (k < length os \<longrightarrow> DHCP_PACKET_OPTIONS_SIZE < length (encode (take (Suc k) os)))"
  using serialize_loop_prefix[OF assms(1), of 0 raw] assms(2)
  by (simp add: dhcp_options_serialize_def)

theorem serialize_writes_fitting_prefix_witness:
  "dhcp_options_serialize [message_type_option 5] (zeros 336) = Inr (0, [53, 1, 5, 0xff] @ zeros 332)"
proof -
  have "\<forall>o1 \<in> set [message_type_option 5]. opt_ser o1"
    using opt_canon_message_type by (simp add: opt_canon_def)
  then obtain k where k: "k \<le> 1" "dhcp_options_serialize [message_type_option 5] (zeros 336) =
       Inr (if k = 1 then 0 else -1, encode (take k [message_type_option 5]) @ 0xff #
              drop (Suc (length (encode (take k [message_type_option 5])))) (zeros 336))"
     "k < 1 \<longrightarrow> DHCP_PACKET_OPTIONS_SIZE < length (encode (take (Suc k) [message_type_option 5]))"
    using serialize_writes_fitting_prefix[of "[message_type_option 5]" "zeros 336"] by auto
  then have "k = 1" using encode_message_type[of 5] by (cases k) auto
  with k(2) show ?thesis using encode_message_type[of 5] by simp
qed

text \<open>
  C7. Options in the form the parser produces survive the wire: serialising a list with
  distinct tags that fits the options field and parsing the field gives the list back.
\<close>

theorem options_roundtrip:
  assumes "\<forall>o1 \<in> set os. opt_canon o1" "distinct (map opt_tag os)"
    "length (encode os) \<le> DHCP_PACKET_OPTIONS_SIZE" "length raw = 336"
  shows "cbind (dhcp_options_serialize os raw) (\<lambda>(rv, raw'). dhcp_option_parse [] raw') = Inr (0, os)"
proof -
  have "\<forall>o1 \<in> set os. opt_ser o1" using assms(1) by (simp add: opt_canon_def)
  then have "dhcp_options_serialize os raw = Inr (0, encode os @ 0xff # drop (Suc (length (encode os))) raw)"
    using serialize_loop_eq[of os 0 raw] assms(3,4) by (simp add: dhcp_options_serialize_def)
  moreover have "parse_loop (encode os @ 0xff # rest) 0 [] = Some (Inr (0, os))" for rest
    using parse_loop_encode[of 0 "encode os @ 0xff # rest" os rest "[]"] assms by simp
  ultimately show ?thesis by (simp add: dhcp_option_parse_def)
qed

theorem options_roundtrip_witness:
  "cbind (dhcp_options_serialize [message_type_option 5] (zeros 336)) (\<lambda>(rv, raw'). dhcp_option_parse [] raw') =
     Inr (0, [message_type_option 5])"
  using options_roundtrip[of "[message_type_option 5]" "zeros 336"] opt_canon_message_type[of 5]
    encode_message_type[of 5] by simp

text \<open>
  C40. The parser never returns on an options field that begins with a pad byte, which RFC
  2132 allows: the loop goes on without advancing.
\<close>

theorem parse_hangs_on_pad:
  assumes "0 < length raw" "raw ! 0 = DHCP_OPTION_PAD"
  shows "dhcp_option_parse dest raw = Inl Diverges"
  using parse_loop_returns_no_pad[of raw 0 dest] assms
  by (cases "parse_loop raw 0 dest") (auto simp: dhcp_option_parse_def)

theorem parse_hangs_on_pad_witness: "dhcp_option_parse [] (zeros 336) = Inl Diverges"
  using parse_hangs_on_pad[of "zeros 336" "[]"] by (simp add: zeros_def)

text \<open>
  A numeric or address option of more than four bytes (two DNS servers, say) cannot be
  serialised: the code shifts a 32-bit value by 32 or more.
\<close>

theorem serialize_long_number_shifts:
  assumes "is_number_type (opt_type o1)" "4 < len o1" "off + len o1 \<le> length raw"
  shows "serialize_option_value o1 raw off = Inl Bad_shift"
proof -
  have loop: "serialize_number_loop w n off i raw = Inl Bad_shift"
    if "i \<le> 4" "4 < n" "off + n \<le> length raw" for w n i and raw :: "u8 list"
    using that
  proof (induction "4 - i" arbitrary: i raw)
    case 0
    then have "i = 4" by simp
    with 0 show ?case by (simp add: serialize_number_loop.simps)
  next
    case (Suc k)
    then show ?case by (subst serialize_number_loop.simps) simp
  qed
  from assms loop[of 0 "len o1" raw] show ?thesis
    by (auto simp: is_number_type_def serialize_option_value_def serialize_option_numeric_def
        serialize_option_ip_def)
qed

theorem serialize_long_number_shifts_witness:
  "serialize_option_value (message_type_option 5\<lparr>opt_lenght := 8\<rparr>) (zeros 336) 2 = Inl Bad_shift"
  using serialize_long_number_shifts[of "message_type_option 5\<lparr>opt_lenght := 8\<rparr>" 2 "zeros 336"]
  by (simp add: message_type_option_def is_number_type_def)

text \<open>
  C38. The options of an answer: when every required option that is not blacklisted is
  configured in the pool or globally, building them succeeds, and the list
  holds the message type under tag 53 and, under every other tag, the pool's option or else
  the global one if the tag is required or requested and not blacklisted, and nothing else;
  no tag occurs twice.
\<close>

theorem answer_options_complete:
  assumes "0 \<in> set required" "0 \<in> set requested" "0 \<in> set black" "stored pool" "stored glob"
    "\<forall>t \<in> set (active black required). lookup_option pool glob t \<noteq> None"
  shows "\<exists>dest. dhcp_option_build_required_options [] requested required black glob pool type = Inr (0, dest) \<and>
     distinct (map opt_tag dest) \<and>
     (\<forall>t. dhcp_option_retrieve dest t =
        (if t = DHCP_OPTION_DHCP_MESSAGE_TYPE then Some (message_type_option type)
         else if t \<in> set (active black required) \<union> set (active black requested)
              then answer_option pool glob t else None))"
proof -
  let ?o = "message_type_option type"
  let ?d = "add_answers pool glob (active black requested) (add_answers pool glob (active black required) [?o])"
  have tag: "opt_tag ?o = DHCP_OPTION_DHCP_MESSAGE_TYPE" by (simp add: message_type_option_def)
  have "dhcp_option_build_required_options [] requested required black glob pool type = Inr (0, ?d)"
    using build_required_options_eq[OF assms(1-5), of type] assms(6) by auto
  moreover have "distinct (map opt_tag ?d)" by (intro distinct_add_answers) simp
  moreover have "dhcp_option_retrieve [?o] t = (if t = DHCP_OPTION_DHCP_MESSAGE_TYPE then Some ?o else None)" for t
    by (auto simp: dhcp_option_retrieve_def tag)
  ultimately show ?thesis
    by (intro exI[of _ ?d]) (auto simp: retrieve_add_answers[OF assms(4,5)] split: option.splits)
qed

theorem answer_options_complete_witness:
  "\<exists>dest. dhcp_option_build_required_options [] [0] [0] [0] [] [] 6 = Inr (0, dest) \<and>
     dhcp_option_retrieve dest 53 = Some (message_type_option 6) \<and> dhcp_option_retrieve dest 1 = None"
  using answer_options_complete[of "[0]" "[0]" "[0]" "[]" "[]" 6]
  by (auto simp: stored_def active_def tags_def)

text \<open>A required option that is not configured anywhere makes building the answer fail.\<close>

theorem answer_options_missing:
  assumes "0 \<in> set required" "0 \<in> set requested" "0 \<in> set black" "stored pool" "stored glob"
    "t \<in> set (active black required)" "lookup_option pool glob t = None"
  shows "\<exists>dest. dhcp_option_build_required_options [] requested required black glob pool type = Inr (-1, dest)"
  using build_required_options_eq[OF assms(1-5), of type] assms(6,7) by auto

theorem answer_options_missing_witness:
  "\<exists>dest. dhcp_option_build_required_options [] [0] [54, 0] [0] [] [] 6 = Inr (-1, dest)"
  using answer_options_missing[of "[54, 0]" "[0]" "[0]" "[]" "[]" 54 6]
  by (simp add: stored_def active_def tags_def lookup_option_def dhcp_option_retrieve_def)

end
