(* ===== verification/Xtoy.thy ===== *)
theory Xtoy
  imports Prelude
begin

text \<open>
  The textual conversions of \<open>utils/xtoy.c\<close>: IPv4 addresses in dotted-decimal form and
  MAC addresses in colon-separated hexadecimal form, both ways. \<open>scan_u\<close> and
  \<open>scan_x2\<close> are what the formats \<open>%u\<close> and \<open>%02x\<close> of \<open>sscanf\<close> accept and store (LP64
  glibc: an unsigned value is converted with 64-bit \<open>strtoul\<close> and then truncated).
\<close>

section \<open>Printing numbers\<close>

definition digit_char :: "nat \<Rightarrow> char" where
  "digit_char d = (if d < 10 then char_of (48 + d) else char_of (87 + d))"

fun dec :: "nat \<Rightarrow> string" where
  "dec n = (if n < 10 then [digit_char n] else dec (n div 10) @ [digit_char (n mod 10)])"

declare dec.simps [simp del]

text \<open>\<open>%02x\<close> on a byte.\<close>

definition hex2 :: "u8 \<Rightarrow> string" where
  "hex2 b = [digit_char (unat b div 16), digit_char (unat b mod 16)]"

section \<open>Scanning numbers\<close>

definition is_space :: "char \<Rightarrow> bool" where
  "is_space c \<longleftrightarrow> of_char c = (32::nat) \<or> 9 \<le> (of_char c :: nat) \<and> of_char c \<le> (13::nat)"

definition digit_val :: "char \<Rightarrow> nat option" where
  "digit_val c = (let k = of_char c in
     if 48 \<le> k \<and> k \<le> 57 then Some (k - 48)
     else if 97 \<le> k \<and> k \<le> 102 then Some (k - 87)
     else if 65 \<le> k \<and> k \<le> 70 then Some (k - 55) else None)"

definition is_dec :: "char \<Rightarrow> bool" where
  "is_dec c = (case digit_val c of None \<Rightarrow> False | Some d \<Rightarrow> d < 10)"

definition is_hex :: "char \<Rightarrow> bool" where
  "is_hex c = (digit_val c \<noteq> None)"

fun digits_val :: "nat \<Rightarrow> nat \<Rightarrow> string \<Rightarrow> nat" where
  "digits_val base acc [] = acc"
| "digits_val base acc (c # cs) =
     digits_val base (base * acc + (case digit_val c of None \<Rightarrow> 0 | Some d \<Rightarrow> d)) cs"

text \<open>An optional sign: whether it was a minus, and the rest of the input.\<close>

definition scan_sign :: "string \<Rightarrow> bool \<times> string" where
  "scan_sign s = (case s of [] \<Rightarrow> (False, [])
     | c # cs \<Rightarrow> if c = CHR ''-'' then (True, cs) else if c = CHR ''+'' then (False, cs)
                 else (False, s))"

definition strtoul64 :: "bool \<Rightarrow> nat \<Rightarrow> nat" where
  "strtoul64 neg n = (if 2 ^ 64 \<le> n then 2 ^ 64 - 1
     else if neg then (2 ^ 64 - n) mod 2 ^ 64 else n)"

definition scan_u :: "string \<Rightarrow> (u32 \<times> string) option" where
  "scan_u s =
     (let (neg, s1) = scan_sign (dropWhile is_space s); ds = takeWhile is_dec s1
      in if ds = [] then None
         else Some (of_nat (strtoul64 neg (digits_val 10 0 ds)), dropWhile is_dec s1))"

definition scan_lit :: "char \<Rightarrow> string \<Rightarrow> string option" where
  "scan_lit c s = (case s of [] \<Rightarrow> None | d # ds \<Rightarrow> if d = c then Some ds else None)"

text \<open>\<open>%02x\<close>: at most two characters, a sign counted; \<open>0x\<close> alone is no number.\<close>

definition scan_x2 :: "string \<Rightarrow> (u8 \<times> string) option" where
  "scan_x2 s =
     (let s0 = dropWhile is_space s; (neg, s1) = scan_sign s0;
          w = 2 - (length s0 - length s1);
          ds = takeWhile is_hex (take w s1)
      in if ds = [] \<or> take 2 s1 = ''0x'' \<and> w = 2 \<or> take 2 s1 = ''0X'' \<and> w = 2 then None
         else Some (of_nat (strtoul64 neg (digits_val 16 0 ds)), drop (length ds) s1))"

section \<open>The conversions\<close>

text \<open>\<open>snprintf\<close> writes at most 15 characters and the terminating NUL.\<close>

definition uint32_to_ipv4_address :: "u32 \<Rightarrow> string" where
  "uint32_to_ipv4_address a = take 15
     (dec (unat (drop_bit 24 a AND 0xff)) @ ''.'' @ dec (unat (drop_bit 16 a AND 0xff)) @ ''.'' @
      dec (unat (drop_bit 8 a AND 0xff)) @ ''.'' @ dec (unat (a AND 0xff)))"

definition scan_ipv4 :: "string \<Rightarrow> (u32 \<times> u32 \<times> u32 \<times> u32) option" where
  "scan_ipv4 s = do {
     (a, s) \<leftarrow> scan_u s; s \<leftarrow> scan_lit (CHR ''.'') s;
     (b, s) \<leftarrow> scan_u s; s \<leftarrow> scan_lit (CHR ''.'') s;
     (c, s) \<leftarrow> scan_u s; s \<leftarrow> scan_lit (CHR ''.'') s;
     (d, s) \<leftarrow> scan_u s;
     Some (a, b, c, d) }"

definition ipv4_address_to_uint32 :: "string \<Rightarrow> u32" where
  "ipv4_address_to_uint32 s = (case scan_ipv4 s of None \<Rightarrow> 0
     | Some (a, b, c, d) \<Rightarrow> push_bit 24 a OR push_bit 16 b OR push_bit 8 c OR d)"

definition uint8_array_to_mac :: "u8 list \<Rightarrow> string c" where
  "uint8_array_to_mac mac = (if length mac < 6 then Inl Out_of_bounds
     else Inr (take 17 (hex2 (mac ! 0) @ '':'' @ hex2 (mac ! 1) @ '':'' @ hex2 (mac ! 2) @ '':'' @
       hex2 (mac ! 3) @ '':'' @ hex2 (mac ! 4) @ '':'' @ hex2 (mac ! 5))))"

text \<open>
  \<open>mac_to_uint8_array\<close> stores as many bytes as it matches; the others keep their value.
\<close>

fun scan_mac :: "string \<Rightarrow> nat \<Rightarrow> u8 list" where
  "scan_mac s 0 = []"
| "scan_mac s (Suc k) = (case scan_x2 s of None \<Rightarrow> []
     | Some (b, s') \<Rightarrow> b # (case scan_lit (CHR '':'') s' of None \<Rightarrow> [] | Some s'' \<Rightarrow> scan_mac s'' k))"

definition mac_to_uint8_array :: "string \<Rightarrow> u8 list \<Rightarrow> u8 list c" where
  "mac_to_uint8_array mac array =
     (let bs = scan_mac mac 6 in memcpy array 0 bs (length bs))"

section \<open>Lemmas on digits\<close>

lemma of_char_digit: "d < 16 \<Longrightarrow> of_char (digit_char d) = (if d < 10 then 48 + d else 87 + d)"
  by (simp add: digit_char_def)

lemma digit_val_digit [simp]: "d < 16 \<Longrightarrow> digit_val (digit_char d) = Some d"
  by (simp add: digit_val_def of_char_digit Let_def)

lemma is_dec_digit [simp]: "d < 10 \<Longrightarrow> is_dec (digit_char d)"
  by (simp add: is_dec_def)

lemma not_space_digit [simp]: "d < 16 \<Longrightarrow> \<not> is_space (digit_char d)"
  by (simp add: is_space_def of_char_digit)

lemma digit_char_signs [simp]:
  assumes "d < 16"
  shows "digit_char d \<noteq> CHR ''-''" "digit_char d \<noteq> CHR ''+''"
    "digit_char d \<noteq> CHR ''x''" "digit_char d \<noteq> CHR ''X''"
  using assms
  by (auto dest!: arg_cong[where f = "of_char :: char \<Rightarrow> nat"] simp: of_char_digit split: if_splits)

lemma dec_nonempty [simp]: "dec n \<noteq> []"
  by (subst dec.simps) simp

lemma dec_digits: "\<exists>ds. dec n = map digit_char ds \<and> (\<forall>d \<in> set ds. d < 10)"
proof (induction n rule: dec.induct)
  case (1 n)
  show ?case
  proof (cases "n < 10")
    case True
    then show ?thesis by (subst dec.simps) (auto intro: exI[of _ "[n]"])
  next
    case False
    with 1 obtain ds where "dec (n div 10) = map digit_char ds" "\<forall>d \<in> set ds. d < 10" by auto
    with False show ?thesis
      by (subst dec.simps) (auto intro!: exI[of _ "ds @ [n mod 10]"])
  qed
qed

lemma digits_val_append:
  "digits_val base acc (xs @ ys) = digits_val base (digits_val base acc xs) ys"
  by (induction xs arbitrary: acc) auto

lemma digits_val_dec: "digits_val 10 0 (dec n) = n"
proof (induction n rule: dec.induct)
  case (1 n)
  show ?case
  proof (cases "n < 10")
    case True
    then show ?thesis by (subst dec.simps) simp
  next
    case False
    with 1 have "digits_val 10 0 (dec (n div 10)) = n div 10" by simp
    with False show ?thesis by (subst dec.simps) (simp add: digits_val_append)
  qed
qed

lemma length_dec_byte: "n < 256 \<Longrightarrow> length (dec n) \<le> 3"
  by (subst dec.simps, simp, subst dec.simps, simp, subst dec.simps) simp

lemma scan_u_dec:
  assumes "n < 2 ^ 32" and "rest = [] \<or> \<not> is_dec (hd rest)"
  shows "scan_u (dec n @ rest) = Some (of_nat n, rest)"
proof -
  obtain ds where ds: "dec n = map digit_char ds" "\<forall>d \<in> set ds. d < 10"
    using dec_digits by blast
  then obtain e es where es: "ds = e # es" using dec_nonempty[of n] by (cases ds) auto
  have all: "\<forall>c \<in> set (dec n). is_dec c" using ds by auto
  have "takeWhile is_dec (dec n @ rest) = dec n" "dropWhile is_dec (dec n @ rest) = rest"
    using all assms(2) by (cases rest; auto simp: takeWhile_append dropWhile_append)+
  moreover have "dropWhile is_space (dec n @ rest) = dec n @ rest"
    using ds es by simp
  moreover have "scan_sign (dec n @ rest) = (False, dec n @ rest)"
    using ds es by (simp add: scan_sign_def)
  moreover have "strtoul64 False n = n" using assms(1) by (simp add: strtoul64_def)
  ultimately show ?thesis by (simp add: scan_u_def digits_val_dec)
qed

lemma hex2_lt: "unat b div 16 < 16" "unat b mod 16 < 16" for b :: u8
  using unat_u8[of b] by simp_all

lemma scan_x2_hex2: "scan_x2 (hex2 b @ rest) = Some (b, rest)"
proof -
  note lt = hex2_lt[of b]
  have sg: "scan_sign (hex2 b @ rest) = (False, hex2 b @ rest)"
    using lt by (simp add: scan_sign_def hex2_def)
  have sp: "dropWhile is_space (hex2 b @ rest) = hex2 b @ rest"
    using lt by (simp add: hex2_def)
  have len: "length (hex2 b) = 2" by (simp add: hex2_def)
  have tw: "takeWhile is_hex (hex2 b) = hex2 b"
    using lt by (simp add: hex2_def is_hex_def)
  have dv: "strtoul64 False (digits_val 16 0 (hex2 b)) = unat b"
    using lt unat_u8[of b] by (simp add: hex2_def strtoul64_def)
  have ne: "hex2 b \<noteq> ''0x''" "hex2 b \<noteq> ''0X''" "hex2 b \<noteq> []"
    using lt by (simp_all add: hex2_def)
  show ?thesis unfolding scan_x2_def Let_def sp sg
    using ne by (simp add: len tw dv)
qed

lemma byte_and: "unat (w AND 0xff) < 256" for w :: u32
proof -
  have "w AND 0xff \<le> 0xff" by (rule word_and_le1)
  then show ?thesis by (simp add: word_le_nat_alt)
qed

section \<open>Round trips\<close>

lemma and_ff: "w AND 0xff = take_bit 8 w" for w :: u32
proof -
  have "(0xff :: u32) = mask 8" by (simp add: mask_eq_exp_minus_1)
  then show ?thesis by (simp only: take_bit_eq_mask)
qed

lemma ipv4_octets:
  "push_bit 24 (drop_bit 24 a AND 0xff) OR push_bit 16 (drop_bit 16 a AND 0xff) OR
   push_bit 8 (drop_bit 8 a AND 0xff) OR (a AND 0xff) = a" for a :: u32
  unfolding and_ff
proof (rule bit_word_eqI)
  fix n assume "n < LENGTH(32)"
  then have "n < 8 \<or> (8 \<le> n \<and> n < 16) \<or> (16 \<le> n \<and> n < 24) \<or> (24 \<le> n \<and> n < 32)"
    by auto
  then show "bit (push_bit 24 (take_bit 8 (drop_bit 24 a)) OR push_bit 16 (take_bit 8 (drop_bit 16 a)) OR
     push_bit 8 (take_bit 8 (drop_bit 8 a)) OR take_bit 8 a) n = bit a n"
    by (auto simp: bit_simps)
qed

lemma ipv4_string_length:
  "length (dec (unat (drop_bit 24 a AND 0xff)) @ ''.'' @ dec (unat (drop_bit 16 a AND 0xff)) @ ''.'' @
      dec (unat (drop_bit 8 a AND 0xff)) @ ''.'' @ dec (unat (a AND 0xff))) \<le> 15" for a :: u32
  using length_dec_byte[OF byte_and, of "drop_bit 24 a"] length_dec_byte[OF byte_and, of "drop_bit 16 a"]
    length_dec_byte[OF byte_and, of "drop_bit 8 a"] length_dec_byte[OF byte_and, of a]
  by simp

lemma scan_u_byte:
  "rest = [] \<or> \<not> is_dec (hd rest) \<Longrightarrow> scan_u (dec (unat (w AND 0xff)) @ rest) = Some (w AND 0xff, rest)"
  for w :: u32
  using scan_u_dec[of "unat (w AND 0xff)" rest] byte_and[of w] by simp

lemma not_dec_dot [simp]: "\<not> is_dec (CHR ''.'')"
  by (simp add: is_dec_def digit_val_def)

lemma ipv4_string_untruncated:
  "uint32_to_ipv4_address a =
     dec (unat (drop_bit 24 a AND 0xff)) @ ''.'' @ dec (unat (drop_bit 16 a AND 0xff)) @ ''.'' @
     dec (unat (drop_bit 8 a AND 0xff)) @ ''.'' @ dec (unat (a AND 0xff))"
  unfolding uint32_to_ipv4_address_def by (rule take_all[OF ipv4_string_length])

lemma scan_ipv4_string:
  "scan_ipv4 (uint32_to_ipv4_address a) =
     Some (drop_bit 24 a AND 0xff, drop_bit 16 a AND 0xff, drop_bit 8 a AND 0xff, a AND 0xff)"
  using scan_u_byte[of "[]" a]
  by (simp add: ipv4_string_untruncated scan_ipv4_def scan_u_byte scan_lit_def)

lemma mac_string_untruncated:
  "uint8_array_to_mac [a, b, c, d, e, f] =
     Inr (hex2 a @ '':'' @ hex2 b @ '':'' @ hex2 c @ '':'' @ hex2 d @ '':'' @ hex2 e @ '':'' @ hex2 f)"
  by (simp add: uint8_array_to_mac_def hex2_def)

lemma uint8_array_to_mac_prefix:
  "6 \<le> length m \<Longrightarrow> uint8_array_to_mac m = uint8_array_to_mac (take 6 m)"
  by (simp add: uint8_array_to_mac_def)

lemma length_6_cases:
  assumes "length m = 6"
  obtains a b c d e f where "m = [a, b, c, d, e, f]"
proof -
  from assms have "\<exists>a b c d e f. m = [a, b, c, d, e, f]"
    by (auto simp: numeral_eq_Suc length_Suc_conv)
  then show thesis using that by blast
qed

lemma scan_x2_hex2_end: "scan_x2 (hex2 b) = Some (b, [])"
  using scan_x2_hex2[of b "[]"] by simp

lemma scan_mac_string:
  "scan_mac (hex2 a @ '':'' @ hex2 b @ '':'' @ hex2 c @ '':'' @ hex2 d @ '':'' @ hex2 e @ '':'' @ hex2 f) 6 =
     [a, b, c, d, e, f]"
  by (simp add: numeral_eq_Suc scan_x2_hex2 scan_x2_hex2_end scan_lit_def)

lemma mac_text_inverse:
  assumes "6 \<le> length mac" "6 \<le> length array"
  shows "cbind (uint8_array_to_mac mac) (\<lambda>s. mac_to_uint8_array s array) = Inr (take 6 mac @ drop 6 array)"
proof -
  have "length (take 6 mac) = 6" using assms(1) by simp
  then obtain a b c d e f where m: "take 6 mac = [a, b, c, d, e, f]" by (rule length_6_cases)
  then have "uint8_array_to_mac mac =
      Inr (hex2 a @ '':'' @ hex2 b @ '':'' @ hex2 c @ '':'' @ hex2 d @ '':'' @ hex2 e @ '':'' @ hex2 f)"
    using uint8_array_to_mac_prefix[OF assms(1)] by (simp only: mac_string_untruncated)
  with m assms(2) show ?thesis
    by (simp only: cbind_simps mac_to_uint8_array_def scan_mac_string Let_def) (simp add: memcpy_def eval_nat_numeral)
qed

section \<open>Properties\<close>

text \<open>Printing an address in dotted form and reading it back gives the address.\<close>

theorem ipv4_roundtrip: "ipv4_address_to_uint32 (uint32_to_ipv4_address a) = a"
  by (simp only: ipv4_address_to_uint32_def scan_ipv4_string option.case prod.case ipv4_octets)

text \<open>
  Printing the first six bytes of a hardware address and scanning the text into an array
  of six bytes or more stores these six bytes and leaves the rest of the array.
\<close>

theorem mac_roundtrip:
  assumes "6 \<le> length mac" "6 \<le> length array"
  shows "cbind (uint8_array_to_mac mac) (\<lambda>s. mac_to_uint8_array s array) = Inr (take 6 mac @ drop 6 array)"
  using assms by (rule mac_text_inverse)

theorem mac_roundtrip_witness:
  "cbind (uint8_array_to_mac [0x02, 0x42, 0xac, 0x11, 0, 0x0f, 0, 0]) (\<lambda>s. mac_to_uint8_array s (replicate 6 0)) =
     Inr [0x02, 0x42, 0xac, 0x11, 0, 0x0f]"
  using mac_roundtrip[of "[0x02, 0x42, 0xac, 0x11, 0, 0x0f, 0, 0]" "replicate 6 0"] by simp

end
