(* ===== verification/Address_pool.thy ===== *)
theory Address_pool
  imports Dhcp_options Xtoy
begin

text \<open>
  Address pools (\<open>address_pool.c\<close>): a range of addresses on a subnet, the bitmap of the
  addresses in use, the count of the free ones and the options the pool overrides.
  A pool is specified by the set of addresses in use; the interface \<open>lease_table\<close>
  states what its users rely on and what follows for every sequence of calls.
\<close>

section \<open>The structure and its operations\<close>

record address_pool =
  pool_name :: string
  start_address :: u32
  end_address :: u32
  pool_mask :: u32
  leases_bm :: "u8 list"
  available_addresses :: u32
  dhcp_option_override :: "dhcp_option list"

definition pool_range :: "u32 \<Rightarrow> u32 \<Rightarrow> u32" where
  "pool_range start_addr end_addr = (end_addr - start_addr + 8) div 8"

definition can_range_be_on_subnet :: "u32 \<Rightarrow> u32 \<Rightarrow> u32 \<Rightarrow> bool" where
  "can_range_be_on_subnet start end smask =
     (let subnet_start = start AND smask;
          subnet_end = subnet_start + NOT smask
      in subnet_start + 1 \<le> start \<and> end \<le> subnet_end - 1)"

definition subnet_mask_option :: "u32 \<Rightarrow> dhcp_option" where
  "subnet_mask_option subnet_mask = set_number subnet_mask
     (dhcp_option_new\<lparr>opt_tag := DHCP_OPTION_SUBNET_MASK, opt_type := DHCP_OPTION_IP, opt_lenght := 4\<rparr>)"

text \<open>A \<open>None\<close> name is NULL, a \<open>None\<close> result a pool that was refused.\<close>

definition address_pool_new :: "string option \<Rightarrow> u32 \<Rightarrow> u32 \<Rightarrow> u32 \<Rightarrow> address_pool option" where
  "address_pool_new name start_addr end_addr subnet_mask =
     (case name of None \<Rightarrow> None
      | Some name \<Rightarrow>
          if \<not> can_range_be_on_subnet start_addr end_addr subnet_mask then None
          else if \<not> start_addr < end_addr then None
          else Some \<lparr>pool_name = name, start_address = start_addr, end_address = end_addr,
                     pool_mask = subnet_mask,
                     leases_bm = zeros (unat (pool_range start_addr end_addr)),
                     available_addresses = end_addr - start_addr + 1,
                     dhcp_option_override = snd (dhcp_option_add [] (Some (subnet_mask_option subnet_mask)))\<rparr>)"

definition address_pool_new_str ::
    "string option \<Rightarrow> string \<Rightarrow> string \<Rightarrow> string \<Rightarrow> address_pool option" where
  "address_pool_new_str name start_addr end_addr subnet_mask =
     address_pool_new name (ipv4_address_to_uint32 start_addr) (ipv4_address_to_uint32 end_addr)
       (ipv4_address_to_uint32 subnet_mask)"

definition address_belongs_to_pool :: "address_pool \<Rightarrow> u32 \<Rightarrow> bool" where
  "address_belongs_to_pool pool address \<longleftrightarrow> start_address pool \<le> address \<and> address \<le> end_address pool"

definition address_belongs_to_pool_str :: "address_pool \<Rightarrow> string \<Rightarrow> bool" where
  "address_belongs_to_pool_str pool address =
     address_belongs_to_pool pool (ipv4_address_to_uint32 address)"

definition address_pool_address_allocation_ctl ::
    "address_pool \<Rightarrow> u32 \<Rightarrow> char \<Rightarrow> (int \<times> address_pool) c" where
  "address_pool_address_allocation_ctl pool address action =
     (if \<not> address_belongs_to_pool pool address then Inr (-1, pool)
      else
        let address_number = address - start_address pool;
            index = unat (address_number div 8);
            bit = push_bit (unat (address_number mod 8)) 1
        in cbind (array_get (leases_bm pool) index) (\<lambda>b.
             let address_bit = b AND bit \<noteq> 0 in
             if action = CHR ''s'' then
               if address_bit then Inr (-1, pool)
               else Inr (0, pool\<lparr>leases_bm := (leases_bm pool)[index := b OR bit],
                                 available_addresses := available_addresses pool - 1\<rparr>)
             else if action = CHR ''c'' then
               if \<not> address_bit then Inr (-1, pool)
               else Inr (0, pool\<lparr>leases_bm := (leases_bm pool)[index := b - bit],
                                 available_addresses := available_addresses pool + 1\<rparr>)
             else if action = CHR ''g'' then Inr (if address_bit then 1 else 0, pool)
             else Inr (-1, pool)))"

definition address_pool_set_address_allocation :: "address_pool \<Rightarrow> u32 \<Rightarrow> (int \<times> address_pool) c" where
  "address_pool_set_address_allocation pool address =
     address_pool_address_allocation_ctl pool address CHR ''s''"

definition address_pool_set_address_allocation_str ::
    "address_pool \<Rightarrow> string \<Rightarrow> (int \<times> address_pool) c" where
  "address_pool_set_address_allocation_str pool address =
     address_pool_address_allocation_ctl pool (ipv4_address_to_uint32 address) CHR ''s''"

definition address_pool_get_address_allocation :: "address_pool \<Rightarrow> u32 \<Rightarrow> int c" where
  "address_pool_get_address_allocation pool address =
     cbind (address_pool_address_allocation_ctl pool address CHR ''g'') (\<lambda>(rv, _). Inr rv)"

definition address_pool_get_address_allocation_str :: "address_pool \<Rightarrow> string \<Rightarrow> int c" where
  "address_pool_get_address_allocation_str pool address =
     address_pool_get_address_allocation pool (ipv4_address_to_uint32 address)"

definition address_pool_clear_address_allocation :: "address_pool \<Rightarrow> u32 \<Rightarrow> (int \<times> address_pool) c" where
  "address_pool_clear_address_allocation pool address =
     address_pool_address_allocation_ctl pool address CHR ''c''"

definition address_pool_clear_address_allocation_str ::
    "address_pool \<Rightarrow> string \<Rightarrow> (int \<times> address_pool) c" where
  "address_pool_clear_address_allocation_str pool address =
     address_pool_address_allocation_ctl pool (ipv4_address_to_uint32 address) CHR ''c''"

section \<open>The invariant and the set of addresses in use\<close>

definition pool_dom :: "address_pool \<Rightarrow> u32 set" where
  "pool_dom pool = {start_address pool..end_address pool}"

definition slot :: "address_pool \<Rightarrow> u32 \<Rightarrow> nat" where
  "slot pool a = unat a - unat (start_address pool)"

definition in_use :: "address_pool \<Rightarrow> u32 \<Rightarrow> bool" where
  "in_use pool a \<longleftrightarrow> bit (leases_bm pool ! (slot pool a div 8)) (slot pool a mod 8)"

definition pool_used :: "address_pool \<Rightarrow> u32 set" where
  "pool_used pool = {a \<in> pool_dom pool. in_use pool a}"

text \<open>
  The range is on the wire's address space with room for the bitmap's size computation,
  the bitmap covers the range, and the counter counts the addresses not in use.
\<close>

definition wf_pool :: "address_pool \<Rightarrow> bool" where
  "wf_pool pool \<longleftrightarrow> start_address pool < end_address pool \<and> end_address pool < 0xFFFFFFFF \<and>
     unat (end_address pool) - unat (start_address pool) < 2 ^ 32 - 8 \<and>
     length (leases_bm pool) = unat (pool_range (start_address pool) (end_address pool)) \<and>
     unat (available_addresses pool) = card (pool_dom pool - pool_used pool)"

lemma belongs_iff: "address_belongs_to_pool pool a \<longleftrightarrow> a \<in> pool_dom pool"
  by (simp add: address_belongs_to_pool_def pool_dom_def)

lemma card_range:
  fixes s e :: u32
  assumes "s \<le> e"
  shows "card {s..e} = unat e - unat s + 1"
proof -
  have "unat ` {s..e} = {unat s..unat e}"
  proof (intro equalityI subsetI)
    fix n assume n: "n \<in> {unat s..unat e}"
    then have "n < 2 ^ 32" using unat_u32[of e] by simp
    then have "unat (word_of_nat n :: u32) = n" by (simp add: unat_of_nat take_bit_nat_eq_self)
    with n have "word_of_nat n \<in> {s..e}" by (simp add: word_le_nat_alt)
    with \<open>unat (word_of_nat n :: u32) = n\<close> show "n \<in> unat ` {s..e}" by (metis imageI)
  qed (auto simp: word_le_nat_alt)
  moreover have "inj_on unat {s..e}" by (rule inj_onI) (simp only: word_unat_eq_iff)
  ultimately have "card {s..e} = card {unat s..unat e}" by (metis card_image)
  with assms show ?thesis by (simp add: word_le_nat_alt)
qed

lemma unat_pool_range:
  assumes "s \<le> e" "unat e - unat s < 2 ^ 32 - 8"
  shows "unat (pool_range s e) = (unat e - unat s) div 8 + 1"
proof -
  have "unat (e - s) = unat e - unat s" using assms(1) by (rule unat_minus_le)
  then have "unat (e - s + 8) = unat e - unat s + 8"
    using assms(2) by (simp add: unat_word_ariths)
  then show ?thesis by (simp add: pool_range_def unat_div)
qed

lemma slot_eq:
  assumes "a \<in> pool_dom pool"
  shows "unat ((a - start_address pool) div 8) = slot pool a div 8"
    and "unat ((a - start_address pool) mod 8) = slot pool a mod 8"
proof -
  have "unat (a - start_address pool) = slot pool a"
    using assms unat_minus_le[of "start_address pool" a] by (simp add: pool_dom_def slot_def)
  then show "unat ((a - start_address pool) div 8) = slot pool a div 8"
    and "unat ((a - start_address pool) mod 8) = slot pool a mod 8"
    by (simp_all add: unat_div unat_mod)
qed

lemma slot_in_bitmap: "wf_pool pool \<Longrightarrow> a \<in> pool_dom pool \<Longrightarrow> slot pool a div 8 < length (leases_bm pool)"
  by (auto simp: wf_pool_def unat_pool_range pool_dom_def slot_def word_le_nat_alt le_imp_less_Suc
      intro!: div_le_mono)

lemma slot_inj: "a \<in> pool_dom pool \<Longrightarrow> b \<in> pool_dom pool \<Longrightarrow> slot pool a = slot pool b \<longleftrightarrow> a = b"
  by (auto simp: pool_dom_def slot_def word_le_nat_alt word_unat_eq_iff)

section \<open>One bit of the bitmap\<close>

lemma and_bit_iff: "w AND 2 ^ k = 0 \<longleftrightarrow> \<not> bit w k" for w :: u8
  by (simp add: and_exp_eq_0_iff_not_bit)

lemma or_bit_eq: "w OR 2 ^ k = set_bit k w" for w :: u8
  by (simp add: set_bit_eq_or)

lemma minus_bit_eq:
  fixes w :: u8
  assumes "bit w k"
  shows "w - 2 ^ k = unset_bit k w"
proof -
  let ?m = "2 ^ k :: u8"
  have "unset_bit k w AND ?m = 0" by (simp add: and_bit_iff bit_unset_bit_iff)
  moreover have "unset_bit k w OR ?m = w"
    unfolding or_bit_eq using assms by (intro bit_word_eqI) (auto simp: bit_unset_bit_iff bit_set_bit_iff)
  ultimately have "unset_bit k w + ?m = w" by (metis add_0 word_plus_and_or)
  then show ?thesis by (metis add_diff_cancel_right')
qed

lemma bit_update:
  fixes bm :: "u8 list"
  assumes "i < length bm" "k' < 8"
  shows "bit (bm[i := (if v then set_bit k else unset_bit k) (bm ! i)] ! j) k' =
     (if i = j \<and> k = k' then v else bit (bm ! j) k')"
  using assms by (cases v) (auto simp: nth_list_update bit_set_bit_iff bit_unset_bit_iff possible_bit_word)

definition set_slot :: "address_pool \<Rightarrow> u32 \<Rightarrow> bool \<Rightarrow> u8 list" where
  "set_slot pool a v = (let i = slot pool a div 8; k = slot pool a mod 8 in
     (leases_bm pool)[i := (if v then set_bit k else unset_bit k) (leases_bm pool ! i)])"

lemma bit_set_slot:
  assumes "wf_pool pool" "a \<in> pool_dom pool" "b \<in> pool_dom pool"
  shows "bit (set_slot pool a v ! (slot pool b div 8)) (slot pool b mod 8) =
     (if b = a then v else in_use pool b)"
proof -
  have "slot pool a div 8 = slot pool b div 8 \<and> slot pool a mod 8 = slot pool b mod 8 \<longleftrightarrow> b = a"
    using slot_inj[OF assms(2,3)] by (metis div_mult_mod_eq)
  moreover have "slot pool b mod 8 < 8" by simp
  ultimately show ?thesis
    unfolding set_slot_def Let_def by (simp only: bit_update[OF slot_in_bitmap[OF assms(1,2)]] in_use_def)
qed

text \<open>What one call of the allocation control does, in terms of the slot of the address.\<close>

lemma ctl_eq:
  assumes wf: "wf_pool pool" and dom: "a \<in> pool_dom pool"
  shows "address_pool_set_address_allocation pool a =
       (if in_use pool a then Inr (-1, pool)
        else Inr (0, pool\<lparr>leases_bm := set_slot pool a True,
                          available_addresses := available_addresses pool - 1\<rparr>))"
    and "address_pool_clear_address_allocation pool a =
       (if in_use pool a
        then Inr (0, pool\<lparr>leases_bm := set_slot pool a False,
                          available_addresses := available_addresses pool + 1\<rparr>)
        else Inr (-1, pool))"
    and "address_pool_get_address_allocation pool a = Inr (if in_use pool a then 1 else 0)"
proof -
  note facts = slot_in_bitmap[OF wf dom] slot_eq[OF dom] and_bit_iff minus_bit_eq or_bit_eq
  have b: "address_belongs_to_pool pool a" using dom by (simp add: belongs_iff)
  show "address_pool_set_address_allocation pool a =
       (if in_use pool a then Inr (-1, pool)
        else Inr (0, pool\<lparr>leases_bm := set_slot pool a True,
                          available_addresses := available_addresses pool - 1\<rparr>))"
    by (simp add: address_pool_set_address_allocation_def address_pool_address_allocation_ctl_def
        b facts Let_def in_use_def set_slot_def)
  show "address_pool_clear_address_allocation pool a =
       (if in_use pool a
        then Inr (0, pool\<lparr>leases_bm := set_slot pool a False,
                          available_addresses := available_addresses pool + 1\<rparr>)
        else Inr (-1, pool))"
    by (simp add: address_pool_clear_address_allocation_def address_pool_address_allocation_ctl_def
        b facts Let_def in_use_def set_slot_def)
  show "address_pool_get_address_allocation pool a = Inr (if in_use pool a then 1 else 0)"
    by (simp add: address_pool_get_address_allocation_def address_pool_address_allocation_ctl_def
        b facts Let_def in_use_def)
qed

lemma ctl_outside:
  assumes "a \<notin> pool_dom pool"
  shows "address_pool_address_allocation_ctl pool a action = Inr (-1, pool)"
  using assms by (simp add: address_pool_address_allocation_ctl_def belongs_iff)

section \<open>The interface of a table of leases\<close>

text \<open>
  What the users of a table of addresses rely on. An address that belongs to the table is
  in use or free. \<open>take\<close> succeeds exactly on a free address of the table and marks it, \<open>give\<close>
  succeeds exactly on one in use and frees it; a refused call changes nothing. No call
  leaves the defined behaviour of C.
\<close>

datatype lease_op = Take u32 | Give u32

fun spec_op :: "u32 set \<Rightarrow> lease_op \<Rightarrow> u32 set \<Rightarrow> bool \<times> u32 set" where
  "spec_op D (Take a) U = (if a \<in> D - U then (True, insert a U) else (False, U))"
| "spec_op D (Give a) U = (if a \<in> U then (True, U - {a}) else (False, U))"

fun spec_ops :: "u32 set \<Rightarrow> lease_op list \<Rightarrow> u32 set \<Rightarrow> bool list \<times> u32 set" where
  "spec_ops D [] U = ([], U)"
| "spec_ops D (x # xs) U = (case spec_op D x U of (ok, U') \<Rightarrow>
     (case spec_ops D xs U' of (oks, U'') \<Rightarrow> (ok # oks, U'')))"

fun run_ops :: "('s \<Rightarrow> u32 \<Rightarrow> (int \<times> 's) c) \<Rightarrow> ('s \<Rightarrow> u32 \<Rightarrow> (int \<times> 's) c) \<Rightarrow> lease_op list \<Rightarrow> 's \<Rightarrow>
    (int list \<times> 's) c" where
  "run_ops tk gv [] s = Inr ([], s)"
| "run_ops tk gv (x # xs) s =
     cbind (case x of Take a \<Rightarrow> tk s a | Give a \<Rightarrow> gv s a) (\<lambda>(rv, s').
     cbind (run_ops tk gv xs s') (\<lambda>(rvs, s''). Inr (rv # rvs, s'')))"

text \<open>
  How often address \<open>a\<close> was handed out and came back, over a history of operations with
  their results.
\<close>

fun balance :: "u32 \<Rightarrow> (lease_op \<times> int) list \<Rightarrow> int" where
  "balance a [] = 0"
| "balance a ((x, rv) # h) =
     (if rv = 0 then (case x of Take b \<Rightarrow> if b = a then 1 else 0 | Give b \<Rightarrow> if b = a then -1 else 0) else 0) +
     balance a h"

locale lease_table =
  fixes inv :: "'s \<Rightarrow> bool"
    and dom_of :: "'s \<Rightarrow> u32 set"
    and used :: "'s \<Rightarrow> u32 set"
    and tk :: "'s \<Rightarrow> u32 \<Rightarrow> (int \<times> 's) c"
    and gv :: "'s \<Rightarrow> u32 \<Rightarrow> (int \<times> 's) c"
  assumes used_dom: "inv s \<Longrightarrow> used s \<subseteq> dom_of s"
    and take_ok: "inv s \<Longrightarrow> a \<in> dom_of s \<Longrightarrow> a \<notin> used s \<Longrightarrow>
      \<exists>s'. tk s a = Inr (0, s') \<and> inv s' \<and> dom_of s' = dom_of s \<and> used s' = insert a (used s)"
    and take_refused: "inv s \<Longrightarrow> a \<notin> dom_of s - used s \<Longrightarrow> \<exists>rv. tk s a = Inr (rv, s) \<and> rv \<noteq> 0"
    and give_ok: "inv s \<Longrightarrow> a \<in> used s \<Longrightarrow>
      \<exists>s'. gv s a = Inr (0, s') \<and> inv s' \<and> dom_of s' = dom_of s \<and> used s' = used s - {a}"
    and give_refused: "inv s \<Longrightarrow> a \<notin> used s \<Longrightarrow> \<exists>rv. gv s a = Inr (rv, s) \<and> rv \<noteq> 0"
begin

lemma step_refines:
  assumes "inv s"
  shows "\<exists>rv s'. (case x of Take a \<Rightarrow> tk s a | Give a \<Rightarrow> gv s a) = Inr (rv, s') \<and> inv s' \<and>
     dom_of s' = dom_of s \<and> spec_op (dom_of s) x (used s) = (rv = 0, used s')"
proof (cases x)
  case (Take a)
  with take_ok[OF assms, of a] take_refused[OF assms, of a] assms show ?thesis
    by (cases "a \<in> dom_of s - used s") auto
next
  case (Give a)
  with give_ok[OF assms, of a] give_refused[OF assms, of a] assms show ?thesis
    by (cases "a \<in> used s") auto
qed

lemma run_refines:
  assumes "inv s"
  shows "\<exists>rvs s'. run_ops tk gv xs s = Inr (rvs, s') \<and> inv s' \<and> dom_of s' = dom_of s \<and>
     spec_ops (dom_of s) xs (used s) = (map (\<lambda>rv. rv = 0) rvs, used s')"
  using assms
proof (induction xs arbitrary: s)
  case (Cons x xs)
  obtain rv s1 where s1: "(case x of Take a \<Rightarrow> tk s a | Give a \<Rightarrow> gv s a) = Inr (rv, s1)" "inv s1"
    "dom_of s1 = dom_of s" "spec_op (dom_of s) x (used s) = (rv = 0, used s1)"
    using step_refines[OF Cons.prems, of x] by blast
  with Cons.IH[OF s1(2)] show ?case by auto
qed auto

lemma run_balance:
  assumes "inv s" "run_ops tk gv xs s = Inr (rvs, s')"
  shows "balance a (zip xs rvs) = (if a \<in> used s' then 1 else 0) - (if a \<in> used s then 1 else 0)"
  using assms
proof (induction xs arbitrary: s rvs)
  case (Cons x xs)
  obtain rv s1 where s1: "(case x of Take a \<Rightarrow> tk s a | Give a \<Rightarrow> gv s a) = Inr (rv, s1)" "inv s1"
    "dom_of s1 = dom_of s" "spec_op (dom_of s) x (used s) = (rv = 0, used s1)"
    using step_refines[OF Cons.prems(1), of x] by blast
  with Cons.prems(2) obtain rs where rs: "run_ops tk gv xs s1 = Inr (rs, s')" "rvs = rv # rs" by auto
  have "(if rv = 0 then (case x of Take b \<Rightarrow> if b = a then 1 else 0 | Give b \<Rightarrow> if b = a then -1 else 0) else 0) =
      (if a \<in> used s1 then 1 else 0) - (if a \<in> used s then 1 else (0::int))"
    using s1(4) by (cases x) (auto split: if_splits dest: sym)
  with Cons.IH[OF s1(2) rs(1)] rs(2) show ?case by simp
qed auto

end

section \<open>Pools are tables of leases\<close>

lemma finite_free: "finite (pool_dom pool - pool_used pool)"
  by (rule finite)

lemma pool_used_dom: "pool_used pool \<subseteq> pool_dom pool"
  by (auto simp: pool_used_def)

lemma wf_pool_upd:
  assumes wf: "wf_pool pool" and dom: "a \<in> pool_dom pool"
    and p': "p' = pool\<lparr>leases_bm := set_slot pool a v, available_addresses := n\<rparr>"
  shows "pool_dom p' = pool_dom pool"
    and "pool_used p' = (if v then insert a (pool_used pool) else pool_used pool - {a})"
    and "unat n = card (pool_dom p' - pool_used p') \<Longrightarrow> wf_pool p'"
proof -
  show d: "pool_dom p' = pool_dom pool" by (simp add: p' pool_dom_def)
  have "slot p' b = slot pool b" for b by (simp add: p' slot_def)
  then have "in_use p' b = (if b = a then v else in_use pool b)" if "b \<in> pool_dom pool" for b
    using bit_set_slot[OF wf dom that] by (simp add: in_use_def p')
  with d dom show "pool_used p' = (if v then insert a (pool_used pool) else pool_used pool - {a})"
    by (auto simp: pool_used_def split: if_splits)
  show "unat n = card (pool_dom p' - pool_used p') \<Longrightarrow> wf_pool p'"
    using wf by (simp add: wf_pool_def p' set_slot_def Let_def)
qed

lemma pool_take_ok:
  assumes wf: "wf_pool pool" and dom: "a \<in> pool_dom pool" and free: "a \<notin> pool_used pool"
  shows "\<exists>p'. address_pool_set_address_allocation pool a = Inr (0, p') \<and> wf_pool p' \<and>
     pool_dom p' = pool_dom pool \<and> pool_used p' = insert a (pool_used pool)"
proof -
  let ?p = "pool\<lparr>leases_bm := set_slot pool a True, available_addresses := available_addresses pool - 1\<rparr>"
  note upd = wf_pool_upd[OF wf dom refl, where v = True and n = "available_addresses pool - 1"]
  have "a \<in> pool_dom pool - pool_used pool" using dom free by simp
  then have c: "card (pool_dom pool - pool_used pool - {a}) + 1 = unat (available_addresses pool)"
    using wf card_Suc_Diff1[OF finite_free, of a pool] by (simp only: wf_pool_def Suc_eq_plus1)
  then have "1 \<le> available_addresses pool" by (simp add: word_le_nat_alt)
  then have "unat (available_addresses pool - 1) = unat (available_addresses pool) - 1"
    by (simp add: unat_minus_le)
  moreover have "pool_dom pool - insert a (pool_used pool) = pool_dom pool - pool_used pool - {a}" by auto
  ultimately have "unat (available_addresses pool - 1) = card (pool_dom ?p - pool_used ?p)"
    using c by (simp add: upd(1,2))
  with upd ctl_eq(1)[OF wf dom] dom free show ?thesis by (simp add: pool_used_def)
qed

lemma pool_give_ok:
  assumes wf: "wf_pool pool" and used: "a \<in> pool_used pool"
  shows "\<exists>p'. address_pool_clear_address_allocation pool a = Inr (0, p') \<and> wf_pool p' \<and>
     pool_dom p' = pool_dom pool \<and> pool_used p' = pool_used pool - {a}"
proof -
  have dom: "a \<in> pool_dom pool" using used pool_used_dom by blast
  let ?p = "pool\<lparr>leases_bm := set_slot pool a False, available_addresses := available_addresses pool + 1\<rparr>"
  note upd = wf_pool_upd[OF wf dom refl, where v = False and n = "available_addresses pool + 1"]
  have eq: "pool_dom pool - (pool_used pool - {a}) = insert a (pool_dom pool - pool_used pool)"
    using used dom by auto
  then have c: "card (pool_dom pool - (pool_used pool - {a})) = Suc (unat (available_addresses pool))"
    using wf used by (simp add: wf_pool_def finite_free)
  have "start_address pool \<le> end_address pool" using wf unfolding wf_pool_def by (blast intro: less_imp_le)
  then have "card (pool_dom pool - (pool_used pool - {a})) < 2 ^ 32"
    using card_mono[of "pool_dom pool" "pool_dom pool - (pool_used pool - {a})"] wf
    by (simp add: pool_dom_def card_range wf_pool_def)
  then have "unat (available_addresses pool + 1) = Suc (unat (available_addresses pool))"
    using c by (simp add: unat_word_ariths)
  with c have "unat (available_addresses pool + 1) = card (pool_dom ?p - pool_used ?p)"
    by (simp add: upd(1,2))
  with upd ctl_eq(2)[OF wf dom] used show ?thesis by (simp add: pool_used_def)
qed

interpretation pools: lease_table wf_pool pool_dom pool_used
  address_pool_set_address_allocation address_pool_clear_address_allocation
proof unfold_locales
  fix s a
  assume wf: "wf_pool s"
  show "pool_used s \<subseteq> pool_dom s" by (rule pool_used_dom)
  show "\<exists>rv. address_pool_set_address_allocation s a = Inr (rv, s) \<and> rv \<noteq> 0"
    if "a \<notin> pool_dom s - pool_used s"
    using that ctl_eq(1)[OF wf, of a] ctl_outside[of a s]
    by (cases "a \<in> pool_dom s") (auto simp: pool_used_def address_pool_set_address_allocation_def)
  show "\<exists>rv. address_pool_clear_address_allocation s a = Inr (rv, s) \<and> rv \<noteq> 0" if "a \<notin> pool_used s"
    using that ctl_eq(2)[OF wf, of a] ctl_outside[of a s]
    by (cases "a \<in> pool_dom s") (auto simp: pool_used_def address_pool_clear_address_allocation_def)
qed (use pool_take_ok pool_give_ok in auto)

lemma get_allocation_eq:
  assumes "wf_pool pool"
  shows "address_pool_get_address_allocation pool a =
     Inr (if a \<notin> pool_dom pool then -1 else if a \<in> pool_used pool then 1 else 0)"
  using ctl_eq(3)[OF assms, of a] ctl_outside[of a pool]
  by (auto simp: pool_used_def address_pool_get_address_allocation_def)

section \<open>New pools\<close>

lemma address_pool_new_Some:
  assumes "address_pool_new name s e m = Some p"
  shows "start_address p = s" "end_address p = e" "pool_mask p = m" "name = Some (pool_name p)"
    "s < e" "e < 0xFFFFFFFF" "pool_dom p = {s..e}" "available_addresses p = e - s + 1"
    "leases_bm p = zeros (unat (pool_range s e))"
    "dhcp_option_override p = [subnet_mask_option m]"
proof -
  have "e \<le> (s AND m) + NOT m - 1" "(s AND m) + 1 \<le> s" "s < e"
    using assms by (auto simp: address_pool_new_def can_range_be_on_subnet_def Let_def
        split: option.splits if_splits)
  moreover have "(s AND m) + NOT m \<noteq> 0"
  proof
    have "(s AND m) AND NOT m = 0" by (rule bit_word_eqI) (simp add: bit_simps)
    then have plus: "(s AND m) + NOT m = (s AND m) OR NOT m" by (metis add_0 word_plus_and_or)
    assume "(s AND m) + NOT m = 0"
    with plus have z: "s AND m = 0" "NOT m = 0" by (metis or_eq_0_iff)+
    then have "m = NOT 0" by (metis bit.double_compl)
    with z have "s = 0" by simp
    with calculation(2) show False by simp
  qed
  then have "(s AND m) + NOT m - 1 < 0xFFFFFFFF"
    using unat_minus_le[of 1 "(s AND m) + NOT m"] unat_u32[of "(s AND m) + NOT m"]
    by (simp add: word_less_nat_alt word_le_nat_alt unat_gt_0 Suc_le_eq)
  with calculation(1) show "e < 0xFFFFFFFF" by (rule order.strict_trans1)
qed (use assms in \<open>auto simp: address_pool_new_def pool_dom_def dhcp_option_add_def dhcp_option_retrieve_def
       split: option.splits if_splits\<close>)

lemma wf_pool_new:
  assumes new: "address_pool_new name s e m = Some p" and room: "e - s < 0xFFFFFFF8"
  shows "wf_pool p" "pool_used p = {}"
proof -
  note p = address_pool_new_Some[OF new]
  have le: "s \<le> e" using p(5) by simp
  have fits: "unat e - unat s < 2 ^ 32 - 8"
    using room by (simp add: word_less_nat_alt unat_minus_le[OF le])
  have "\<not> in_use p a" if "a \<in> pool_dom p" for a
  proof -
    have "slot p a div 8 < unat (pool_range s e)"
      using that le fits p by (auto simp: unat_pool_range slot_def word_le_nat_alt le_imp_less_Suc intro!: div_le_mono)
    then show ?thesis by (simp add: in_use_def p(9) zeros_def)
  qed
  then show used: "pool_used p = {}" by (auto simp: pool_used_def)
  have "unat (e - s + 1) = unat e - unat s + 1"
    using fits by (simp add: unat_word_ariths unat_minus_le[OF le])
  with used le fits p show "wf_pool p" by (simp add: wf_pool_def card_range)
qed

section \<open>Properties\<close>

text \<open>
  C6. A pool that was created behaves like the set of its addresses in use under every
  sequence of calls that mark and free addresses: no call reads or writes outside the
  bitmap, each call succeeds exactly when the specification does, the set of marked
  addresses is the specified one, and the invariant (the counter of free addresses
  included) holds at the end.
\<close>

theorem pool_refines_set:
  assumes "address_pool_new name s e m = Some p" and "e - s < 0xFFFFFFF8"
  shows "\<exists>rvs p'. run_ops address_pool_set_address_allocation address_pool_clear_address_allocation ops p =
       Inr (rvs, p') \<and> wf_pool p' \<and> spec_ops {s..e} ops {} = (map (\<lambda>rv. rv = 0) rvs, pool_used p')"
  using pools.run_refines[OF wf_pool_new(1)[OF assms], of ops] wf_pool_new(2)[OF assms]
    address_pool_new_Some(7)[OF assms(1)] by auto

theorem pool_refines_set_witness:
  "\<exists>p p' rvs. address_pool_new (Some ''lan'') 0xC0A80064 0xC0A80068 0xFFFFFF00 = Some p \<and>
     run_ops address_pool_set_address_allocation address_pool_clear_address_allocation
       [Take 0xC0A80065, Take 0xC0A80065, Give 0xC0A80065, Take 0xC0A80068] p = Inr (rvs, p') \<and>
     map (\<lambda>rv. rv = 0) rvs = [True, False, True, True] \<and> pool_used p' = {0xC0A80068}"
proof -
  obtain p where p: "address_pool_new (Some ''lan'') 0xC0A80064 0xC0A80068 0xFFFFFF00 = Some p"
    by (simp add: address_pool_new_def can_range_be_on_subnet_def)
  from pool_refines_set[OF p, of "[Take 0xC0A80065, Take 0xC0A80065, Give 0xC0A80065, Take 0xC0A80068]"]
  show ?thesis using p by auto
qed

text \<open>
  The size of the bitmap is computed with a sum that wraps around: the pool that spans
  almost the whole address space is created with an empty bitmap, and marking an address
  in it writes outside the bitmap.
\<close>

theorem pool_range_wraps:
  "\<exists>p. address_pool_new (Some n) 1 0xFFFFFFFE 0 = Some p \<and> leases_bm p = [] \<and>
     address_pool_set_address_allocation p 1 = Inl Out_of_bounds"
  by (simp add: address_pool_new_def can_range_be_on_subnet_def pool_range_def zeros_def
      address_pool_set_address_allocation_def address_pool_address_allocation_ctl_def
      address_belongs_to_pool_def array_get_def)

end
