(* ===== verification/Allocator.thy ===== *)
theory Allocator
  imports Address_pool
begin

text \<open>
  The address allocator (\<open>allocator.c\<close>): the list of pools and the default options. A
  pointer to a pool of the list is the position of the pool in it. \<open>addr_buf\<close> is the
  caller's variable, passed in and returned.
\<close>

section \<open>The structure and its operations\<close>

record allocator =
  default_options :: "dhcp_option list"
  address_pools :: "address_pool list"

abbreviation (input) ALLOCATOR_OK :: int where "ALLOCATOR_OK \<equiv> 0"
abbreviation (input) ALLOCATOR_ERROR :: int where "ALLOCATOR_ERROR \<equiv> -1"
abbreviation (input) ALLOCATOR_ADDR_RESERVED :: int where "ALLOCATOR_ADDR_RESERVED \<equiv> -2"
abbreviation (input) ALLOCATOR_ADDR_IN_USE :: int where "ALLOCATOR_ADDR_IN_USE \<equiv> -3"
abbreviation (input) ALLOCATOR_ADDR_NOT_IN_USE :: int where "ALLOCATOR_ADDR_NOT_IN_USE \<equiv> -4"
abbreviation (input) ALLOCATOR_POOL_DUPLICITE :: int where "ALLOCATOR_POOL_DUPLICITE \<equiv> -5"
abbreviation (input) ALLOCATOR_OPTION_DUPLICITE :: int where "ALLOCATOR_OPTION_DUPLICITE \<equiv> -6"
abbreviation (input) ALLOCATOR_OPTION_INVALID :: int where "ALLOCATOR_OPTION_INVALID \<equiv> -7"
abbreviation (input) ALLOCATOR_POOL_DEPLETED :: int where "ALLOCATOR_POOL_DEPLETED \<equiv> -8"
abbreviation (input) ALLOCATOR_CANNOT_CREATE_LEASE :: int where "ALLOCATOR_CANNOT_CREATE_LEASE \<equiv> -9"

definition allocator_strerror :: "int \<Rightarrow> string" where
  "allocator_strerror s =
     (if s = ALLOCATOR_OK then ''OK''
      else if s = ALLOCATOR_ERROR then ''Error''
      else if s = ALLOCATOR_POOL_DUPLICITE then ''Pool already exists''
      else if s = ALLOCATOR_OPTION_DUPLICITE then ''Option already exists''
      else if s = ALLOCATOR_ADDR_IN_USE then ''Address in use''
      else if s = ALLOCATOR_ADDR_NOT_IN_USE then ''Address not in use''
      else if s = ALLOCATOR_ADDR_RESERVED then ''Address reserved''
      else if s = ALLOCATOR_OPTION_INVALID then ''Option invalid''
      else if s = ALLOCATOR_CANNOT_CREATE_LEASE then ''Cannot create lease''
      else ''Uknown error code'')"

definition address_allocator_new :: allocator where
  "address_allocator_new = \<lparr>default_options = [], address_pools = []\<rparr>"

definition allocator_get_pool_by_address :: "allocator \<Rightarrow> u32 \<Rightarrow> nat option" where
  "allocator_get_pool_by_address a addr =
     find_index (\<lambda>pool. address_belongs_to_pool pool addr) (address_pools a)"

definition allocator_get_pool_by_name :: "allocator \<Rightarrow> string option \<Rightarrow> nat option" where
  "allocator_get_pool_by_name a name =
     (case name of None \<Rightarrow> None
      | Some name \<Rightarrow> find_index (\<lambda>pool. pool_name pool = name) (address_pools a))"

definition allocator_add_pool :: "allocator \<Rightarrow> address_pool option \<Rightarrow> int \<times> allocator" where
  "allocator_add_pool a pool =
     (case pool of None \<Rightarrow> (ALLOCATOR_ERROR, a)
      | Some pool \<Rightarrow>
          if allocator_get_pool_by_name a (Some (pool_name pool)) \<noteq> None
          then (ALLOCATOR_POOL_DUPLICITE, a)
          else (ALLOCATOR_OK, a\<lparr>address_pools := address_pools a @ [pool]\<rparr>))"

text \<open>The loop of \<open>allocator_assign_first_from_pool\<close>, from address \<open>a\<close> on.\<close>

partial_function (option) assign_first_loop ::
    "address_pool \<Rightarrow> u32 \<Rightarrow> u32 \<Rightarrow> (int \<times> u32 \<times> address_pool) c option" where
  "assign_first_loop pool addr_buf a =
     (if a \<le> end_address pool then
        (case address_pool_get_address_allocation pool a of
           Inl e \<Rightarrow> Some (Inl e)
         | Inr alloc \<Rightarrow>
             if alloc = 0
             then Some (cbind (address_pool_set_address_allocation pool a) (\<lambda>(_, pool').
                    Inr (ALLOCATOR_OK, a, pool')))
             else assign_first_loop pool addr_buf (a + 1))
      else Some (Inr (ALLOCATOR_POOL_DEPLETED, addr_buf, pool)))"

declare assign_first_loop.simps [code]

definition allocator_assign_first_from_pool ::
    "address_pool \<Rightarrow> u32 \<Rightarrow> (int \<times> u32 \<times> address_pool) c" where
  "allocator_assign_first_from_pool pool addr_buf =
     of_loop (assign_first_loop pool addr_buf (start_address pool))"

fun request_any_loop :: "address_pool list \<Rightarrow> int \<Rightarrow> u32 \<Rightarrow> (int \<times> u32 \<times> address_pool list) c" where
  "request_any_loop [] rv addr_buf = Inr (rv, addr_buf, [])"
| "request_any_loop (pool # pools) rv addr_buf =
     (if available_addresses pool = 0 then
        if pools = [] then Inr (ALLOCATOR_POOL_DEPLETED, addr_buf, [pool])
        else cbind (request_any_loop pools rv addr_buf) (\<lambda>(rv, buf, pools'). Inr (rv, buf, pool # pools'))
      else cbind (allocator_assign_first_from_pool pool addr_buf) (\<lambda>(st, buf, pool').
        if st = 0 then Inr (rv, buf, pool' # pools)
        else cbind (request_any_loop pools rv buf) (\<lambda>(rv, buf, pools'). Inr (rv, buf, pool' # pools'))))"

definition allocator_request_any_address :: "allocator \<Rightarrow> u32 \<Rightarrow> (int \<times> u32 \<times> allocator) c" where
  "allocator_request_any_address a addr_buf =
     cbind (request_any_loop (address_pools a) ALLOCATOR_ERROR addr_buf) (\<lambda>(rv, buf, pools).
       let rv = ALLOCATOR_OK in Inr (rv, buf, a\<lparr>address_pools := pools\<rparr>))"

definition set_pool :: "allocator \<Rightarrow> nat \<Rightarrow> address_pool \<Rightarrow> allocator" where
  "set_pool a i pool = a\<lparr>address_pools := (address_pools a)[i := pool]\<rparr>"

definition allocator_request_address_from_pool ::
    "allocator \<Rightarrow> string option \<Rightarrow> u32 \<Rightarrow> (int \<times> u32 \<times> allocator) c" where
  "allocator_request_address_from_pool a name addr_buf =
     (case allocator_get_pool_by_name a name of
        None \<Rightarrow> Inr (ALLOCATOR_ERROR, addr_buf, a)
      | Some i \<Rightarrow>
          cbind (allocator_assign_first_from_pool (address_pools a ! i) addr_buf) (\<lambda>(rv, buf, pool').
            Inr (rv, buf, set_pool a i pool')))"

definition allocator_request_this_address ::
    "allocator \<Rightarrow> u32 \<Rightarrow> u32 \<Rightarrow> (int \<times> u32 \<times> allocator) c" where
  "allocator_request_this_address a requested addr_buf =
     (case allocator_get_pool_by_address a requested of
        None \<Rightarrow> Inr (ALLOCATOR_CANNOT_CREATE_LEASE, addr_buf, a)
      | Some i \<Rightarrow>
          cbind (address_pool_get_address_allocation (address_pools a ! i) requested) (\<lambda>alloc.
            if alloc = 1 then Inr (ALLOCATOR_ADDR_IN_USE, addr_buf, a)
            else cbind (address_pool_set_address_allocation (address_pools a ! i) requested) (\<lambda>(st, pool').
              if st \<noteq> 0 then Inr (ALLOCATOR_ERROR, addr_buf, set_pool a i pool')
              else Inr (ALLOCATOR_OK, requested, set_pool a i pool'))))"

definition allocator_request_this_address_str ::
    "allocator \<Rightarrow> string \<Rightarrow> u32 \<Rightarrow> (int \<times> u32 \<times> allocator) c" where
  "allocator_request_this_address_str a requested addr_buf =
     allocator_request_this_address a (ipv4_address_to_uint32 requested) addr_buf"

definition allocator_release_address :: "allocator \<Rightarrow> u32 \<Rightarrow> (int \<times> allocator) c" where
  "allocator_release_address a address =
     (case allocator_get_pool_by_address a address of
        None \<Rightarrow> Inr (ALLOCATOR_ERROR, a)
      | Some i \<Rightarrow>
          cbind (address_pool_get_address_allocation (address_pools a ! i) address) (\<lambda>alloc.
            if alloc = 0 then Inr (ALLOCATOR_ADDR_NOT_IN_USE, a)
            else cbind (address_pool_clear_address_allocation (address_pools a ! i) address) (\<lambda>(st, pool').
              if st \<noteq> 0 then Inr (ALLOCATOR_ERROR, set_pool a i pool')
              else Inr (ALLOCATOR_OK, set_pool a i pool'))))"

definition allocator_release_address_str :: "allocator \<Rightarrow> string \<Rightarrow> (int \<times> allocator) c" where
  "allocator_release_address_str a address =
     allocator_release_address a (ipv4_address_to_uint32 address)"

definition allocator_add_dhcp_option :: "allocator \<Rightarrow> dhcp_option option \<Rightarrow> int \<times> allocator" where
  "allocator_add_dhcp_option a option =
     (case option of None \<Rightarrow> (ALLOCATOR_ERROR, a)
      | Some o1 \<Rightarrow>
          if dhcp_option_retrieve (default_options a) (opt_tag o1) \<noteq> None
          then (ALLOCATOR_OPTION_DUPLICITE, a)
          else (ALLOCATOR_OK, a\<lparr>default_options := default_options a @ [o1]\<rparr>))"

text \<open>\<open>new_value\<close> is the memory the pointer argument points to, \<open>None\<close> for NULL.\<close>

definition allocator_change_dhcp_option ::
    "allocator \<Rightarrow> u32 \<Rightarrow> u8 list option \<Rightarrow> u8 \<Rightarrow> (int \<times> allocator) c" where
  "allocator_change_dhcp_option a tag new_value new_length =
     (case new_value of None \<Rightarrow> Inr (ALLOCATOR_ERROR, a)
      | Some v \<Rightarrow>
          (case find_index (\<lambda>o1. opt_tag o1 = ucast tag) (default_options a) of
             None \<Rightarrow> Inr (ALLOCATOR_OPTION_INVALID, a)
           | Some i \<Rightarrow>
               let o1 = default_options a ! i in
               cbind (memcpy (opt_value o1) 0 v (unat new_length)) (\<lambda>b.
                 Inr (ALLOCATOR_OK, a\<lparr>default_options :=
                   (default_options a)[i := o1\<lparr>opt_value := b, opt_lenght := new_length\<rparr>]\<rparr>))))"

definition allocator_is_address_available :: "allocator \<Rightarrow> u32 \<Rightarrow> bool c" where
  "allocator_is_address_available a address =
     (case allocator_get_pool_by_address a address of
        None \<Rightarrow> Inr False
      | Some i \<Rightarrow> cbind (address_pool_get_address_allocation (address_pools a ! i) address) (\<lambda>res.
                  Inr (res = 0)))"

definition allocator_is_address_available_str :: "allocator \<Rightarrow> string \<Rightarrow> bool c" where
  "allocator_is_address_available_str a address =
     allocator_is_address_available a (ipv4_address_to_uint32 address)"

section \<open>The invariant and the addresses in use\<close>

definition wf_allocator :: "allocator \<Rightarrow> bool" where
  "wf_allocator a \<longleftrightarrow> (\<forall>pool \<in> set (address_pools a). wf_pool pool)"

definition alloc_dom :: "allocator \<Rightarrow> u32 set" where
  "alloc_dom a = (\<Union>pool \<in> set (address_pools a). pool_dom pool)"

text \<open>In use is what the first pool that contains the address says.\<close>

definition alloc_used :: "allocator \<Rightarrow> u32 set" where
  "alloc_used a = {x. \<exists>i. allocator_get_pool_by_address a x = Some i \<and> x \<in> pool_used (address_pools a ! i)}"

definition pools_disjoint :: "allocator \<Rightarrow> bool" where
  "pools_disjoint a \<longleftrightarrow> (\<forall>i j. i < j \<longrightarrow> j < length (address_pools a) \<longrightarrow>
     pool_dom (address_pools a ! i) \<inter> pool_dom (address_pools a ! j) = {})"

lemma get_pool_None: "allocator_get_pool_by_address a x = None \<longleftrightarrow> x \<notin> alloc_dom a"
  by (simp add: allocator_get_pool_by_address_def find_index_None alloc_dom_def belongs_iff)

lemma get_pool_Some:
  assumes "allocator_get_pool_by_address a x = Some i"
  shows "i < length (address_pools a)" "x \<in> pool_dom (address_pools a ! i)"
  using assms by (auto simp: allocator_get_pool_by_address_def belongs_iff dest: find_index_Some)

lemma alloc_domE:
  assumes "x \<in> alloc_dom a"
  obtains i where "allocator_get_pool_by_address a x = Some i"
  using assms get_pool_None[of a x] by (cases "allocator_get_pool_by_address a x") auto

lemma wf_pool_at: "wf_allocator a \<Longrightarrow> i < length (address_pools a) \<Longrightarrow> wf_pool (address_pools a ! i)"
  by (simp add: wf_allocator_def)

lemma set_pool_simps [simp]:
  "address_pools (set_pool a i p) = (address_pools a)[i := p]"
  "default_options (set_pool a i p) = default_options a"
  by (simp_all add: set_pool_def)

lemma set_pool_facts:
  assumes i: "i < length (address_pools a)" and d: "pool_dom p = pool_dom (address_pools a ! i)"
  shows "allocator_get_pool_by_address (set_pool a i p) x = allocator_get_pool_by_address a x"
    and "alloc_dom (set_pool a i p) = alloc_dom a"
    and "wf_allocator a \<Longrightarrow> wf_pool p \<Longrightarrow> wf_allocator (set_pool a i p)"
proof -
  show get: "allocator_get_pool_by_address (set_pool a i p) x = allocator_get_pool_by_address a x" for x
    using i d by (simp add: allocator_get_pool_by_address_def find_index_cong_update belongs_iff)
  show "alloc_dom (set_pool a i p) = alloc_dom a"
    using get get_pool_None by (metis subsetI subset_antisym)
  show "wf_allocator a \<Longrightarrow> wf_pool p \<Longrightarrow> wf_allocator (set_pool a i p)"
    by (auto simp: wf_allocator_def dest!: set_update_subset_insert[THEN subsetD])
qed

lemma set_pool_used:
  assumes "allocator_get_pool_by_address a x = Some i" "pool_dom p = pool_dom (address_pools a ! i)"
    and "\<And>y. y \<noteq> x \<Longrightarrow> y \<in> pool_used p \<longleftrightarrow> y \<in> pool_used (address_pools a ! i)"
  shows "alloc_used (set_pool a i p) =
     (if x \<in> pool_used p then insert x (alloc_used a) else alloc_used a - {x})"
proof (rule set_eqI)
  fix y
  show "y \<in> alloc_used (set_pool a i p) \<longleftrightarrow>
      y \<in> (if x \<in> pool_used p then insert x (alloc_used a) else alloc_used a - {x})"
  proof (cases "allocator_get_pool_by_address a y")
    case None
    with assms(1) show ?thesis
      by (auto simp: alloc_used_def set_pool_facts(1)[OF get_pool_Some(1)[OF assms(1)] assms(2)])
  next
    case (Some j)
    with assms(1) assms(3)[of y] get_pool_Some[OF assms(1)] show ?thesis
      by (cases "j = i")
        (auto simp: alloc_used_def set_pool_facts(1)[OF get_pool_Some(1)[OF assms(1)] assms(2)])
  qed
qed

section \<open>The allocator is a table of leases\<close>

lemma request_this_ok:
  assumes wf: "wf_allocator a" and dom: "x \<in> alloc_dom a" and free: "x \<notin> alloc_used a"
  shows "\<exists>a'. allocator_request_this_address a x buf = Inr (ALLOCATOR_OK, x, a') \<and> wf_allocator a' \<and>
     alloc_dom a' = alloc_dom a \<and> alloc_used a' = insert x (alloc_used a)"
proof -
  obtain i where i: "allocator_get_pool_by_address a x = Some i" using dom by (rule alloc_domE)
  note at = get_pool_Some[OF i]
  have wfp: "wf_pool (address_pools a ! i)" using wf at(1) by (rule wf_pool_at)
  have fp: "x \<notin> pool_used (address_pools a ! i)" using free i by (simp add: alloc_used_def)
  obtain p where p: "address_pool_set_address_allocation (address_pools a ! i) x = Inr (0, p)" "wf_pool p"
    "pool_dom p = pool_dom (address_pools a ! i)" "pool_used p = insert x (pool_used (address_pools a ! i))"
    using pools.take_ok[OF wfp at(2) fp] by blast
  have "alloc_used (set_pool a i p) = insert x (alloc_used a)"
    using set_pool_used[OF i p(3)] p(4) by simp
  with i p fp at wf show ?thesis
    by (simp add: allocator_request_this_address_def get_allocation_eq[OF wfp] set_pool_facts)
qed

lemma request_this_refused:
  assumes wf: "wf_allocator a" and no: "x \<notin> alloc_dom a - alloc_used a"
  shows "allocator_request_this_address a x buf =
     Inr (if x \<in> alloc_dom a then ALLOCATOR_ADDR_IN_USE else ALLOCATOR_CANNOT_CREATE_LEASE, buf, a)"
proof (cases "x \<in> alloc_dom a")
  case True
  then obtain i where i: "allocator_get_pool_by_address a x = Some i" by (rule alloc_domE)
  with True no have "x \<in> pool_used (address_pools a ! i)" by (simp add: alloc_used_def)
  with True i get_pool_Some[OF i] wf show ?thesis
    by (simp add: allocator_request_this_address_def get_allocation_eq wf_pool_at)
next
  case False
  then have "allocator_get_pool_by_address a x = None" by (simp add: get_pool_None)
  with False show ?thesis by (simp add: allocator_request_this_address_def)
qed

lemma release_ok:
  assumes wf: "wf_allocator a" and used: "x \<in> alloc_used a"
  shows "\<exists>a'. allocator_release_address a x = Inr (ALLOCATOR_OK, a') \<and> wf_allocator a' \<and>
     alloc_dom a' = alloc_dom a \<and> alloc_used a' = alloc_used a - {x}"
proof -
  obtain i where i: "allocator_get_pool_by_address a x = Some i" and up: "x \<in> pool_used (address_pools a ! i)"
    using used by (auto simp: alloc_used_def)
  note at = get_pool_Some[OF i]
  have wfp: "wf_pool (address_pools a ! i)" using wf at(1) by (rule wf_pool_at)
  obtain p where p: "address_pool_clear_address_allocation (address_pools a ! i) x = Inr (0, p)" "wf_pool p"
    "pool_dom p = pool_dom (address_pools a ! i)" "pool_used p = pool_used (address_pools a ! i) - {x}"
    using pools.give_ok[OF wfp up] by blast
  have "alloc_used (set_pool a i p) = alloc_used a - {x}"
    using set_pool_used[OF i p(3)] p(4) by simp
  with i p up at wf show ?thesis
    by (simp add: allocator_release_address_def get_allocation_eq[OF wfp] set_pool_facts)
qed

lemma release_refused:
  assumes wf: "wf_allocator a" and no: "x \<notin> alloc_used a"
  shows "allocator_release_address a x =
     Inr (if x \<in> alloc_dom a then ALLOCATOR_ADDR_NOT_IN_USE else ALLOCATOR_ERROR, a)"
proof (cases "x \<in> alloc_dom a")
  case True
  then obtain i where i: "allocator_get_pool_by_address a x = Some i" by (rule alloc_domE)
  with no have "x \<notin> pool_used (address_pools a ! i)" by (simp add: alloc_used_def)
  with True i get_pool_Some[OF i] wf show ?thesis
    by (simp add: allocator_release_address_def get_allocation_eq wf_pool_at)
next
  case False
  then have "allocator_get_pool_by_address a x = None" by (simp add: get_pool_None)
  with False show ?thesis by (simp add: allocator_release_address_def)
qed

lemma alloc_used_dom: "alloc_used a \<subseteq> alloc_dom a"
  using get_pool_None[of a] by (force simp: alloc_used_def)

definition request_this :: "u32 \<Rightarrow> allocator \<Rightarrow> u32 \<Rightarrow> (int \<times> allocator) c" where
  "request_this buf a x = cbind (allocator_request_this_address a x buf) (\<lambda>(rv, _, a'). Inr (rv, a'))"

interpretation allocs: lease_table wf_allocator alloc_dom alloc_used "request_this buf"
  allocator_release_address for buf
proof unfold_locales
  fix s x
  assume wf: "wf_allocator s"
  show "alloc_used s \<subseteq> alloc_dom s" by (rule alloc_used_dom)
  show "\<exists>s'. request_this buf s x = Inr (0, s') \<and> wf_allocator s' \<and> alloc_dom s' = alloc_dom s \<and>
      alloc_used s' = insert x (alloc_used s)" if "x \<in> alloc_dom s" "x \<notin> alloc_used s"
    using request_this_ok[OF wf that, of buf] by (auto simp: request_this_def)
  show "\<exists>rv. request_this buf s x = Inr (rv, s) \<and> rv \<noteq> 0" if "x \<notin> alloc_dom s - alloc_used s"
    using request_this_refused[OF wf that, of buf] by (simp add: request_this_def)
  show "\<exists>rv. allocator_release_address s x = Inr (rv, s) \<and> rv \<noteq> 0" if "x \<notin> alloc_used s"
    using release_refused[OF wf that] by simp
qed (use release_ok in auto)

lemma is_available_eq:
  assumes "wf_allocator a"
  shows "allocator_is_address_available a x = Inr (x \<in> alloc_dom a - alloc_used a)"
proof (cases "x \<in> alloc_dom a")
  case True
  then obtain i where i: "allocator_get_pool_by_address a x = Some i" by (rule alloc_domE)
  with True get_pool_Some[OF i] assms show ?thesis
    by (simp add: allocator_is_address_available_def get_allocation_eq wf_pool_at alloc_used_def)
next
  case False
  then have "allocator_get_pool_by_address a x = None" by (simp add: get_pool_None)
  with False show ?thesis by (simp add: allocator_is_address_available_def)
qed

section \<open>The first free address\<close>

lemma assign_first_loop_step:
  assumes "wf_pool p" "a \<in> pool_dom p" "a \<in> pool_used p"
  shows "assign_first_loop p buf a = assign_first_loop p buf (a + 1)"
    and "unat (a + 1) = Suc (unat a)"
proof -
  show "assign_first_loop p buf a = assign_first_loop p buf (a + 1)"
    using assms by (subst assign_first_loop.simps) (simp add: get_allocation_eq pool_dom_def)
  have "a < 0xFFFFFFFF" using assms(1,2) by (auto simp: wf_pool_def pool_dom_def)
  then show "unat (a + 1) = Suc (unat a)" by (rule unat_Suc_le)
qed

lemma assign_first_loop_found:
  assumes wf: "wf_pool p" and m: "m \<in> pool_dom p" "m \<notin> pool_used p"
    and "start_address p \<le> a" "a \<le> m" and "\<And>b. a \<le> b \<Longrightarrow> b < m \<Longrightarrow> b \<in> pool_used p"
  shows "assign_first_loop p buf a =
     Some (cbind (address_pool_set_address_allocation p m) (\<lambda>(_, p'). Inr (ALLOCATOR_OK, m, p')))"
  using assms(4-)
proof (induction "unat m - unat a" arbitrary: a)
  case 0
  then have "a = m" by (simp add: word_le_nat_alt word_unat_eq_iff)
  with wf m show ?case by (subst assign_first_loop.simps) (simp add: get_allocation_eq pool_dom_def)
next
  case (Suc n)
  then have lt: "a < m" by (simp add: word_less_nat_alt)
  with Suc.prems m(1) have a: "a \<in> pool_dom p" "a \<in> pool_used p" by (auto simp: pool_dom_def)
  note step = assign_first_loop_step[OF wf a]
  have "assign_first_loop p buf (a + 1) =
     Some (cbind (address_pool_set_address_allocation p m) (\<lambda>(_, p'). Inr (ALLOCATOR_OK, m, p')))"
    using Suc.hyps(2) Suc.prems lt step(2)
    by (intro Suc.hyps(1)) (auto simp: word_le_nat_alt word_less_nat_alt)
  with step(1) show ?case by simp
qed

lemma assign_first_loop_depleted:
  assumes wf: "wf_pool p" and "start_address p \<le> a" and "\<And>b. a \<le> b \<Longrightarrow> b \<in> pool_dom p \<Longrightarrow> b \<in> pool_used p"
  shows "assign_first_loop p buf a = Some (Inr (ALLOCATOR_POOL_DEPLETED, buf, p))"
  using assms(2-)
proof (induction "Suc (unat (end_address p)) - unat a" arbitrary: a)
  case 0
  then have "\<not> a \<le> end_address p" by (simp add: word_le_nat_alt)
  then show ?case by (subst assign_first_loop.simps) simp
next
  case (Suc n)
  then have "a \<in> pool_dom p" by (simp add: pool_dom_def word_le_nat_alt)
  with Suc.prems have a: "a \<in> pool_dom p" "a \<in> pool_used p" by auto
  note step = assign_first_loop_step[OF wf a]
  have "assign_first_loop p buf (a + 1) = Some (Inr (ALLOCATOR_POOL_DEPLETED, buf, p))"
    using Suc.hyps(2) Suc.prems step(2)
    by (intro Suc.hyps(1)) (auto simp: word_le_nat_alt)
  with step(1) show ?case by simp
qed

definition first_free :: "address_pool \<Rightarrow> u32" where
  "first_free p = Min (pool_dom p - pool_used p)"

lemma first_free_in:
  assumes "pool_dom p - pool_used p \<noteq> {}"
  shows "first_free p \<in> pool_dom p" "first_free p \<notin> pool_used p"
  using Min_in[OF finite_free assms] by (auto simp: first_free_def)

lemma assign_first_eq:
  assumes wf: "wf_pool p"
  shows "allocator_assign_first_from_pool p buf =
     (if pool_dom p \<subseteq> pool_used p then Inr (ALLOCATOR_POOL_DEPLETED, buf, p)
      else cbind (address_pool_set_address_allocation p (first_free p)) (\<lambda>(_, p').
             Inr (ALLOCATOR_OK, first_free p, p')))"
proof (cases "pool_dom p \<subseteq> pool_used p")
  case True
  then show ?thesis
    using assign_first_loop_depleted[OF wf, of "start_address p" buf]
    by (auto simp: allocator_assign_first_from_pool_def)
next
  case False
  then have ne: "pool_dom p - pool_used p \<noteq> {}" by auto
  have "b \<in> pool_used p" if "start_address p \<le> b" "b < first_free p" for b
  proof (rule ccontr)
    assume "b \<notin> pool_used p"
    with that first_free_in[OF ne] have "b \<in> pool_dom p - pool_used p" by (auto simp: pool_dom_def)
    then have "first_free p \<le> b" unfolding first_free_def by (intro Min_le finite_free)
    with that(2) show False by simp
  qed
  with False first_free_in[OF ne] assign_first_loop_found[OF wf, of "first_free p" "start_address p" buf]
  show ?thesis by (simp add: allocator_assign_first_from_pool_def pool_dom_def)
qed

lemma assign_first_take:
  assumes wf: "wf_pool p" and ne: "\<not> pool_dom p \<subseteq> pool_used p"
  obtains p' where "allocator_assign_first_from_pool p buf = Inr (ALLOCATOR_OK, first_free p, p')"
    "wf_pool p'" "pool_dom p' = pool_dom p" "pool_used p' = insert (first_free p) (pool_used p)"
proof -
  have "pool_dom p - pool_used p \<noteq> {}" using ne by auto
  from pools.take_ok[OF wf first_free_in[OF this]] obtain p' where
    "address_pool_set_address_allocation p (first_free p) = Inr (0, p')" "wf_pool p'"
    "pool_dom p' = pool_dom p" "pool_used p' = insert (first_free p) (pool_used p)" by blast
  with ne show thesis by (intro that[of p']) (simp_all add: assign_first_eq[OF wf])
qed

lemma available_zero_iff: "wf_pool p \<Longrightarrow> available_addresses p = 0 \<longleftrightarrow> pool_dom p \<subseteq> pool_used p"
  by (auto simp: wf_pool_def word_unat_eq_iff[of _ 0] card_eq_0_iff finite_free)

lemma request_any_loop_depleted:
  assumes "\<forall>p \<in> set ps. wf_pool p \<and> pool_dom p \<subseteq> pool_used p"
  shows "request_any_loop ps rv buf = Inr (if ps = [] then rv else ALLOCATOR_POOL_DEPLETED, buf, ps)"
  using assms by (induction ps) (auto simp: available_zero_iff)

lemma request_any_loop_found:
  assumes "\<forall>p \<in> set ps. wf_pool p" "find_index (\<lambda>p. \<not> pool_dom p \<subseteq> pool_used p) ps = Some i"
  shows "\<exists>p'. request_any_loop ps rv buf = Inr (rv, first_free (ps ! i), ps[i := p']) \<and> wf_pool p' \<and>
     pool_dom p' = pool_dom (ps ! i) \<and> pool_used p' = insert (first_free (ps ! i)) (pool_used (ps ! i))"
  using assms
proof (induction ps arbitrary: i)
  case (Cons p ps)
  then have wf: "wf_pool p" by simp
  show ?case
  proof (cases "pool_dom p \<subseteq> pool_used p")
    case True
    with Cons.prems obtain j where j: "find_index (\<lambda>p. \<not> pool_dom p \<subseteq> pool_used p) ps = Some j" "i = Suc j"
      by auto
    then have "ps \<noteq> []" by auto
    with True wf Cons.IH[of j] Cons.prems(1) j show ?thesis
      by (auto simp: available_zero_iff)
  next
    case False
    with Cons.prems have "i = 0" by simp
    obtain p' where "allocator_assign_first_from_pool p buf = Inr (ALLOCATOR_OK, first_free p, p')"
      "wf_pool p'" "pool_dom p' = pool_dom p" "pool_used p' = insert (first_free p) (pool_used p)"
      using wf False by (rule assign_first_take)
    with \<open>i = 0\<close> False wf show ?thesis by (simp add: available_zero_iff)
  qed
qed simp

text \<open>
  With pools that do not overlap, the first pool that contains an address is the only one.
\<close>

lemma disjoint_get_pool:
  assumes "pools_disjoint a" "i < length (address_pools a)" "x \<in> pool_dom (address_pools a ! i)"
  shows "allocator_get_pool_by_address a x = Some i"
  unfolding allocator_get_pool_by_address_def
proof (rule find_index_eqI)
  show "\<not> address_belongs_to_pool (address_pools a ! j) x" if "j < i" for j
    using assms that by (fastforce simp: pools_disjoint_def belongs_iff)
qed (use assms in \<open>simp_all add: belongs_iff\<close>)

lemma request_any_found:
  assumes wf: "wf_allocator a" and disj: "pools_disjoint a" and free: "alloc_dom a - alloc_used a \<noteq> {}"
  shows "\<exists>x a'. allocator_request_any_address a buf = Inr (ALLOCATOR_OK, x, a') \<and>
     x \<in> alloc_dom a \<and> x \<notin> alloc_used a \<and> wf_allocator a' \<and> pools_disjoint a' \<and>
     alloc_dom a' = alloc_dom a \<and> alloc_used a' = insert x (alloc_used a)"
proof -
  let ?ps = "address_pools a" and ?P = "\<lambda>p. \<not> pool_dom p \<subseteq> pool_used p"
  obtain y j where y: "y \<in> alloc_dom a" "y \<notin> alloc_used a" "allocator_get_pool_by_address a y = Some j"
    using free by (metis DiffE all_not_in_conv alloc_domE)
  then have "?P (?ps ! j)" "?ps ! j \<in> set ?ps"
    using get_pool_Some[OF y(3)] by (auto simp: alloc_used_def)
  then obtain i where i: "find_index ?P ?ps = Some i"
    using find_index_None[of ?P ?ps] by (cases "find_index ?P ?ps") auto
  let ?x = "first_free (?ps ! i)"
  have il: "i < length ?ps" and ne: "pool_dom (?ps ! i) - pool_used (?ps ! i) \<noteq> {}"
    using find_index_Some[OF i] by auto
  obtain p where p: "request_any_loop ?ps ALLOCATOR_ERROR buf = Inr (ALLOCATOR_ERROR, ?x, ?ps[i := p])"
    "wf_pool p" "pool_dom p = pool_dom (?ps ! i)" "pool_used p = insert ?x (pool_used (?ps ! i))"
    using request_any_loop_found[OF _ i, of ALLOCATOR_ERROR buf] wf by (auto simp: wf_allocator_def)
  have g: "allocator_get_pool_by_address a ?x = Some i"
    using disj il first_free_in(1)[OF ne] by (rule disjoint_get_pool)
  have run: "allocator_request_any_address a buf = Inr (ALLOCATOR_OK, ?x, set_pool a i p)"
    using p(1) by (simp add: allocator_request_any_address_def set_pool_def)
  have "pools_disjoint (set_pool a i p)"
    using disj il p(3) by (simp add: pools_disjoint_def nth_list_update)
  moreover have "?x \<in> alloc_dom a" "?x \<notin> alloc_used a"
    using g first_free_in[OF ne] get_pool_None[of a ?x] by (auto simp: alloc_used_def)
  ultimately show ?thesis
    using run set_pool_facts[OF il p(3)] set_pool_used[OF g p(3)] p(2,4) wf by auto
qed

lemma request_any_depleted:
  assumes wf: "wf_allocator a" and full: "\<forall>p \<in> set (address_pools a). pool_dom p \<subseteq> pool_used p"
  shows "allocator_request_any_address a buf = Inr (ALLOCATOR_OK, buf, a)"
  using request_any_loop_depleted[of "address_pools a" ALLOCATOR_ERROR buf] assms
  by (simp add: allocator_request_any_address_def wf_allocator_def)

lemma wf_allocator_add_pool:
  assumes "wf_allocator a" "wf_pool p"
  shows "wf_allocator (snd (allocator_add_pool a (Some p)))"
  using assms by (simp add: allocator_add_pool_def wf_allocator_def)

interpretation default_opts: tagged_store "\<lambda>a o1. allocator_add_dhcp_option a (Some o1)"
  "\<lambda>a. dhcp_option_retrieve (default_options a)" opt_tag ALLOCATOR_OPTION_DUPLICITE
proof unfold_locales
  fix s :: allocator and x :: dhcp_option
  assume "dhcp_option_retrieve (default_options s) (opt_tag x) = None"
  then show "\<exists>s'. allocator_add_dhcp_option s (Some x) = (0, s') \<and>
      (\<forall>t. dhcp_option_retrieve (default_options s') t =
        (if t = opt_tag x then Some x else dhcp_option_retrieve (default_options s) t))"
    by (auto simp: allocator_add_dhcp_option_def dhcp_option_retrieve_def find_append split: option.splits)
qed (simp add: allocator_add_dhcp_option_def)

section \<open>What the operations keep\<close>

text \<open>The configuration of a pool is everything but its bitmap and counter.\<close>

definition same_pool :: "address_pool \<Rightarrow> address_pool \<Rightarrow> bool" where
  "same_pool p p' \<longleftrightarrow> pool_name p' = pool_name p \<and> start_address p' = start_address p \<and>
     end_address p' = end_address p \<and> pool_mask p' = pool_mask p \<and>
     dhcp_option_override p' = dhcp_option_override p"

definition same_config :: "allocator \<Rightarrow> allocator \<Rightarrow> bool" where
  "same_config a a' \<longleftrightarrow> default_options a' = default_options a \<and>
     list_all2 same_pool (address_pools a) (address_pools a')"

lemma same_pool_refl [simp]: "same_pool p p"
  by (simp add: same_pool_def)

lemma same_config_refl [simp]: "same_config a a"
  by (simp add: same_config_def list_all2_same)

lemma same_config_trans:
  assumes "same_config a b" "same_config b c"
  shows "same_config a c"
  using assms list_all2_trans[of same_pool same_pool same_pool] unfolding same_config_def
  by (metis same_pool_def)

lemma ctl_same_pool: "address_pool_address_allocation_ctl p x act = Inr (rv, p') \<Longrightarrow> same_pool p p'"
  by (auto simp: address_pool_address_allocation_ctl_def same_pool_def Let_def split: if_splits)

lemma set_pool_same_config:
  "i < length (address_pools a) \<Longrightarrow> same_pool (address_pools a ! i) p \<Longrightarrow> same_config a (set_pool a i p)"
  by (simp add: same_config_def list_all2_conv_all_nth nth_list_update)

lemma request_this_same_config:
  "allocator_request_this_address a x buf = Inr (rv, y, a') \<Longrightarrow> same_config a a'"
  by (auto simp: allocator_request_this_address_def address_pool_set_address_allocation_def
      split: option.splits if_splits prod.splits
      dest!: get_pool_Some(1) ctl_same_pool intro: set_pool_same_config)

lemma release_same_config: "allocator_release_address a x = Inr (rv, a') \<Longrightarrow> same_config a a'"
  by (auto simp: allocator_release_address_def address_pool_clear_address_allocation_def
      split: option.splits if_splits prod.splits
      dest!: get_pool_Some(1) ctl_same_pool intro: set_pool_same_config)

lemma assign_first_same_pool:
  assumes "wf_pool p" "allocator_assign_first_from_pool p buf = Inr (rv, x, p')"
  shows "same_pool p p'"
  using assms by (auto simp: assign_first_eq address_pool_set_address_allocation_def split: if_splits prod.splits
      dest: ctl_same_pool)

lemma request_any_loop_same:
  assumes "\<forall>p \<in> set ps. wf_pool p" "request_any_loop ps rv buf = Inr (rv', x, ps')"
  shows "list_all2 same_pool ps ps'"
  using assms
proof (induction ps arbitrary: rv buf ps')
  case (Cons p ps)
  then have wf: "wf_pool p" by simp
  show ?case
    using Cons.prems Cons.IH assign_first_same_pool[OF wf]
    by (auto split: if_splits prod.splits simp: list_all2_same)
qed simp

lemma request_any_same_config:
  assumes "wf_allocator a" "allocator_request_any_address a buf = Inr (rv, x, a')"
  shows "same_config a a'"
  using assms request_any_loop_same[of "address_pools a"]
  by (auto simp: allocator_request_any_address_def same_config_def wf_allocator_def)

lemma same_config_facts:
  assumes "same_config a a'"
  shows "alloc_dom a' = alloc_dom a"
    and "allocator_get_pool_by_address a' x = allocator_get_pool_by_address a x"
    and "pools_disjoint a' = pools_disjoint a"
    and "default_options a' = default_options a"
    and "i < length (address_pools a) \<Longrightarrow> same_pool (address_pools a ! i) (address_pools a' ! i)"
    and "length (address_pools a') = length (address_pools a)"
proof -
  have len: "length (address_pools a') = length (address_pools a)"
    and same: "\<And>i. i < length (address_pools a) \<Longrightarrow> same_pool (address_pools a ! i) (address_pools a' ! i)"
    using assms by (auto simp: same_config_def list_all2_conv_all_nth)
  have dom: "\<And>i. i < length (address_pools a) \<Longrightarrow> pool_dom (address_pools a' ! i) = pool_dom (address_pools a ! i)"
    using same by (auto simp: same_pool_def pool_dom_def)
  show get: "allocator_get_pool_by_address a' x = allocator_get_pool_by_address a x" for x
  proof (cases "allocator_get_pool_by_address a x")
    case None
    then have "\<forall>i < length (address_pools a). x \<notin> pool_dom (address_pools a ! i)"
      by (simp add: allocator_get_pool_by_address_def find_index_None belongs_iff all_set_conv_all_nth)
    then have "allocator_get_pool_by_address a' x = None"
      using dom len by (simp add: allocator_get_pool_by_address_def find_index_None belongs_iff all_set_conv_all_nth)
    with None show ?thesis by simp
  next
    case (Some i)
    then have "find_index (\<lambda>pool. address_belongs_to_pool pool x) (address_pools a') = Some i"
      using dom len find_index_Some[OF Some[unfolded allocator_get_pool_by_address_def]]
      by (intro find_index_eqI) (auto simp: belongs_iff)
    with Some show ?thesis by (simp add: allocator_get_pool_by_address_def)
  qed
  show "alloc_dom a' = alloc_dom a" using get get_pool_None by (metis subsetI subset_antisym)
  show "pools_disjoint a' = pools_disjoint a"
  proof -
    have "(pool_dom (address_pools a' ! i) \<inter> pool_dom (address_pools a' ! j) = {}) =
        (pool_dom (address_pools a ! i) \<inter> pool_dom (address_pools a ! j) = {})"
      if "i < j" "j < length (address_pools a)" for i j using that dom by simp
    then show ?thesis unfolding pools_disjoint_def len by blast
  qed
  show "default_options a' = default_options a" using assms by (simp add: same_config_def)
  show "i < length (address_pools a) \<Longrightarrow> same_pool (address_pools a ! i) (address_pools a' ! i)" by (rule same)
  show "length (address_pools a') = length (address_pools a)" by (rule len)
qed

section \<open>Properties\<close>


definition lan_pool :: address_pool where
  "lan_pool = \<lparr>pool_name = ''lan'', start_address = 0xC0A80064, end_address = 0xC0A80068,
     pool_mask = 0xFFFFFF00, leases_bm = [0], available_addresses = 5,
     dhcp_option_override = [subnet_mask_option 0xFFFFFF00]\<rparr>"

definition lan_allocator :: allocator where
  "lan_allocator = \<lparr>default_options = [], address_pools = [lan_pool]\<rparr>"

lemma lan_pool_new: "address_pool_new (Some ''lan'') 0xC0A80064 0xC0A80068 0xFFFFFF00 = Some lan_pool"
  by (simp add: address_pool_new_def can_range_be_on_subnet_def lan_pool_def pool_range_def zeros_def
      dhcp_option_add_def dhcp_option_retrieve_def)

lemma lan_pool_wf: "wf_pool lan_pool" "pool_used lan_pool = {}"
  using wf_pool_new[OF lan_pool_new] by simp_all

lemma lan_allocator_wf: "wf_allocator lan_allocator" "pools_disjoint lan_allocator"
  "alloc_dom lan_allocator = {0xC0A80064..0xC0A80068}" "alloc_used lan_allocator = {}"
proof -
  show "wf_allocator lan_allocator" "pools_disjoint lan_allocator"
    "alloc_dom lan_allocator = {0xC0A80064..0xC0A80068}"
    by (simp_all add: wf_allocator_def lan_allocator_def lan_pool_wf pools_disjoint_def alloc_dom_def pool_dom_def)
      (simp_all add: lan_pool_def)
  have "address_pools lan_allocator ! i = lan_pool" if "allocator_get_pool_by_address lan_allocator x = Some i" for x i
    using get_pool_Some(1)[OF that] by (simp add: lan_allocator_def)
  then show "alloc_used lan_allocator = {}" using lan_pool_wf(2) by (auto simp: alloc_used_def)
qed


text \<open>
  Asking for any address, with well-formed pools that do not overlap and some free
  address, succeeds: it returns an address that was not in use, marks exactly this one,
  and keeps the pools well-formed and disjoint.
\<close>

theorem request_any_gives_free:
  assumes "wf_allocator a" "pools_disjoint a" "alloc_dom a - alloc_used a \<noteq> {}"
  shows "\<exists>x a'. allocator_request_any_address a buf = Inr (ALLOCATOR_OK, x, a') \<and>
     x \<in> alloc_dom a \<and> x \<notin> alloc_used a \<and> wf_allocator a' \<and> pools_disjoint a' \<and>
     alloc_dom a' = alloc_dom a \<and> alloc_used a' = insert x (alloc_used a)"
  using assms by (rule request_any_found)

theorem request_any_gives_free_witness:
  "\<exists>x a'. allocator_request_any_address lan_allocator 0 = Inr (ALLOCATOR_OK, x, a') \<and>
     x \<in> {0xC0A80064..0xC0A80068} \<and> alloc_used a' = {x}"
  using request_any_gives_free[OF lan_allocator_wf(1,2), of 0] by (auto simp: lan_allocator_wf)

text \<open>
  When every pool is depleted the request for any address still returns success; it
  leaves the caller's buffer as it was, so the status cannot tell the two cases apart.
\<close>

theorem request_any_depleted_reports_ok:
  assumes "wf_allocator a" "\<forall>p \<in> set (address_pools a). pool_dom p \<subseteq> pool_used p"
  shows "allocator_request_any_address a buf = Inr (ALLOCATOR_OK, buf, a)"
  using assms by (rule request_any_depleted)

theorem request_any_depleted_reports_ok_witness:
  "allocator_request_any_address address_allocator_new 7 = Inr (ALLOCATOR_OK, 7, address_allocator_new)"
  using request_any_depleted_reports_ok[of address_allocator_new 7]
  by (simp add: wf_allocator_def address_allocator_new_def)

text \<open>
  Asking for an address of a named pool gives the lowest free address of the first pool
  of that name and marks it there; a depleted pool is reported as such and nothing changes.
\<close>

theorem request_from_pool_first_free:
  assumes "wf_allocator a" "allocator_get_pool_by_name a name = Some i"
  shows "\<exists>p'. allocator_request_address_from_pool a name buf =
     (if pool_dom (address_pools a ! i) \<subseteq> pool_used (address_pools a ! i)
      then Inr (ALLOCATOR_POOL_DEPLETED, buf, a)
      else Inr (ALLOCATOR_OK, first_free (address_pools a ! i), set_pool a i p')) \<and>
     (\<not> pool_dom (address_pools a ! i) \<subseteq> pool_used (address_pools a ! i) \<longrightarrow>
        wf_pool p' \<and> pool_used p' = insert (first_free (address_pools a ! i)) (pool_used (address_pools a ! i)))"
proof -
  let ?p = "address_pools a ! i"
  have i: "i < length (address_pools a)"
    using assms(2) by (auto simp: allocator_get_pool_by_name_def split: option.splits dest: find_index_Some)
  then have wf: "wf_pool ?p" using assms(1) by (rule wf_pool_at[rotated])
  show ?thesis
  proof (cases "pool_dom ?p \<subseteq> pool_used ?p")
    case True
    with assms(2) wf show ?thesis
      by (simp add: allocator_request_address_from_pool_def assign_first_eq set_pool_def)
  next
    case False
    obtain p' where "allocator_assign_first_from_pool ?p buf = Inr (ALLOCATOR_OK, first_free ?p, p')"
      "wf_pool p'" "pool_used p' = insert (first_free ?p) (pool_used ?p)"
      using wf False by (rule assign_first_take)
    with assms(2) False show ?thesis by (auto simp: allocator_request_address_from_pool_def)
  qed
qed

theorem request_from_pool_first_free_witness:
  "\<exists>p'. allocator_request_address_from_pool lan_allocator (Some ''lan'') 0 =
     Inr (ALLOCATOR_OK, first_free lan_pool, set_pool lan_allocator 0 p')"
proof -
  have "allocator_get_pool_by_name lan_allocator (Some ''lan'') = Some 0"
    by (simp add: allocator_get_pool_by_name_def lan_allocator_def lan_pool_def)
  moreover have "address_pools lan_allocator ! 0 = lan_pool" by (simp add: lan_allocator_def)
  moreover have "\<not> pool_dom lan_pool \<subseteq> pool_used lan_pool"
    by (simp add: lan_pool_wf(2) pool_dom_def) (simp add: lan_pool_def)
  ultimately show ?thesis
    using request_from_pool_first_free[OF lan_allocator_wf(1), of "Some ''lan''" 0 0] by auto
qed

text \<open>Three requests for any address, one after the other.\<close>

definition request_three :: "allocator \<Rightarrow> u32 list c" where
  "request_three a =
     cbind (allocator_request_any_address a 0) (\<lambda>(_, x, a).
     cbind (allocator_request_any_address a 0) (\<lambda>(_, y, a).
     cbind (allocator_request_any_address a 0) (\<lambda>(_, z, a). Inr [x, y, z])))"

text \<open>
  Nothing keeps two pools with different names from overlapping: both are accepted, and
  asking three times for any address hands out the first address a second time.
\<close>

theorem overlapping_pools_share_address:
  "(case allocator_add_pool address_allocator_new
       (address_pool_new (Some ''wan'') 0xC0A80064 0xC0A80065 0xFFFFFF00) of (rv1, a) \<Rightarrow>
    (case allocator_add_pool a (address_pool_new (Some ''lan'') 0xC0A80064 0xC0A80068 0xFFFFFF00) of (rv2, a) \<Rightarrow>
       (rv1, rv2, request_three a))) =
     (ALLOCATOR_OK, ALLOCATOR_OK, Inr [0xC0A80064, 0xC0A80065, 0xC0A80064])"
  by code_simp

text \<open>
  The default options are a store with one option per tag: what is found after adding a
  list of options one by one is what was there before, else the first one added with the tag.
\<close>

theorem default_options_first_wins:
  "dhcp_option_retrieve (default_options (foldl (\<lambda>a o1. snd (allocator_add_dhcp_option a (Some o1))) a os)) t =
     (case dhcp_option_retrieve (default_options a) t of Some y \<Rightarrow> Some y
      | None \<Rightarrow> List.find (\<lambda>o1. opt_tag o1 = t) os)"
  by (rule default_opts.find_add_all)

end
