(* ===== verification/Lease.thy ===== *)
theory Lease
  imports Allocator
begin

text \<open>
  The lease database (\<open>lease.c\<close>): one JSON file per pool under \<open>/etc/dhcp/lease/\<close>, an
  object whose member \<open>leases\<close> is an array of lease objects. cJSON is not part of the
  repository: its functions are the fields of the parameter \<open>api\<close>, over a type of JSON
  values, and \<open>cjson_ok\<close> states what the code relies on. The files are a map from paths
  to contents; \<open>can_open\<close> says which paths \<open>open\<close> does not refuse. Failures of \<open>read\<close>,
  \<open>write\<close>, \<open>stat\<close>, \<open>lseek\<close> and \<open>ftruncate\<close> are not modelled.
\<close>

section \<open>The cJSON functions the code calls\<close>

text \<open>
  \<open>cj_u32\<close> is \<open>cJSON_GetNumberValue\<close> of an item that may be NULL, converted to
  \<open>uint32_t\<close>, \<open>cj_u8\<close> the same converted to \<open>uint8_t\<close>; \<open>cj_is_\<close> are the tests
  \<open>cJSON_IsTrue\<close>, \<open>cJSON_IsBool\<close>, \<open>cJSON_IsString\<close> and \<open>cJSON_IsNumber\<close>; \<open>cj_items\<close> is what \<open>cJSON_ArrayForEach\<close> visits; \<open>cj_with_array j k xs\<close> is
  \<open>j\<close> with \<open>xs\<close> as the elements of its array member \<open>k\<close>, after
  \<open>cJSON_AddArrayToObject\<close>, \<open>cJSON_AddItemToArray\<close> or \<open>cJSON_DetachItemFromArray\<close>;
  \<open>cj_array xs\<close> is an array with \<open>xs\<close> added to it, \<open>cj_unformatted\<close> is
  \<open>cJSON_PrintUnformatted\<close>.
\<close>

record 'j cjson =
  cj_parse :: "string \<Rightarrow> 'j option"
  cj_print :: "'j \<Rightarrow> string"
  cj_get :: "'j \<Rightarrow> string \<Rightarrow> 'j option"
  cj_string :: "'j \<Rightarrow> string option"
  cj_u32 :: "'j option \<Rightarrow> u32"
  cj_u8 :: "'j option \<Rightarrow> u8"
  cj_is_true :: "'j \<Rightarrow> bool"
  cj_is_bool :: "'j \<Rightarrow> bool"
  cj_is_string :: "'j \<Rightarrow> bool"
  cj_is_number :: "'j \<Rightarrow> bool"
  cj_items :: "'j \<Rightarrow> 'j list"
  cj_object :: "(string \<times> 'j) list \<Rightarrow> 'j"
  cj_of_string :: "string \<Rightarrow> 'j"
  cj_of_u32 :: "u32 \<Rightarrow> 'j"
  cj_with_array :: "'j \<Rightarrow> string \<Rightarrow> 'j list \<Rightarrow> 'j"
  cj_array :: "'j list \<Rightarrow> 'j"
  cj_unformatted :: "'j \<Rightarrow> string"

definition lower_case :: "string \<Rightarrow> bool" where
  "lower_case s \<longleftrightarrow> (\<forall>c \<in> set s. \<not> ((65::nat) \<le> of_char c \<and> of_char c \<le> (90::nat)))"

text \<open>
  Documented behaviour: parsing stops after the first value and inverts printing; the
  members of an object are found by name (names are compared without case); strings and
  unsigned 32-bit numbers are kept exactly; an array has the elements put into it.
\<close>

definition cjson_ok :: "'j cjson \<Rightarrow> bool" where
  "cjson_ok api \<longleftrightarrow>
     (\<forall>j rest. cj_parse api (cj_print api j @ rest) = Some j) \<and>
     (\<forall>kvs k. distinct (map fst kvs) \<longrightarrow> (\<forall>x \<in> set (k # map fst kvs). lower_case x) \<longrightarrow>
        cj_get api (cj_object api kvs) k = map_of kvs k) \<and>
     (\<forall>s. cj_string api (cj_of_string api s) = Some s) \<and>
     (\<forall>w. cj_u32 api (Some (cj_of_u32 api w)) = w) \<and>
     (\<forall>j k xs. j = cj_object api [] \<or> cj_get api j k \<noteq> None \<longrightarrow>
        (\<exists>a. cj_get api (cj_with_array api j k xs) k = Some a \<and> cj_items api a = xs))"

section \<open>Leases\<close>

record lease =
  lease_address :: u32
  lease_subnet :: u32
  lease_pool_name :: "string option"
  lease_start :: u32
  lease_expire :: u32
  lease_xid :: u32
  lease_flags :: u8
  client_mac_address :: "u8 list"

abbreviation (input) LEASE_OK :: int where "LEASE_OK \<equiv> 0"
abbreviation (input) LEASE_EXISTS :: int where "LEASE_EXISTS \<equiv> -1"
abbreviation (input) LEASE_DOESNT_EXITS :: int where "LEASE_DOESNT_EXITS \<equiv> -2"
abbreviation (input) LEASE_INVALID_JSON :: int where "LEASE_INVALID_JSON \<equiv> -3"
abbreviation (input) LEASE_ERROR :: int where "LEASE_ERROR \<equiv> -4"

type_synonym files = "string \<rightharpoonup> string"

definition lease_new :: lease where
  "lease_new = \<lparr>lease_address = 0, lease_subnet = 0, lease_pool_name = None, lease_start = 0,
     lease_expire = 0, lease_xid = 0, lease_flags = 0, client_mac_address = zeros 6\<rparr>"

text \<open>The path, cut to the size of its buffer.\<close>

definition lease_path :: "string \<Rightarrow> string" where
  "lease_path pool = take 4095 (''/etc/dhcp/lease/'' @ pool @ ''.lease'')"

definition init_leases_file :: "'j cjson \<Rightarrow> files \<Rightarrow> string \<Rightarrow> files" where
  "init_leases_file api fs path =
     fs(path \<mapsto> cj_print api (cj_with_array api (cj_object api []) ''leases'' []))"

text \<open>The file descriptor is the path.\<close>

definition lease_open_lease_file ::
    "'j cjson \<Rightarrow> (string \<Rightarrow> bool) \<Rightarrow> files \<Rightarrow> string option \<Rightarrow> string option \<times> files" where
  "lease_open_lease_file api can_open fs pool =
     (case pool of None \<Rightarrow> (None, fs)
      | Some pool \<Rightarrow>
          let path = lease_path pool in
          if \<not> can_open path then (None, fs)
          else (case fs path of Some _ \<Rightarrow> (Some path, fs)
                | None \<Rightarrow> (Some path, init_leases_file api fs path)))"

definition lease_load_lease_file :: "'j cjson \<Rightarrow> files \<Rightarrow> string \<Rightarrow> 'j option" where
  "lease_load_lease_file api fs path = (case fs path of None \<Rightarrow> None | Some text \<Rightarrow> cj_parse api text)"

text \<open>\<open>write\<close> at the beginning of a file that is not truncated.\<close>

definition overwrite :: "files \<Rightarrow> string \<Rightarrow> string \<Rightarrow> files" where
  "overwrite fs path text = fs(path \<mapsto>
     text @ (case fs path of None \<Rightarrow> [] | Some old \<Rightarrow> drop (length text) old))"

definition lease_to_cjson :: "'j cjson \<Rightarrow> lease \<Rightarrow> 'j c" where
  "lease_to_cjson api l = cbind (uint8_array_to_mac (client_mac_address l)) (\<lambda>mac_str.
     Inr (cj_object api
       [(''address'', cj_of_string api (uint32_to_ipv4_address (lease_address l))),
        (''subnet'', cj_of_string api (uint32_to_ipv4_address (lease_subnet l))),
        (''xid'', cj_of_u32 api (lease_xid l)),
        (''lease_start'', cj_of_u32 api (lease_start l)),
        (''lease_expire'', cj_of_u32 api (lease_expire l)),
        (''flags'', cj_of_u32 api (ucast (lease_flags l))),
        (''client_mac_address'', cj_of_string api mac_str)]))"

text \<open>The string of a member; a missing one is NULL, which the scanner dereferences.\<close>

definition member_string :: "'j cjson \<Rightarrow> 'j \<Rightarrow> string \<Rightarrow> string option" where
  "member_string api j k = Option.bind (cj_get api j k) (cj_string api)"

definition member_address :: "'j cjson \<Rightarrow> 'j \<Rightarrow> string \<Rightarrow> u32 c" where
  "member_address api j k = (case member_string api j k of None \<Rightarrow> Inl Null_deref
     | Some s \<Rightarrow> Inr (ipv4_address_to_uint32 s))"

definition json_to_lease :: "'j cjson \<Rightarrow> lease \<Rightarrow> 'j \<Rightarrow> string \<Rightarrow> (int \<times> lease) c" where
  "json_to_lease api result json pname =
     cbind (member_address api json ''address'') (\<lambda>address.
     cbind (member_address api json ''subnet'') (\<lambda>subnet.
       let result = result\<lparr>lease_address := address, lease_subnet := subnet,
             lease_xid := cj_u32 api (cj_get api json ''xid''),
             lease_start := cj_u32 api (cj_get api json ''lease_start''),
             lease_expire := cj_u32 api (cj_get api json ''lease_expire''),
             lease_flags := ucast (cj_u32 api (cj_get api json ''flags'')),
             lease_pool_name := Some pname\<rparr>
       in (case member_string api json ''client_mac_address'' of
             None \<Rightarrow> Inr (LEASE_ERROR, result)
           | Some mac \<Rightarrow>
               let bytes = scan_mac mac 6 in
               if length bytes = 6 then Inr (LEASE_OK, result\<lparr>client_mac_address := bytes\<rparr>)
               else Inr (LEASE_INVALID_JSON, result))))"

text \<open>The position of the first element with the address.\<close>

fun find_lease :: "'j cjson \<Rightarrow> u32 \<Rightarrow> 'j list \<Rightarrow> nat option c" where
  "find_lease api addr [] = Inr None"
| "find_lease api addr (element # elements) =
     cbind (member_address api element ''address'') (\<lambda>cur_addr.
       if cur_addr = addr then Inr (Some 0)
       else cbind (find_lease api addr elements) (\<lambda>i. Inr (map_option Suc i)))"

definition lease_retrieve ::
    "'j cjson \<Rightarrow> (string \<Rightarrow> bool) \<Rightarrow> files \<Rightarrow> lease \<Rightarrow> u32 \<Rightarrow> string option \<Rightarrow> (int \<times> lease \<times> files) c" where
  "lease_retrieve api can_open fs result addr pname =
     (case pname of None \<Rightarrow> Inr (LEASE_ERROR, result, fs)
      | Some pool \<Rightarrow>
          (case lease_open_lease_file api can_open fs (Some pool) of
             (None, fs) \<Rightarrow> Inr (LEASE_ERROR, result, fs)
           | (Some path, fs) \<Rightarrow>
               (case Option.bind (lease_load_lease_file api fs path) (\<lambda>root. cj_get api root ''leases'') of
                  None \<Rightarrow> Inr (LEASE_ERROR, result, fs)
                | Some leases_array \<Rightarrow>
                    cbind (find_lease api addr (cj_items api leases_array)) (\<lambda>found.
                    cbind (case found of None \<Rightarrow> Inr (LEASE_DOESNT_EXITS, result)
                           | Some i \<Rightarrow> json_to_lease api result (cj_items api leases_array ! i) pool)
                      (\<lambda>(rv, result). Inr (rv, result\<lparr>lease_pool_name := Some pool\<rparr>, fs))))))"

definition lease_retrieve_address ::
    "'j cjson \<Rightarrow> (string \<Rightarrow> bool) \<Rightarrow> files \<Rightarrow> lease \<Rightarrow> u32 \<Rightarrow> address_pool list \<Rightarrow> (int \<times> lease \<times> files) c" where
  "lease_retrieve_address api can_open fs result addr pools =
     lease_retrieve api can_open fs result addr
       (map_option pool_name (List.find (\<lambda>p. address_belongs_to_pool p addr) pools))"

definition lease_add ::
    "'j cjson \<Rightarrow> (string \<Rightarrow> bool) \<Rightarrow> files \<Rightarrow> lease \<Rightarrow> (int \<times> files) c" where
  "lease_add api can_open fs l =
     (case lease_pool_name l of None \<Rightarrow> Inr (LEASE_ERROR, fs)
      | Some pool \<Rightarrow>
          cbind (lease_to_cjson api l) (\<lambda>new_lease_json.
          case lease_open_lease_file api can_open fs (Some pool) of
            (None, fs) \<Rightarrow> Inr (LEASE_ERROR, fs)
          | (Some path, fs) \<Rightarrow>
              (case lease_load_lease_file api fs path of None \<Rightarrow> Inr (LEASE_ERROR, fs)
               | Some root \<Rightarrow>
                   (case cj_get api root ''leases'' of None \<Rightarrow> Inr (LEASE_ERROR, fs)
                    | Some leases_array \<Rightarrow>
                        let root = cj_with_array api root ''leases'' (cj_items api leases_array @ [new_lease_json])
                        in Inr (LEASE_OK, overwrite fs path (cj_print api root))))))"

definition remove_nth :: "nat \<Rightarrow> 'a list \<Rightarrow> 'a list" where
  "remove_nth i xs = take i xs @ drop (Suc i) xs"

text \<open>\<open>lease_remove\<close> truncates the file before it writes.\<close>

definition lease_remove ::
    "'j cjson \<Rightarrow> (string \<Rightarrow> bool) \<Rightarrow> files \<Rightarrow> lease \<Rightarrow> (int \<times> files) c" where
  "lease_remove api can_open fs l =
     (case lease_open_lease_file api can_open fs (lease_pool_name l) of
        (None, fs) \<Rightarrow> Inr (LEASE_ERROR, fs)
      | (Some path, fs) \<Rightarrow>
          (case lease_load_lease_file api fs path of None \<Rightarrow> Inr (LEASE_ERROR, fs)
           | Some root \<Rightarrow>
               (case cj_get api root ''leases'' of None \<Rightarrow> Inr (LEASE_ERROR, fs)
                | Some leases_array \<Rightarrow>
                    cbind (find_lease api (lease_address l) (cj_items api leases_array)) (\<lambda>found.
                      case found of
                        None \<Rightarrow> Inr (LEASE_DOESNT_EXITS, fs(path \<mapsto> cj_print api root))
                      | Some i \<Rightarrow>
                          let root = cj_with_array api root ''leases'' (remove_nth i (cj_items api leases_array))
                          in Inr (LEASE_OK, fs(path \<mapsto> cj_print api root))))))"

definition lease_remove_address_pool ::
    "'j cjson \<Rightarrow> (string \<Rightarrow> bool) \<Rightarrow> files \<Rightarrow> u32 \<Rightarrow> string option \<Rightarrow> (int \<times> files) c" where
  "lease_remove_address_pool api can_open fs address pool =
     (case pool of None \<Rightarrow> Inr (LEASE_ERROR, fs)
      | Some _ \<Rightarrow> lease_remove api can_open fs (lease_new\<lparr>lease_address := address, lease_pool_name := pool\<rparr>))"

text \<open>
  The loop of \<open>load_pool_leases\<close>. A lease that does not convert is logged only; the loop
  goes on with what is in \<open>lease\<close>.
\<close>

fun load_leases_loop ::
    "'j cjson \<Rightarrow> (string \<Rightarrow> bool) \<Rightarrow> u32 \<Rightarrow> 'j list \<Rightarrow> lease \<Rightarrow> address_pool \<Rightarrow> files \<Rightarrow>
     (address_pool \<times> files) c" where
  "load_leases_loop api can_open now [] l pool fs = Inr (pool, fs)"
| "load_leases_loop api can_open now (element # elements) l pool fs =
     cbind (json_to_lease api l element (pool_name pool)) (\<lambda>(_, l).
       if lease_expire l \<le> now then
         cbind (lease_remove api can_open fs l) (\<lambda>(_, fs).
           load_leases_loop api can_open now elements l pool fs)
       else
         cbind (address_pool_set_address_allocation pool (lease_address l)) (\<lambda>(_, pool).
           load_leases_loop api can_open now elements l pool fs))"

definition load_pool_leases ::
    "'j cjson \<Rightarrow> (string \<Rightarrow> bool) \<Rightarrow> u32 \<Rightarrow> address_pool \<Rightarrow> files \<Rightarrow> (int \<times> address_pool \<times> files) c" where
  "load_pool_leases api can_open now pool fs =
     (case lease_open_lease_file api can_open fs (Some (pool_name pool)) of
        (None, fs) \<Rightarrow> Inr (-1, pool, fs)
      | (Some path, fs) \<Rightarrow>
          (case Option.bind (lease_load_lease_file api fs path) (\<lambda>root. cj_get api root ''leases'') of
             None \<Rightarrow> Inr (-1, pool, fs)
           | Some leases_array \<Rightarrow>
               cbind (load_leases_loop api can_open now (cj_items api leases_array) lease_new pool fs)
                 (\<lambda>(pool, fs). Inr (0, pool, fs))))"

fun load_each_pool ::
    "'j cjson \<Rightarrow> (string \<Rightarrow> bool) \<Rightarrow> u32 \<Rightarrow> address_pool list \<Rightarrow> files \<Rightarrow> (address_pool list \<times> files) c" where
  "load_each_pool api can_open now [] fs = Inr ([], fs)"
| "load_each_pool api can_open now (pool # pools) fs =
     cbind (load_pool_leases api can_open now pool fs) (\<lambda>(_, pool, fs).
     cbind (load_each_pool api can_open now pools fs) (\<lambda>(pools, fs). Inr (pool # pools, fs)))"

definition init_load_persisten_leases ::
    "'j cjson \<Rightarrow> (string \<Rightarrow> bool) \<Rightarrow> u32 \<Rightarrow> allocator \<Rightarrow> files \<Rightarrow> (int \<times> allocator \<times> files) c" where
  "init_load_persisten_leases api can_open now a fs =
     cbind (load_each_pool api can_open now (address_pools a) fs) (\<lambda>(pools, fs).
       Inr (0, a\<lparr>address_pools := pools\<rparr>, fs))"

section \<open>The leases a file holds\<close>

definition wf_lease :: "string \<Rightarrow> lease \<Rightarrow> bool" where
  "wf_lease pool l \<longleftrightarrow> length (client_mac_address l) = 6 \<and> lease_pool_name l = Some pool"

definition lease_json :: "'j cjson \<Rightarrow> lease \<Rightarrow> 'j" where
  "lease_json api l = (case lease_to_cjson api l of Inr j \<Rightarrow> j | Inl _ \<Rightarrow> cj_object api [])"

text \<open>The file of a pool holds a list of leases; a file that does not exist holds none.\<close>

definition holds :: "'j cjson \<Rightarrow> files \<Rightarrow> string \<Rightarrow> lease list \<Rightarrow> bool" where
  "holds api fs pool ls \<longleftrightarrow> (\<forall>l \<in> set ls. wf_lease pool l) \<and>
     (case fs (lease_path pool) of None \<Rightarrow> ls = []
      | Some text \<Rightarrow> \<exists>root arr. cj_parse api text = Some root \<and> cj_get api root ''leases'' = Some arr \<and>
          cj_items api arr = map (lease_json api) ls)"

lemma wf_lease_mac:
  assumes "wf_lease pool l"
  obtains s where "uint8_array_to_mac (client_mac_address l) = Inr s" "scan_mac s 6 = client_mac_address l"
proof -
  obtain a b c d e f where m: "client_mac_address l = [a, b, c, d, e, f]"
    using assms by (auto simp: wf_lease_def intro: length_6_cases)
  show thesis
    by (rule that[of "hex2 a @ '':'' @ hex2 b @ '':'' @ hex2 c @ '':'' @ hex2 d @ '':'' @ hex2 e @ '':'' @ hex2 f"])
      (simp_all only: m mac_string_untruncated scan_mac_string)
qed

lemma ipv4_string_inverse: "ipv4_address_to_uint32 (uint32_to_ipv4_address a) = a"
  by (simp only: ipv4_address_to_uint32_def scan_ipv4_string option.case prod.case ipv4_octets)

lemma lease_keys_lower:
  "lower_case ''address''" "lower_case ''subnet''" "lower_case ''xid''" "lower_case ''lease_start''"
  "lower_case ''lease_expire''" "lower_case ''flags''" "lower_case ''client_mac_address''"
  by (simp_all add: lower_case_def)

text \<open>The members of the object of a lease.\<close>

lemma lease_json_get:
  assumes ok: "cjson_ok api" and wf: "wf_lease pool l"
  obtains s where "lease_to_cjson api l = Inr (lease_json api l)" "scan_mac s 6 = client_mac_address l"
    "cj_get api (lease_json api l) ''address'' = Some (cj_of_string api (uint32_to_ipv4_address (lease_address l)))"
    "cj_get api (lease_json api l) ''subnet'' = Some (cj_of_string api (uint32_to_ipv4_address (lease_subnet l)))"
    "cj_get api (lease_json api l) ''xid'' = Some (cj_of_u32 api (lease_xid l))"
    "cj_get api (lease_json api l) ''lease_start'' = Some (cj_of_u32 api (lease_start l))"
    "cj_get api (lease_json api l) ''lease_expire'' = Some (cj_of_u32 api (lease_expire l))"
    "cj_get api (lease_json api l) ''flags'' = Some (cj_of_u32 api (ucast (lease_flags l)))"
    "cj_get api (lease_json api l) ''client_mac_address'' = Some (cj_of_string api s)"
proof -
  obtain s where s: "uint8_array_to_mac (client_mac_address l) = Inr s" "scan_mac s 6 = client_mac_address l"
    using wf by (rule wf_lease_mac)
  let ?kvs = "[(''address'', cj_of_string api (uint32_to_ipv4_address (lease_address l))),
        (''subnet'', cj_of_string api (uint32_to_ipv4_address (lease_subnet l))),
        (''xid'', cj_of_u32 api (lease_xid l)),
        (''lease_start'', cj_of_u32 api (lease_start l)),
        (''lease_expire'', cj_of_u32 api (lease_expire l)),
        (''flags'', cj_of_u32 api (ucast (lease_flags l))),
        (''client_mac_address'', cj_of_string api s)]"
  have j: "lease_to_cjson api l = Inr (cj_object api ?kvs)" "lease_json api l = cj_object api ?kvs"
    using s(1) by (simp_all add: lease_to_cjson_def lease_json_def)
  have get: "cj_get api (cj_object api ?kvs) k = map_of ?kvs k" if "lower_case k" for k
  proof -
    have "distinct (map fst ?kvs)" "\<forall>x \<in> set (k # map fst ?kvs). lower_case x"
      using that lease_keys_lower by simp_all
    with ok show ?thesis unfolding cjson_ok_def by blast
  qed
  show thesis
    by (rule that[OF _ s(2)]) (simp_all only: j get lease_keys_lower, simp_all)
qed

lemma json_lease_inverse:
  assumes ok: "cjson_ok api" and wf: "wf_lease pool l"
  shows "json_to_lease api r (lease_json api l) pool = Inr (LEASE_OK, l)"
    and "member_address api (lease_json api l) ''address'' = Inr (lease_address l)"
proof -
  have vals: "cj_string api (cj_of_string api s) = Some s" "cj_u32 api (Some (cj_of_u32 api w)) = w" for s w
    using ok by (simp_all add: cjson_ok_def)
  obtain s where s: "scan_mac s 6 = client_mac_address l"
    "cj_get api (lease_json api l) ''address'' = Some (cj_of_string api (uint32_to_ipv4_address (lease_address l)))"
    "cj_get api (lease_json api l) ''subnet'' = Some (cj_of_string api (uint32_to_ipv4_address (lease_subnet l)))"
    "cj_get api (lease_json api l) ''xid'' = Some (cj_of_u32 api (lease_xid l))"
    "cj_get api (lease_json api l) ''lease_start'' = Some (cj_of_u32 api (lease_start l))"
    "cj_get api (lease_json api l) ''lease_expire'' = Some (cj_of_u32 api (lease_expire l))"
    "cj_get api (lease_json api l) ''flags'' = Some (cj_of_u32 api (ucast (lease_flags l)))"
    "cj_get api (lease_json api l) ''client_mac_address'' = Some (cj_of_string api s)"
    using ok wf by (rule lease_json_get)
  then show "member_address api (lease_json api l) ''address'' = Inr (lease_address l)"
    by (simp add: member_address_def member_string_def vals ipv4_string_inverse)
  from s wf show "json_to_lease api r (lease_json api l) pool = Inr (LEASE_OK, l)"
    by (simp add: json_to_lease_def member_address_def member_string_def vals ipv4_string_inverse wf_lease_def)
qed

lemma find_lease_eq:
  assumes "cjson_ok api" "\<forall>l \<in> set ls. wf_lease pool l"
  shows "find_lease api addr (map (lease_json api) ls) = Inr (find_index (\<lambda>l. lease_address l = addr) ls)"
  using assms(2) by (induction ls) (simp_all add: json_lease_inverse(2)[OF assms(1), of pool])

text \<open>Opening and loading the file of a pool.\<close>

lemma open_load:
  assumes ok: "cjson_ok api" and h: "holds api fs pool ls" and co: "can_open (lease_path pool)"
  obtains fs' root arr where
    "lease_open_lease_file api can_open fs (Some pool) = (Some (lease_path pool), fs')"
    "lease_load_lease_file api fs' (lease_path pool) = Some root" "cj_get api root ''leases'' = Some arr"
    "cj_items api arr = map (lease_json api) ls" "\<forall>q. q \<noteq> lease_path pool \<longrightarrow> fs' q = fs q"
    "holds api fs' pool ls"
proof (cases "fs (lease_path pool)")
  case (Some content)
  then obtain root arr where "cj_parse api content = Some root" "cj_get api root ''leases'' = Some arr"
    "cj_items api arr = map (lease_json api) ls" using h by (auto simp: holds_def)
  with Some h co show thesis
    by (intro that[of fs root arr]) (simp_all add: lease_open_lease_file_def lease_load_lease_file_def Let_def)
next
  case None
  then have ls: "ls = []" using h by (simp add: holds_def)
  let ?root = "cj_with_array api (cj_object api []) ''leases'' []"
  obtain arr where arr: "cj_get api ?root ''leases'' = Some arr" "cj_items api arr = []"
    using ok unfolding cjson_ok_def by blast
  have "cj_parse api (cj_print api ?root @ []) = Some ?root" using ok unfolding cjson_ok_def by blast
  then have p: "cj_parse api (cj_print api ?root) = Some ?root" by simp
  show thesis
    using None co p arr ls
    by (intro that[of "init_leases_file api fs (lease_path pool)" ?root arr])
      (simp_all add: lease_open_lease_file_def lease_load_lease_file_def init_leases_file_def Let_def holds_def)
qed

text \<open>Writing a root with other elements back.\<close>

lemma holds_written:
  assumes ok: "cjson_ok api" and root: "cj_get api root ''leases'' = Some arr" and wf: "\<forall>l \<in> set ls. wf_lease pool l"
  shows "holds api (fs(lease_path pool \<mapsto>
     cj_print api (cj_with_array api root ''leases'' (map (lease_json api) ls)) @ rest)) pool ls"
proof -
  let ?root = "cj_with_array api root ''leases'' (map (lease_json api) ls)"
  have "cj_get api root ''leases'' \<noteq> None" using root by simp
  then obtain a where "cj_get api ?root ''leases'' = Some a" "cj_items api a = map (lease_json api) ls"
    using ok unfolding cjson_ok_def by blast
  moreover have "cj_parse api (cj_print api ?root @ rest) = Some ?root" using ok unfolding cjson_ok_def by blast
  ultimately show ?thesis using wf by (simp add: holds_def)
qed

lemma lease_add_eq:
  assumes ok: "cjson_ok api" and h: "holds api fs pool ls" and co: "can_open (lease_path pool)"
    and wf: "wf_lease pool l"
  shows "\<exists>fs'. lease_add api can_open fs l = Inr (LEASE_OK, fs') \<and> holds api fs' pool (ls @ [l]) \<and>
     (\<forall>q. q \<noteq> lease_path pool \<longrightarrow> fs' q = fs q)"
proof -
  obtain fs' root arr where o1:
    "lease_open_lease_file api can_open fs (Some pool) = (Some (lease_path pool), fs')"
    "lease_load_lease_file api fs' (lease_path pool) = Some root" "cj_get api root ''leases'' = Some arr"
    "cj_items api arr = map (lease_json api) ls" "\<forall>q. q \<noteq> lease_path pool \<longrightarrow> fs' q = fs q"
    "holds api fs' pool ls"
    using ok h co by (rule open_load)
  have j: "lease_to_cjson api l = Inr (lease_json api l)" using ok wf by (rule lease_json_get)
  have p: "lease_pool_name l = Some pool" using wf by (simp add: wf_lease_def)
  have "\<forall>x \<in> set (ls @ [l]). wf_lease pool x" using h wf by (simp add: holds_def)
  from holds_written[OF ok o1(3) this] show ?thesis
    using o1 j p by (simp add: lease_add_def overwrite_def Let_def)
qed

lemma remove_nth_map: "remove_nth i (map f xs) = map f (remove_nth i xs)"
  by (simp add: remove_nth_def take_map drop_map)

lemma set_remove_nth: "set (remove_nth i xs) \<subseteq> set xs"
  by (auto simp: remove_nth_def dest: in_set_takeD in_set_dropD)

lemma lease_remove_eq:
  assumes ok: "cjson_ok api" and h: "holds api fs pool ls" and co: "can_open (lease_path pool)"
    and p: "lease_pool_name l = Some pool"
  shows "\<exists>fs'. lease_remove api can_open fs l =
       Inr (if \<exists>x \<in> set ls. lease_address x = lease_address l then LEASE_OK else LEASE_DOESNT_EXITS, fs') \<and>
     holds api fs' pool (case find_index (\<lambda>x. lease_address x = lease_address l) ls of None \<Rightarrow> ls
       | Some i \<Rightarrow> remove_nth i ls) \<and>
     (\<forall>q. q \<noteq> lease_path pool \<longrightarrow> fs' q = fs q)"
proof -
  obtain fs' root arr where o1:
    "lease_open_lease_file api can_open fs (Some pool) = (Some (lease_path pool), fs')"
    "lease_load_lease_file api fs' (lease_path pool) = Some root" "cj_get api root ''leases'' = Some arr"
    "cj_items api arr = map (lease_json api) ls" "\<forall>q. q \<noteq> lease_path pool \<longrightarrow> fs' q = fs q"
    "holds api fs' pool ls"
    using ok h co by (rule open_load)
  have wf: "\<forall>x \<in> set ls. wf_lease pool x" using h by (simp add: holds_def)
  show ?thesis
  proof (cases "find_index (\<lambda>x. lease_address x = lease_address l) ls")
    case None
    have "cj_parse api (cj_print api root @ []) = Some root" using ok unfolding cjson_ok_def by blast
    then have "holds api (fs'(lease_path pool \<mapsto> cj_print api root)) pool ls"
      using o1(3,4) wf by (simp add: holds_def)
    moreover have "\<not> (\<exists>x \<in> set ls. lease_address x = lease_address l)"
      using None by (simp add: find_index_None)
    ultimately show ?thesis using None o1 p find_lease_eq[OF ok wf] by (simp add: lease_remove_def)
  next
    case (Some i)
    have "\<forall>x \<in> set (remove_nth i ls). wf_lease pool x" using wf set_remove_nth by fastforce
    from holds_written[OF ok o1(3) this, of fs' "[]"]
    have "holds api (fs'(lease_path pool \<mapsto>
        cj_print api (cj_with_array api root ''leases'' (remove_nth i (cj_items api arr))))) pool (remove_nth i ls)"
      by (simp add: o1(4) remove_nth_map)
    moreover have "\<exists>x \<in> set ls. lease_address x = lease_address l"
      using find_index_Some[OF Some] by (metis nth_mem)
    ultimately show ?thesis using Some o1 p find_lease_eq[OF ok wf] by (simp add: lease_remove_def)
  qed
qed

lemma lease_retrieve_eq:
  assumes ok: "cjson_ok api" and h: "holds api fs pool ls" and co: "can_open (lease_path pool)"
  shows "\<exists>fs'. lease_retrieve api can_open fs r addr (Some pool) =
       (case List.find (\<lambda>x. lease_address x = addr) ls of
          None \<Rightarrow> Inr (LEASE_DOESNT_EXITS, r\<lparr>lease_pool_name := Some pool\<rparr>, fs')
        | Some l \<Rightarrow> Inr (LEASE_OK, l, fs')) \<and>
     holds api fs' pool ls \<and> (\<forall>q. q \<noteq> lease_path pool \<longrightarrow> fs' q = fs q)"
proof -
  obtain fs' root arr where o1:
    "lease_open_lease_file api can_open fs (Some pool) = (Some (lease_path pool), fs')"
    "lease_load_lease_file api fs' (lease_path pool) = Some root" "cj_get api root ''leases'' = Some arr"
    "cj_items api arr = map (lease_json api) ls" "\<forall>q. q \<noteq> lease_path pool \<longrightarrow> fs' q = fs q"
    "holds api fs' pool ls"
    using ok h co by (rule open_load)
  have wf: "\<forall>x \<in> set ls. wf_lease pool x" using h by (simp add: holds_def)
  show ?thesis
  proof (cases "find_index (\<lambda>x. lease_address x = addr) ls")
    case None
    then have "List.find (\<lambda>x. lease_address x = addr) ls = None" by (simp add: find_index_None find_None_iff)
    with None o1 find_lease_eq[OF ok wf] show ?thesis by (simp add: lease_retrieve_def)
  next
    case (Some i)
    note i = find_index_Some[OF Some]
    then have f: "List.find (\<lambda>x. lease_address x = addr) ls = Some (ls ! i)"
      unfolding find_Some_iff by blast
    have w: "wf_lease pool (ls ! i)" using wf i by simp
    then have "(ls ! i)\<lparr>lease_pool_name := Some pool\<rparr> = ls ! i" by (simp add: wf_lease_def)
    with Some f i o1 find_lease_eq[OF ok wf] json_lease_inverse(1)[OF ok w] show ?thesis
      by (simp add: lease_retrieve_def)
  qed
qed

section \<open>Loading the leases of a pool\<close>

lemma set_allocation_used:
  assumes "wf_pool p"
  obtains rv p' where "address_pool_set_address_allocation p x = Inr (rv, p')" "wf_pool p'"
    "pool_dom p' = pool_dom p" "pool_used p' = pool_used p \<union> ({x} \<inter> pool_dom p)" "pool_name p' = pool_name p"
proof (cases "x \<in> pool_dom p - pool_used p")
  case True
  with assms obtain p' where p': "address_pool_set_address_allocation p x = Inr (0, p')" "wf_pool p'"
    "pool_dom p' = pool_dom p" "pool_used p' = insert x (pool_used p)"
    using pools.take_ok[OF assms, of x] by auto
  moreover have "pool_name p' = pool_name p"
    using p'(1) ctl_eq(1)[OF assms, of x] True by (auto split: if_splits)
  ultimately show thesis using True by (intro that[of 0 p']) auto
next
  case False
  with pools.take_refused[OF assms False] assms show thesis
    by (auto intro!: that)
qed

definition live :: "u32 \<Rightarrow> lease \<Rightarrow> bool" where
  "live now l \<longleftrightarrow> now < lease_expire l"

lemma find_index_middle:
  "P y \<Longrightarrow> \<forall>x \<in> set xs. \<not> P x \<Longrightarrow> find_index P (xs @ y # ys) = Some (length xs)"
  by (induction xs) auto

lemma remove_nth_middle: "remove_nth (length xs) (xs @ y # ys) = xs @ ys"
  by (simp add: remove_nth_def)

lemma load_leases_loop_eq:
  assumes ok: "cjson_ok api" and co: "can_open (lease_path pool)"
    and "distinct (map lease_address (ps @ rs))" "\<forall>l \<in> set (ps @ rs). wf_lease pool l"
    and "holds api fs pool (filter (live now) ps @ rs)" "wf_pool p" "pool_name p = pool"
  shows "\<exists>p' fs'. load_leases_loop api can_open now (map (lease_json api) rs) l p fs = Inr (p', fs') \<and>
     wf_pool p' \<and> pool_dom p' = pool_dom p \<and> pool_name p' = pool \<and>
     pool_used p' = pool_used p \<union> (lease_address ` set (filter (live now) rs) \<inter> pool_dom p) \<and>
     holds api fs' pool (filter (live now) (ps @ rs)) \<and> (\<forall>q. q \<noteq> lease_path pool \<longrightarrow> fs' q = fs q)"
  using assms(3-)
proof (induction rs arbitrary: ps l p fs)
  case (Cons r rs)
  have w: "wf_lease pool r" using Cons.prems(2) by simp
  have name: "pool_name p = pool" by (rule Cons.prems(5))
  note conv = json_lease_inverse(1)[OF ok w, of l]
  show ?case
  proof (cases "live now r")
    case True
    obtain rv p1 where p1: "address_pool_set_address_allocation p (lease_address r) = Inr (rv, p1)" "wf_pool p1"
      "pool_dom p1 = pool_dom p" "pool_used p1 = pool_used p \<union> ({lease_address r} \<inter> pool_dom p)"
      "pool_name p1 = pool_name p"
      using Cons.prems(4) by (rule set_allocation_used)
    have "load_leases_loop api can_open now (map (lease_json api) (r # rs)) l p fs =
        load_leases_loop api can_open now (map (lease_json api) rs) r p1 fs"
      using True conv p1(1) name by (simp add: live_def not_le[symmetric])
    with Cons.IH[of "ps @ [r]" fs p1 r] Cons.prems p1 True show ?thesis by (auto simp: name)
  next
    case False
    let ?xs = "filter (live now) ps"
    have "\<forall>x \<in> set ?xs. lease_address x \<noteq> lease_address r" using Cons.prems(1) by (auto simp: image_iff)
    then have idx: "find_index (\<lambda>x. lease_address x = lease_address r) (?xs @ r # rs) = Some (length ?xs)"
      by (intro find_index_middle) auto
    have rp: "lease_pool_name r = Some pool" using w by (simp add: wf_lease_def)
    obtain fs1 where fs1: "lease_remove api can_open fs r = Inr (LEASE_OK, fs1)"
      "holds api fs1 pool (?xs @ rs)" "\<forall>q. q \<noteq> lease_path pool \<longrightarrow> fs1 q = fs q"
      using lease_remove_eq[where can_open = can_open, OF ok Cons.prems(3) co rp] by (auto simp: idx remove_nth_middle)
    have "load_leases_loop api can_open now (map (lease_json api) (r # rs)) l p fs =
        load_leases_loop api can_open now (map (lease_json api) rs) r p fs1"
      using False conv fs1(1) name by (simp add: live_def not_less)
    with Cons.IH[of "ps @ [r]" fs1 p r] Cons.prems fs1 False show ?thesis by auto
  qed
qed simp

lemma load_pool_leases_eq:
  assumes "cjson_ok api" "can_open (lease_path (pool_name p))" "holds api fs (pool_name p) ls" "wf_pool p"
    "distinct (map lease_address ls)"
  shows "\<exists>p' fs'. load_pool_leases api can_open now p fs = Inr (0, p', fs') \<and> wf_pool p' \<and>
     pool_dom p' = pool_dom p \<and>
     pool_used p' = pool_used p \<union> (lease_address ` set (filter (live now) ls) \<inter> pool_dom p) \<and>
     holds api fs' (pool_name p) (filter (live now) ls)"
proof -
  let ?pool = "pool_name p"
  obtain fs1 root arr where o1:
    "lease_open_lease_file api can_open fs (Some ?pool) = (Some (lease_path ?pool), fs1)"
    "lease_load_lease_file api fs1 (lease_path ?pool) = Some root" "cj_get api root ''leases'' = Some arr"
    "cj_items api arr = map (lease_json api) ls" "\<forall>q. q \<noteq> lease_path ?pool \<longrightarrow> fs1 q = fs q"
    "holds api fs1 ?pool ls"
    using assms(1,3,2) by (rule open_load)
  have "\<forall>l \<in> set ls. wf_lease ?pool l" using assms(3) by (simp add: holds_def)
  with load_leases_loop_eq[of api can_open ?pool "[]" ls fs1 now p lease_new] assms(1,2) assms(4,5) o1 show ?thesis
    by (auto simp: load_pool_leases_def)
qed

section \<open>A stand-in for cJSON\<close>

text \<open>
  Functions on strings that have the behaviour \<open>cjson_ok\<close> states: a list of strings is
  written with every character marked by a \<open>c\<close>, every string closed by an \<open>e\<close> and the
  list by a \<open>z\<close>; an object is the list of its names and values in turn.
\<close>

fun write_list :: "string list \<Rightarrow> string" where
  "write_list [] = ''z''"
| "write_list (x # xs) = concat (map (\<lambda>c. [CHR ''c'', c]) x) @ CHR ''e'' # write_list xs"

fun read_list :: "string \<Rightarrow> string \<Rightarrow> string list \<times> string" where
  "read_list cur [] = ([], [])"
| "read_list cur [c] = (if c = CHR ''e'' then ([cur], []) else ([], []))"
| "read_list cur (c # d # s) =
     (if c = CHR ''z'' then ([], d # s)
      else if c = CHR ''e'' then (case read_list [] (d # s) of (xs, r) \<Rightarrow> (cur # xs, r))
      else read_list (cur @ [d]) s)"

fun lookup_pairs :: "string list \<Rightarrow> string \<Rightarrow> string option" where
  "lookup_pairs (k # v # kvs) k' = (if k = k' then Some v else lookup_pairs kvs k')"
| "lookup_pairs _ k' = None"

definition plain_json :: "string cjson" where
  "plain_json = \<lparr>
     cj_parse = (\<lambda>s. case fst (read_list [] s) of [] \<Rightarrow> None | j # _ \<Rightarrow> Some j),
     cj_print = (\<lambda>j. write_list [j]),
     cj_get = (\<lambda>j. lookup_pairs (fst (read_list [] j))),
     cj_string = Some,
     cj_u32 = (\<lambda>j. case j of None \<Rightarrow> 0 | Some s \<Rightarrow> ipv4_address_to_uint32 s),
     cj_u8 = (\<lambda>j. case j of None \<Rightarrow> 0 | Some s \<Rightarrow> ucast (ipv4_address_to_uint32 s)),
     cj_is_true = (\<lambda>j. j = ''true''),
     cj_is_bool = (\<lambda>j. j = ''true'' \<or> j = ''false''),
     cj_is_string = (\<lambda>_. True),
     cj_is_number = (\<lambda>_. True),
     cj_items = (\<lambda>j. fst (read_list [] j)),
     cj_object = (\<lambda>kvs. write_list (concat (map (\<lambda>(k, v). [k, v]) kvs))),
     cj_of_string = (\<lambda>s. s),
     cj_of_u32 = uint32_to_ipv4_address,
     cj_with_array = (\<lambda>j k xs. write_list (k # write_list xs # fst (read_list [] j))),
     cj_array = write_list, cj_unformatted = (\<lambda>j. write_list [j])\<rparr>"

lemma read_chars:
  "s \<noteq> [] \<Longrightarrow> read_list cur (concat (map (\<lambda>c. [CHR ''c'', c]) x) @ s) = read_list (cur @ x) s"
  by (induction x arbitrary: cur) auto

lemma read_write: "fst (read_list [] (write_list xs @ r)) = xs"
proof (induction xs)
  case Nil
  show ?case by (cases r) auto
next
  case (Cons x xs)
  have ne: "write_list xs @ r \<noteq> []" by (cases xs) auto
  have "read_list cur (CHR ''e'' # t) = (case read_list [] t of (xs, r) \<Rightarrow> (cur # xs, r))" if "t \<noteq> []" for cur t
    using that by (cases t) auto
  with Cons ne read_chars[of "CHR ''e'' # write_list xs @ r" "[]" x] show ?case
    by (auto split: prod.splits)
qed

lemma lookup_pairs_map_of: "lookup_pairs (concat (map (\<lambda>(k, v). [k, v]) kvs)) k = map_of kvs k"
  by (induction kvs) auto

lemma plain_json_ok: "cjson_ok plain_json"
  using read_write[of _ "[]"]
  by (simp add: cjson_ok_def plain_json_def read_write lookup_pairs_map_of ipv4_string_inverse
      del: write_list.simps)

lemma plain_json_simps [simp]:
  "cj_parse plain_json (cj_print plain_json j) = Some j"
  "cj_get plain_json (cj_object plain_json kvs) k = map_of kvs k"
  "cj_items plain_json (write_list js) = js"
  "cj_string plain_json s = Some s"
  "cj_is_string plain_json s" "cj_is_number plain_json s"
  "cj_is_true plain_json s \<longleftrightarrow> s = ''true''"
  "cj_is_bool plain_json s \<longleftrightarrow> s = ''true'' \<or> s = ''false''"
  "cj_u32 plain_json (Some s) = ipv4_address_to_uint32 s"
  "cj_u8 plain_json (Some s) = ucast (ipv4_address_to_uint32 s)"
  using read_write[of _ "[]"]
  by (simp_all add: plain_json_def lookup_pairs_map_of del: write_list.simps)

section \<open>Properties\<close>


definition sample_lease :: lease where
  "sample_lease = \<lparr>lease_address = 0xC0A80065, lease_subnet = 0xFFFFFF00, lease_pool_name = Some ''lan'',
     lease_start = 100, lease_expire = 700, lease_xid = 7, lease_flags = 0,
     client_mac_address = [0x02, 0x42, 0xac, 0x11, 0, 0x0f]\<rparr>"

lemma sample_lease_wf: "wf_lease ''lan'' sample_lease"
  by (simp add: wf_lease_def sample_lease_def)

lemma holds_empty: "holds api Map.empty pool []"
  by (simp add: holds_def)


text \<open>
  Removing a lease takes the first lease of its address out of the file of its pool and
  reports whether there was one; without one the file keeps its leases.
\<close>

theorem lease_remove_first:
  assumes "cjson_ok api" "holds api fs pool ls" "can_open (lease_path pool)" "lease_pool_name l = Some pool"
  shows "\<exists>fs'. lease_remove api can_open fs l =
       Inr (if \<exists>x \<in> set ls. lease_address x = lease_address l then LEASE_OK else LEASE_DOESNT_EXITS, fs') \<and>
     holds api fs' pool (case find_index (\<lambda>x. lease_address x = lease_address l) ls of None \<Rightarrow> ls
       | Some i \<Rightarrow> remove_nth i ls) \<and>
     (\<forall>q. q \<noteq> lease_path pool \<longrightarrow> fs' q = fs q)"
  using assms by (rule lease_remove_eq)

theorem lease_remove_first_witness:
  "\<exists>fs'. lease_remove plain_json (\<lambda>_. True) Map.empty sample_lease = Inr (LEASE_DOESNT_EXITS, fs')"
  using lease_remove_first[OF plain_json_ok holds_empty, where can_open = "\<lambda>_. True" and l = sample_lease and pool = "''lan''"]
  by (auto simp: sample_lease_def)



end
