(* ===== verification/Timer.thy ===== *)
theory Timer
  imports Prelude
begin

text \<open>
  Timers (\<open>timer.c\<close>). The callback is named by the function the program installs; a call
  of it is the last thing \<open>timer_update\<close> does, so the model returns it as a request and
  the caller runs it on the state that holds the updated timer. \<open>now\<close> is what
  \<open>time(NULL)\<close> returns.
\<close>

section \<open>The structure and its operations\<close>

datatype timer_type = TIMER_ONCE | TIMER_REPEAT

datatype timer_cb = Trans_timer_cb_clear | Check_lease_expirations | Cb_turn_off_scanning

record timer =
  timer_type :: timer_type
  dtime :: u32
  rtime :: u32
  is_running :: bool
  ltime :: u32
  cb :: "timer_cb option"

abbreviation (input) TIMER_NOCB :: int where "TIMER_NOCB \<equiv> - 2147483648"
abbreviation (input) TIMER_ERROR :: int where "TIMER_ERROR \<equiv> - 2147483647"
abbreviation (input) TIMER_STOPPED :: int where "TIMER_STOPPED \<equiv> - 2147483646"

datatype timer_outcome = Returns int | Calls timer_cb u32

definition timer_new :: "u32 \<Rightarrow> timer_type \<Rightarrow> u32 \<Rightarrow> bool \<Rightarrow> timer_cb option \<Rightarrow> timer" where
  "timer_new now type dt running c = \<lparr>timer_type = type, dtime = dt, rtime = dt,
     is_running = running, ltime = now, cb = c\<rparr>"

definition timer_update :: "u32 \<Rightarrow> timer \<Rightarrow> timer_outcome \<times> timer" where
  "timer_update now t =
     (if \<not> is_running t then (Returns TIMER_STOPPED, t)
      else
        let time_difference = now - ltime t in
        if time_difference = 0 then (Returns TIMER_NOCB, t)
        else
          let t = t\<lparr>ltime := now\<rparr> in
          if rtime t \<le> time_difference then
            let t = t\<lparr>rtime := dtime t, is_running := (timer_type t = TIMER_REPEAT)\<rparr> in
            (case cb t of None \<Rightarrow> (Returns TIMER_ERROR, t) | Some f \<Rightarrow> (Calls f now, t))
          else (Returns TIMER_NOCB, t\<lparr>rtime := rtime t - time_difference\<rparr>))"

definition timer_start :: "u32 \<Rightarrow> timer \<Rightarrow> timer" where
  "timer_start now t = t\<lparr>is_running := True, ltime := now\<rparr>"

definition timer_stop :: "timer \<Rightarrow> timer" where
  "timer_stop t = t\<lparr>is_running := False\<rparr>"

definition timer_reset :: "u32 \<Rightarrow> timer \<Rightarrow> timer" where
  "timer_reset now t = t\<lparr>is_running := True, ltime := now, rtime := dtime t\<rparr>"

section \<open>Sequences of updates\<close>

text \<open>
  Updates at the given times, up to and including the first that calls back: the times at
  which the update did nothing, and the time of the call if there was one.
\<close>

fun run_timer :: "u32 list \<Rightarrow> timer \<Rightarrow> u32 option \<times> timer" where
  "run_timer [] t = (None, t)"
| "run_timer (now # ts) t =
     (case timer_update now t of
        (Calls f c, t') \<Rightarrow> (Some c, t')
      | (Returns _, t') \<Rightarrow> run_timer ts t')"

text \<open>The time between two readings of the clock, which wraps around.\<close>

definition elapsed :: "u32 \<Rightarrow> u32 \<Rightarrow> nat" where
  "elapsed t0 now = unat (now - t0)"

fun ascending :: "u32 \<Rightarrow> u32 list \<Rightarrow> bool" where
  "ascending t0 [] \<longleftrightarrow> True"
| "ascending t0 (t # ts) \<longleftrightarrow> ascending t ts \<and> (\<forall>u \<in> set ts. elapsed t0 u = elapsed t0 t + elapsed t u)"

lemma timer_update_running:
  assumes "is_running t" "cb t = Some f" "now \<noteq> ltime t"
  shows "timer_update now t =
     (if unat (rtime t) \<le> elapsed (ltime t) now
      then (Calls f now, t\<lparr>ltime := now, rtime := dtime t, is_running := (timer_type t = TIMER_REPEAT)\<rparr>)
      else (Returns TIMER_NOCB, t\<lparr>ltime := now, rtime := rtime t - (now - ltime t)\<rparr>))"
  using assms by (simp add: timer_update_def elapsed_def word_le_nat_alt Let_def)

text \<open>A running timer calls back at the first update that is its remaining time or more away.\<close>

lemma run_timer_first:
  assumes "is_running t" "cb t = Some f" "ascending (ltime t) ts" "0 < rtime t"
  shows "fst (run_timer ts t) = List.find (\<lambda>u. unat (rtime t) \<le> elapsed (ltime t) u) ts"
  using assms
proof (induction ts arbitrary: t)
  case (Cons u ts)
  show ?case
  proof (cases "u = ltime t \<or> unat (rtime t) \<le> elapsed (ltime t) u")
    case True
    show ?thesis
    proof (cases "u = ltime t")
      case same: True
      then have "timer_update u t = (Returns TIMER_NOCB, t)" using Cons.prems(1) by (simp add: timer_update_def)
      moreover have "\<not> unat (rtime t) \<le> elapsed (ltime t) u"
        using same Cons.prems(4) by (simp add: elapsed_def word_less_nat_alt)
      ultimately show ?thesis using Cons same by simp
    next
      case False
      with True Cons.prems show ?thesis by (simp add: timer_update_running[where f = f])
    qed
  next
    case False
    let ?t = "t\<lparr>ltime := u, rtime := rtime t - (u - ltime t)\<rparr>"
    have lt: "u - ltime t < rtime t" using False by (simp add: elapsed_def word_less_nat_alt)
    then have r: "unat (rtime ?t) = unat (rtime t) - elapsed (ltime t) u"
      by (simp add: unat_minus_le elapsed_def)
    moreover have "0 < rtime ?t" using r False by (simp add: word_less_nat_alt)
    moreover have "ascending (ltime ?t) ts" using Cons.prems(3) by simp
    ultimately have "fst (run_timer ts ?t) = List.find (\<lambda>v. unat (rtime ?t) \<le> elapsed u v) ts"
      using Cons.prems by (subst Cons.IH) simp_all
    also have "\<dots> = List.find (\<lambda>v. unat (rtime t) \<le> elapsed (ltime t) v) ts"
      using Cons.prems(3) r by (intro find_cong) auto
    finally show ?thesis using False Cons.prems by (simp add: timer_update_running[where f = f])
  qed
qed simp

section \<open>Properties\<close>

text \<open>
  C35. A timer that was started with a positive remaining time calls back at the first
  update at which that time or more has passed since the start, and at no earlier one,
  whatever the spacing of the updates and also when the clock wraps around between them.
\<close>

theorem timer_fires_at_deadline:
  assumes "cb t = Some f" "0 < rtime t" "ascending now ts"
  shows "fst (run_timer ts (timer_start now t)) = List.find (\<lambda>u. unat (rtime t) \<le> elapsed now u) ts"
  using run_timer_first[of "timer_start now t" f ts] assms by (simp add: timer_start_def)

theorem timer_fires_at_deadline_witness:
  "fst (run_timer [0xFFFFFFFE, 0xFFFFFFFF, 2, 3, 9]
     (timer_start 0xFFFFFFFE (timer_new 0 TIMER_ONCE 5 False (Some Trans_timer_cb_clear)))) = Some 3"
  using timer_fires_at_deadline[of "timer_new 0 TIMER_ONCE 5 False (Some Trans_timer_cb_clear)"
      Trans_timer_cb_clear "0xFFFFFFFE" "[0xFFFFFFFE, 0xFFFFFFFF, 2, 3, 9]"]
  by (simp add: timer_new_def elapsed_def)

text \<open>
  When a timer runs out it is armed again with its full period, and stays running
  exactly when it is a repeating one; a timer that runs out once is reset too, contrary
  to the comment in the header file.
\<close>

theorem timer_expiry_rearms:
  assumes "timer_update now t = (Calls f c, t')"
  shows "c = now \<and> rtime t' = dtime t \<and> is_running t' = (timer_type t = TIMER_REPEAT) \<and> ltime t' = now \<and>
     cb t = Some f \<and> rtime t \<le> now - ltime t"
  using assms by (auto simp: timer_update_def Let_def split: if_splits option.splits)

theorem timer_expiry_rearms_witness:
  "rtime (snd (timer_update 10 (timer_new 0 TIMER_ONCE 5 True (Some Trans_timer_cb_clear)))) = 5"
  using timer_expiry_rearms[of 10 "timer_new 0 TIMER_ONCE 5 True (Some Trans_timer_cb_clear)"
      Trans_timer_cb_clear 10 "snd (timer_update 10 (timer_new 0 TIMER_ONCE 5 True (Some Trans_timer_cb_clear)))"]
  by (simp add: timer_update_def timer_new_def)

end
