(* ===== verification/Dhcp_packet.thy ===== *)
theory Dhcp_packet
  imports Dhcp_options
begin

text \<open>
  Packets and messages (\<open>dhcp_packet.c\<close>). A packet is the structure received from or
  handed to the socket, with its fields in network byte order; a message is its parsed
  form. A message holds a pointer to its option list, and copies of a message share the
  list: the lists live in a heap. Which free address \<open>calloc\<close> picks for a new list is
  the parameter \<open>pick\<close>; it may be the address of a list freed before.
\<close>

section \<open>Byte order\<close>

definition htonl :: "u32 \<Rightarrow> u32" where
  "htonl w = le_word (rev (le_bytes w))"

definition ntohl :: "u32 \<Rightarrow> u32" where
  "ntohl = htonl"

definition htons :: "u16 \<Rightarrow> u16" where
  "htons w = push_bit 8 w OR drop_bit 8 w"

definition ntohs :: "u16 \<Rightarrow> u16" where
  "ntohs = htons"

lemma ntohl_htonl [simp]: "ntohl (htonl w) = w"
proof -
  obtain a b c d where le: "le_bytes w = [a, b, c, d]" by (simp add: le_bytes_def)
  have "le_word (le_bytes w) = w" using le_word_bytes[of w "[]"] by simp
  then show ?thesis by (simp add: ntohl_def htonl_def le le_bytes_word)
qed

lemma ntohs_htons [simp]: "ntohs (htons w) = w"
  by (rule bit_word_eqI) (auto simp: ntohs_def htons_def bit_simps)

section \<open>The heap of option lists\<close>

type_synonym ref = nat
type_synonym heap = "ref \<rightharpoonup> dhcp_option list"

definition heap_get :: "heap \<Rightarrow> ref \<Rightarrow> dhcp_option list c" where
  "heap_get h r = (case h r of None \<Rightarrow> Inl Use_after_free | Some os \<Rightarrow> Inr os)"

definition heap_free :: "heap \<Rightarrow> ref \<Rightarrow> heap c" where
  "heap_free h r = (case h r of None \<Rightarrow> Inl Use_after_free | Some _ \<Rightarrow> Inr (h(r := None)))"

definition heap_new :: "(heap \<Rightarrow> ref) \<Rightarrow> heap \<Rightarrow> ref \<times> heap" where
  "heap_new pick h = (pick h, h(pick h \<mapsto> []))"

lemma heap_get_Some [simp]: "h r = Some os \<Longrightarrow> heap_get h r = Inr os"
  by (simp add: heap_get_def)

lemma heap_get_None [simp]: "h r = None \<Longrightarrow> heap_get h r = Inl Use_after_free"
  by (simp add: heap_get_def)

section \<open>The structures\<close>

abbreviation (input) CHADDR_LEN :: nat where "CHADDR_LEN \<equiv> 18"

record dhcp_packet =
  pkt_opcode :: u8
  pkt_htype :: u8
  pkt_hlen :: u8
  pkt_hops :: u8
  pkt_xid :: u32
  pkt_secs :: u16
  pkt_flags :: u16
  pkt_ciaddr :: u32
  pkt_yiaddr :: u32
  pkt_siaddr :: u32
  pkt_giaddr :: u32
  pkt_chaddr :: "u8 list"
  pkt_sname :: "u8 list"
  pkt_filename :: "u8 list"
  pkt_cookie :: u32
  pkt_options :: "u8 list"

record dhcp_message =
  packet :: dhcp_packet
  msg_type :: u32
  opcode :: u8
  htype :: u8
  hlen :: u8
  hops :: u8
  xid :: u32
  secs :: u16
  flags :: u16
  ciaddr :: u32
  yiaddr :: u32
  siaddr :: u32
  giaddr :: u32
  chaddr :: "u8 list"
  sname :: "u8 list"
  filename :: "u8 list"
  cookie :: u32
  dhcp_options :: ref
  msg_time :: u32

definition zero_packet :: dhcp_packet where
  "zero_packet = \<lparr>pkt_opcode = 0, pkt_htype = 0, pkt_hlen = 0, pkt_hops = 0, pkt_xid = 0, pkt_secs = 0,
     pkt_flags = 0, pkt_ciaddr = 0, pkt_yiaddr = 0, pkt_siaddr = 0, pkt_giaddr = 0,
     pkt_chaddr = zeros 16, pkt_sname = zeros 64, pkt_filename = zeros 128, pkt_cookie = 0,
     pkt_options = zeros 336\<rparr>"

definition zero_message :: "ref \<Rightarrow> dhcp_message" where
  "zero_message r = \<lparr>packet = zero_packet, msg_type = 0, opcode = 0, htype = 0, hlen = 0, hops = 0,
     xid = 0, secs = 0, flags = 0, ciaddr = 0, yiaddr = 0, siaddr = 0, giaddr = 0,
     chaddr = zeros CHADDR_LEN, sname = zeros 64, filename = zeros 128, cookie = 0,
     dhcp_options = r, msg_time = 0\<rparr>"

definition wf_packet :: "dhcp_packet \<Rightarrow> bool" where
  "wf_packet p \<longleftrightarrow> length (pkt_chaddr p) = 16 \<and> length (pkt_sname p) = 64 \<and>
     length (pkt_filename p) = 128 \<and> length (pkt_options p) = 336"

definition wf_message :: "dhcp_message \<Rightarrow> bool" where
  "wf_message m \<longleftrightarrow> wf_packet (packet m) \<and> length (chaddr m) = CHADDR_LEN \<and> length (sname m) = 64 \<and>
     length (filename m) = 128"

section \<open>Operations\<close>

definition dhcp_message_new :: "(heap \<Rightarrow> ref) \<Rightarrow> heap \<Rightarrow> dhcp_message \<times> heap" where
  "dhcp_message_new pick h = (case heap_new pick h of (r, h') \<Rightarrow> (zero_message r, h'))"

definition dhcp_message_destroy :: "dhcp_message \<Rightarrow> heap \<Rightarrow> heap c" where
  "dhcp_message_destroy m h = heap_free h (dhcp_options m)"

text \<open>The header fields of a message, out of its packet.\<close>

definition parse_header :: "dhcp_message \<Rightarrow> dhcp_message c" where
  "parse_header m =
     (let p = packet m in
      cbind (memcpy (chaddr m) 0 (pkt_chaddr p) 16) (\<lambda>ch.
      cbind (memcpy (sname m) 0 (pkt_sname p) 64) (\<lambda>sn.
      cbind (memcpy (filename m) 0 (pkt_filename p) 128) (\<lambda>fn.
        Inr (m\<lparr>opcode := pkt_opcode p, htype := pkt_htype p, hlen := pkt_hlen p, hops := pkt_hops p,
               xid := ntohl (pkt_xid p), secs := ntohs (pkt_secs p), flags := ntohs (pkt_flags p),
               ciaddr := ntohl (pkt_ciaddr p), yiaddr := ntohl (pkt_yiaddr p),
               siaddr := ntohl (pkt_siaddr p), giaddr := ntohl (pkt_giaddr p),
               chaddr := ch, sname := sn, filename := fn, cookie := ntohl (pkt_cookie p)\<rparr>)))))"

definition dhcp_packet_parse ::
    "(heap \<Rightarrow> ref) \<Rightarrow> dhcp_message \<Rightarrow> heap \<Rightarrow> (int \<times> dhcp_message \<times> heap) c" where
  "dhcp_packet_parse pick m h =
     cbind (parse_header m) (\<lambda>m.
       if cookie m \<noteq> MAGIC_COOKIE then Inr (-1, m, h)
       else cbind (heap_free h (dhcp_options m)) (\<lambda>h.
         case heap_new pick h of (r, h) \<Rightarrow>
           let m = m\<lparr>dhcp_options := r\<rparr> in
           cbind (dhcp_option_parse [] (pkt_options (packet m))) (\<lambda>(rv, os).
             let h = h(r \<mapsto> os) in
             if rv \<noteq> 0 then Inr (-1, m, h)
             else (case dhcp_option_retrieve os DHCP_OPTION_DHCP_MESSAGE_TYPE of
                     None \<Rightarrow> Inr (-1, m, h)
                   | Some o53 \<Rightarrow> Inr (0, m\<lparr>msg_type := number o53\<rparr>, h)))))"

definition build_header :: "dhcp_message \<Rightarrow> dhcp_message c" where
  "build_header m =
     (let p = packet m in
      cbind (memcpy (pkt_chaddr p) 0 (chaddr m) 16) (\<lambda>ch.
      cbind (memcpy (pkt_sname p) 0 (sname m) 64) (\<lambda>sn.
      cbind (memcpy (pkt_filename p) 0 (filename m) 128) (\<lambda>fn.
        Inr (m\<lparr>packet := p\<lparr>pkt_opcode := opcode m, pkt_htype := htype m, pkt_hlen := hlen m,
               pkt_hops := hops m, pkt_xid := htonl (xid m), pkt_secs := htons (secs m),
               pkt_flags := htons (flags m), pkt_ciaddr := htonl (ciaddr m),
               pkt_yiaddr := htonl (yiaddr m), pkt_siaddr := htonl (siaddr m),
               pkt_giaddr := htonl (giaddr m), pkt_chaddr := ch, pkt_sname := sn,
               pkt_filename := fn\<rparr>\<rparr>)))))"

definition dhcp_packet_build :: "dhcp_message \<Rightarrow> heap \<Rightarrow> (int \<times> dhcp_message) c" where
  "dhcp_packet_build m h =
     cbind (build_header m) (\<lambda>m.
       if cookie m \<noteq> MAGIC_COOKIE then Inr (-1, m)
       else
         let m = m\<lparr>packet := (packet m)\<lparr>pkt_cookie := htonl (cookie m)\<rparr>\<rparr> in
         cbind (heap_get h (dhcp_options m)) (\<lambda>os.
         cbind (dhcp_options_serialize os (pkt_options (packet m))) (\<lambda>(rv, raw).
           let m = m\<lparr>packet := (packet m)\<lparr>pkt_options := raw\<rparr>\<rparr> in
           if rv \<noteq> 0 then Inr (-1, m) else Inr (0, m))))"

section \<open>Lemmas\<close>

lemma memcpy_whole: "length d = n \<Longrightarrow> length s = n \<Longrightarrow> memcpy d 0 s n = Inr s"
  by (simp add: memcpy_def)

lemma wf_zero_message: "wf_message (zero_message r)"
  by (simp add: wf_message_def wf_packet_def zero_message_def zero_packet_def)

text \<open>Options that fit a packet and come back from it unchanged.\<close>

definition sendable :: "dhcp_option list \<Rightarrow> bool" where
  "sendable os \<longleftrightarrow> (\<forall>o1 \<in> set os. opt_canon o1) \<and> distinct (map opt_tag os) \<and>
     length (encode os) \<le> DHCP_PACKET_OPTIONS_SIZE"

lemma sendable_ser: "sendable os \<Longrightarrow> \<forall>o1 \<in> set os. opt_ser o1"
  by (simp add: sendable_def opt_canon_def)

lemma serialize_sendable:
  assumes "sendable os" "length raw = 336"
  shows "dhcp_options_serialize os raw = Inr (0, encode os @ 0xff # drop (Suc (length (encode os))) raw)"
  using serialize_loop_eq[OF sendable_ser[OF assms(1)], of 0 raw] assms
  by (simp add: dhcp_options_serialize_def sendable_def)

lemma parse_sendable:
  assumes "sendable os"
  shows "dhcp_option_parse [] (encode os @ 0xff # rest) = Inr (0, os)"
  using parse_loop_encode[of 0 "encode os @ 0xff # rest" os rest "[]"] assms
  by (simp add: dhcp_option_parse_def sendable_def)

lemma packet_build_eq:
  assumes wf: "wf_message m" and os: "h (dhcp_options m) = Some os" "sendable os" and ck: "cookie m = MAGIC_COOKIE"
  shows "dhcp_packet_build m h = Inr (0, m\<lparr>packet := \<lparr>pkt_opcode = opcode m, pkt_htype = htype m,
     pkt_hlen = hlen m, pkt_hops = hops m, pkt_xid = htonl (xid m), pkt_secs = htons (secs m),
     pkt_flags = htons (flags m), pkt_ciaddr = htonl (ciaddr m), pkt_yiaddr = htonl (yiaddr m),
     pkt_siaddr = htonl (siaddr m), pkt_giaddr = htonl (giaddr m), pkt_chaddr = take 16 (chaddr m),
     pkt_sname = sname m, pkt_filename = filename m, pkt_cookie = htonl MAGIC_COOKIE,
     pkt_options = encode os @ 0xff # drop (Suc (length (encode os))) (pkt_options (packet m))\<rparr>\<rparr>)"
proof -
  have "memcpy (pkt_chaddr (packet m)) 0 (chaddr m) 16 = Inr (take 16 (chaddr m))"
    using wf by (simp add: memcpy_def wf_message_def wf_packet_def)
  with wf os ck show ?thesis
    by (simp add: dhcp_packet_build_def build_header_def Let_def wf_message_def wf_packet_def
        memcpy_whole serialize_sendable)
qed

lemma packet_parse_eq:
  assumes wf: "wf_message m" and old: "h (dhcp_options m) = Some old"
    and ck: "pkt_cookie (packet m) = htonl MAGIC_COOKIE"
    and raw: "pkt_options (packet m) = encode os @ 0xff # rest" and os: "sendable os"
    and t: "dhcp_option_retrieve os DHCP_OPTION_DHCP_MESSAGE_TYPE = Some o53"
    and r: "r = pick (h(dhcp_options m := None))"
  shows "\<exists>m'. dhcp_packet_parse pick m h = Inr (0, m', h(dhcp_options m := None, r \<mapsto> os)) \<and>
     m' = m\<lparr>opcode := pkt_opcode (packet m), htype := pkt_htype (packet m), hlen := pkt_hlen (packet m),
       hops := pkt_hops (packet m), xid := ntohl (pkt_xid (packet m)), secs := ntohs (pkt_secs (packet m)),
       flags := ntohs (pkt_flags (packet m)), ciaddr := ntohl (pkt_ciaddr (packet m)),
       yiaddr := ntohl (pkt_yiaddr (packet m)), siaddr := ntohl (pkt_siaddr (packet m)),
       giaddr := ntohl (pkt_giaddr (packet m)),
       chaddr := pkt_chaddr (packet m) @ drop 16 (chaddr m), sname := pkt_sname (packet m),
       filename := pkt_filename (packet m), cookie := MAGIC_COOKIE, dhcp_options := r,
       msg_type := number o53\<rparr>"
proof -
  have "memcpy (chaddr m) 0 (pkt_chaddr (packet m)) 16 = Inr (pkt_chaddr (packet m) @ drop 16 (chaddr m))"
    using wf by (simp add: memcpy_def wf_message_def wf_packet_def)
  with assms show ?thesis
    by (simp add: dhcp_packet_parse_def parse_header_def Let_def wf_message_def wf_packet_def memcpy_whole
        heap_free_def heap_new_def parse_sendable)
qed

text \<open>An option with a 32-bit value.\<close>

definition word_option :: "u8 \<Rightarrow> u32 \<Rightarrow> dhcp_option" where
  "word_option t w = \<lparr>opt_type = dhcp_option_tag_to_type (uint t), opt_tag = t, opt_lenght = 4,
     opt_value = le_bytes w @ zeros 252\<rparr>"

lemma word_option_simps [simp]:
  "opt_tag (word_option t w) = t" "number (word_option t w) = w" "len (word_option t w) = 4"
  "length (opt_value (word_option t w)) = union_size" "recopy (word_option t w) = word_option t w"
  by (simp_all add: word_option_def number_def union_size_def recopy_def)

lemma word_option_canon:
  assumes "is_number_type (dhcp_option_tag_to_type (uint t))" "t \<noteq> 0" "t \<noteq> 255"
  shows "opt_canon (word_option t w)" "length (encode_option (word_option t w)) = 6"
proof -
  have w: "take_bit 32 w = w" by (rule bit_word_eqI) (simp add: bit_take_bit_iff)
  have "value_canon (word_option t w)"
    using assms(1) w unfolding value_canon_def
    by (auto simp: word_option_def is_number_type_def split: dhcp_option_type.splits)
  with assms(2,3) show "opt_canon (word_option t w)"
    by (simp add: opt_canon_def opt_ser_def) (simp add: word_option_def)
  show "length (encode_option (word_option t w)) = 6"
    using assms(1) by (simp add: encode_option_def payload_def be_bytes_def) (simp add: word_option_def)
qed

section \<open>Properties\<close>

text \<open>
  C8. What one end builds the other end parses: a message with options the wire can carry,
  built into a packet that is received into any message buffer, comes out with the same
  header fields, the same sixteen bytes of hardware address, the same options and the type
  of its option 53.
\<close>

theorem packet_roundtrip:
  assumes "wf_message m" "h (dhcp_options m) = Some os" "sendable os" "cookie m = MAGIC_COOKIE"
    "dhcp_option_retrieve os DHCP_OPTION_DHCP_MESSAGE_TYPE = Some o53"
    "wf_message b" "g (dhcp_options b) = Some old"
  shows "\<exists>m' b' g'. dhcp_packet_build m h = Inr (0, m') \<and>
     dhcp_packet_parse pick (b\<lparr>packet := packet m'\<rparr>) g = Inr (0, b', g') \<and>
     g' (dhcp_options b') = Some os \<and> msg_type b' = number o53 \<and>
     opcode b' = opcode m \<and> htype b' = htype m \<and> hlen b' = hlen m \<and> hops b' = hops m \<and>
     xid b' = xid m \<and> secs b' = secs m \<and> flags b' = flags m \<and> ciaddr b' = ciaddr m \<and>
     yiaddr b' = yiaddr m \<and> siaddr b' = siaddr m \<and> giaddr b' = giaddr m \<and>
     take 16 (chaddr b') = take 16 (chaddr m) \<and> sname b' = sname m \<and> filename b' = filename m"
proof -
  obtain m' where m': "dhcp_packet_build m h = Inr (0, m')"
    and p: "packet m' = \<lparr>pkt_opcode = opcode m, pkt_htype = htype m,
     pkt_hlen = hlen m, pkt_hops = hops m, pkt_xid = htonl (xid m), pkt_secs = htons (secs m),
     pkt_flags = htons (flags m), pkt_ciaddr = htonl (ciaddr m), pkt_yiaddr = htonl (yiaddr m),
     pkt_siaddr = htonl (siaddr m), pkt_giaddr = htonl (giaddr m), pkt_chaddr = take 16 (chaddr m),
     pkt_sname = sname m, pkt_filename = filename m, pkt_cookie = htonl MAGIC_COOKIE,
     pkt_options = encode os @ 0xff # drop (Suc (length (encode os))) (pkt_options (packet m))\<rparr>"
    using packet_build_eq[of m h os] assms(1-4) by simp
  let ?b = "b\<lparr>packet := packet m'\<rparr>"
  have "length (encode os) \<le> 312" using assms(3) by (simp add: sendable_def)
  then have "wf_message ?b" using assms(1,6) by (simp add: wf_message_def wf_packet_def p)
  from packet_parse_eq[OF this, of g old os _ o53 "pick (g(dhcp_options b := None))" pick] p assms(3,5,7)
  show ?thesis using m' assms(1) by (auto simp: wf_message_def)
qed

lemma sendable_message_type: "sendable [message_type_option t]"
  using opt_canon_message_type[of t] encode_message_type[of t] by (simp add: sendable_def)

theorem packet_roundtrip_witness:
  "\<exists>m' b' g'. dhcp_packet_build ((zero_message 0)\<lparr>cookie := MAGIC_COOKIE, xid := 7\<rparr>) [0 \<mapsto> [message_type_option 5]] =
       Inr (0, m') \<and>
     dhcp_packet_parse (\<lambda>f. 1) ((zero_message 1)\<lparr>packet := packet m'\<rparr>) [1 \<mapsto> []] = Inr (0, b', g') \<and>
     xid b' = 7"
proof -
  let ?m = "(zero_message 0)\<lparr>cookie := MAGIC_COOKIE, xid := 7\<rparr>"
  have "wf_message ?m" using wf_zero_message[of 0] by (simp add: wf_message_def)
  moreover have "dhcp_options ?m = 0" "dhcp_options (zero_message 1) = 1" by (simp_all add: zero_message_def)
  moreover have "dhcp_option_retrieve [message_type_option 5] DHCP_OPTION_DHCP_MESSAGE_TYPE = Some (message_type_option 5)"
    by (simp add: dhcp_option_retrieve_def message_type_option_def)
  ultimately show ?thesis
    using packet_roundtrip[of ?m "[0 \<mapsto> [message_type_option 5]]" "[message_type_option 5]" "message_type_option 5"
        "zero_message 1" "[1 \<mapsto> []]" "[]" "\<lambda>f. 1"] sendable_message_type[of 5] wf_zero_message[of 1]
    by auto
qed

end
