(* ===== verification/Transaction.thy ===== *)
theory Transaction
  imports Timer Dhcp_packet Allocator Llist
begin

text \<open>
  Transactions (\<open>transaction.c\<close>) and their cache (\<open>transaction_cache.c\<close>): the messages
  exchanged under one transaction id, kept until a timer runs out. The cache is the array
  of its transactions, and a pointer to a transaction is its position in the array. A
  stored message is a copy of the structure; it shares the option list of the original.
\<close>

section \<open>Transactions\<close>

record transaction =
  transaction_begin :: u32
  trans_xid :: u32
  num_of_messages :: u8
  messages_ll :: "dhcp_message list"
  trans_timer :: timer

definition trans_clear :: "u32 \<Rightarrow> transaction \<Rightarrow> transaction" where
  "trans_clear now tr =
     (let tr = tr\<lparr>num_of_messages := 0, transaction_begin := 0, trans_xid := 0, messages_ll := []\<rparr>
      in if is_running (trans_timer tr)
         then tr\<lparr>trans_timer := timer_stop (timer_reset now (trans_timer tr))\<rparr> else tr)"

definition trans_new :: "u32 \<Rightarrow> u32 \<Rightarrow> transaction" where
  "trans_new now time = trans_clear now
     \<lparr>transaction_begin = 0, trans_xid = 0, num_of_messages = 0, messages_ll = [],
      trans_timer = timer_new now TIMER_ONCE time False (Some Trans_timer_cb_clear)\<rparr>"

definition trans_add :: "u32 \<Rightarrow> transaction \<Rightarrow> dhcp_message \<Rightarrow> int \<times> transaction" where
  "trans_add now tr message =
     (if trans_xid tr \<noteq> 0 \<and> trans_xid tr \<noteq> xid message then (-1, tr)
      else
        let tr = (if num_of_messages tr = 0
                  then tr\<lparr>trans_xid := xid message, transaction_begin := now\<rparr> else tr);
            tr = tr\<lparr>messages_ll := messages_ll tr @ [message], num_of_messages := num_of_messages tr + 1\<rparr>;
            tr = (if num_of_messages tr = 1
                  then tr\<lparr>trans_timer := timer_start now (trans_timer tr)\<rparr> else tr)
        in (0, tr))"

definition trans_get_index :: "transaction \<Rightarrow> u8 \<Rightarrow> dhcp_message option c" where
  "trans_get_index tr index = list_get_index (messages_ll tr) (unat index)"

definition trans_search_for :: "transaction \<Rightarrow> u32 \<Rightarrow> dhcp_message option" where
  "trans_search_for tr type = List.find (\<lambda>m. msg_type m = type) (messages_ll tr)"

definition trans_search_for_last :: "transaction \<Rightarrow> u32 \<Rightarrow> dhcp_message option" where
  "trans_search_for_last tr type =
     foldl (\<lambda>last m. if msg_type m = type then Some m else last) None (messages_ll tr)"

text \<open>The callback of the timer of a transaction.\<close>

definition trans_timer_cb_clear ::
    "u32 \<Rightarrow> transaction \<Rightarrow> allocator \<Rightarrow> (int \<times> transaction \<times> allocator) c" where
  "trans_timer_cb_clear now tr a =
     cbind (case trans_search_for tr DHCP_OFFER of
              None \<Rightarrow> Inr a
            | Some offer \<Rightarrow>
                if trans_search_for tr DHCP_ACK = None
                then cbind (allocator_release_address a (yiaddr offer)) (\<lambda>(_, a). Inr a)
                else Inr a)
       (\<lambda>a. Inr (0, trans_clear now tr, a))"

section \<open>The cache\<close>

type_synonym transaction_cache = "transaction list"

definition trans_cache_new :: "u32 \<Rightarrow> u32 \<Rightarrow> u32 \<Rightarrow> transaction_cache" where
  "trans_cache_new now sz time = replicate (unat sz) (trans_new now time)"

definition cache_get_next_transaction :: "transaction_cache \<Rightarrow> nat option" where
  "cache_get_next_transaction cache = find_index (\<lambda>tr. \<not> is_running (trans_timer tr)) cache"

definition trans_cache_retrieve_transaction :: "transaction_cache \<Rightarrow> u32 \<Rightarrow> nat option" where
  "trans_cache_retrieve_transaction cache x = find_index (\<lambda>tr. trans_xid tr = x) cache"

text \<open>The message is returned too: its time is stamped.\<close>

definition trans_cache_add_message ::
    "u32 \<Rightarrow> transaction_cache \<Rightarrow> dhcp_message \<Rightarrow> int \<times> transaction_cache \<times> dhcp_message" where
  "trans_cache_add_message now cache message =
     (let message = message\<lparr>msg_time := now\<rparr> in
      case trans_cache_retrieve_transaction cache (xid message) of
        Some i \<Rightarrow> (case trans_add now (cache ! i) message of (rv, tr) \<Rightarrow> (rv, cache[i := tr], message))
      | None \<Rightarrow>
          (case cache_get_next_transaction cache of
             None \<Rightarrow> (-1, cache, message)
           | Some i \<Rightarrow> (case trans_add now (trans_clear now (cache ! i)) message of
                         (rv, tr) \<Rightarrow> (rv, cache[i := tr], message))))"

definition trans_cache_retrieve_message :: "transaction_cache \<Rightarrow> u32 \<Rightarrow> u32 \<Rightarrow> dhcp_message option" where
  "trans_cache_retrieve_message cache x type =
     (case trans_cache_retrieve_transaction cache x of None \<Rightarrow> None
      | Some i \<Rightarrow> trans_search_for (cache ! i) type)"

definition trans_cache_retrieve_message_last ::
    "transaction_cache \<Rightarrow> u32 \<Rightarrow> u32 \<Rightarrow> dhcp_message option" where
  "trans_cache_retrieve_message_last cache x type =
     (case trans_cache_retrieve_transaction cache x of None \<Rightarrow> None
      | Some i \<Rightarrow> trans_search_for_last (cache ! i) type)"

definition trans_cache_retrieve_message_index ::
    "transaction_cache \<Rightarrow> u32 \<Rightarrow> u32 \<Rightarrow> dhcp_message option c" where
  "trans_cache_retrieve_message_index cache x index =
     (case trans_cache_retrieve_transaction cache x of None \<Rightarrow> Inr None
      | Some i \<Rightarrow> trans_get_index (cache ! i) (ucast index))"

definition trans_cache_purge :: "u32 \<Rightarrow> transaction_cache \<Rightarrow> int \<times> transaction_cache" where
  "trans_cache_purge now cache = (0, map (trans_clear now) cache)"

text \<open>
  \<open>trans_update_timer\<close> on the transaction at position \<open>i\<close>, with the callback run on the
  cache and the allocator it reaches through its argument.
\<close>

definition trans_update_timer ::
    "u32 \<Rightarrow> transaction_cache \<Rightarrow> nat \<Rightarrow> allocator \<Rightarrow> (int \<times> transaction_cache \<times> allocator) c" where
  "trans_update_timer now cache i a =
     cbind (array_get cache i) (\<lambda>tr.
       case timer_update now (trans_timer tr) of
         (Returns rv, t) \<Rightarrow> Inr (rv, cache[i := tr\<lparr>trans_timer := t\<rparr>], a)
       | (Calls _ c, t) \<Rightarrow>
           cbind (trans_timer_cb_clear c (tr\<lparr>trans_timer := t\<rparr>) a) (\<lambda>(rv, tr, a).
             Inr (rv, cache[i := tr], a)))"

section \<open>Invariant\<close>

text \<open>
  A transaction's timer runs exactly while it holds messages, all of them under its id;
  an empty one has id 0. The installed callback is the one of the transactions.
\<close>

definition wf_trans :: "transaction \<Rightarrow> bool" where
  "wf_trans tr \<longleftrightarrow> (is_running (trans_timer tr) \<longleftrightarrow> messages_ll tr \<noteq> []) \<and>
     num_of_messages tr = of_nat (length (messages_ll tr)) \<and>
     (\<forall>m \<in> set (messages_ll tr). xid m = trans_xid tr) \<and>
     (messages_ll tr = [] \<longrightarrow> trans_xid tr = 0) \<and>
     timer_type (trans_timer tr) = TIMER_ONCE \<and> cb (trans_timer tr) = Some Trans_timer_cb_clear"

text \<open>No two transactions of the cache share an id other than 0.\<close>

definition wf_cache :: "transaction_cache \<Rightarrow> bool" where
  "wf_cache cache \<longleftrightarrow> (\<forall>tr \<in> set cache. wf_trans tr) \<and>
     (\<forall>i j. i < j \<longrightarrow> j < length cache \<longrightarrow> trans_xid (cache ! i) = trans_xid (cache ! j) \<longrightarrow>
        trans_xid (cache ! i) = 0)"

lemma trans_clear_simps [simp]:
  "messages_ll (trans_clear now tr) = []" "trans_xid (trans_clear now tr) = 0"
  "num_of_messages (trans_clear now tr) = 0" "is_running (trans_timer (trans_clear now tr)) = False"
  "timer_type (trans_timer (trans_clear now tr)) = timer_type (trans_timer tr)"
  "cb (trans_timer (trans_clear now tr)) = cb (trans_timer tr)"
  by (auto simp: trans_clear_def Let_def timer_stop_def timer_reset_def)

lemma wf_trans_clear: "wf_trans tr \<Longrightarrow> wf_trans (trans_clear now tr)"
  by (simp add: wf_trans_def)

lemma wf_trans_new: "wf_trans (trans_new now time)"
  by (simp add: wf_trans_def trans_new_def timer_new_def)

lemma trans_add_ok:
  assumes wf: "wf_trans tr" and x: "messages_ll tr = [] \<or> trans_xid tr = xid m"
  shows "\<exists>tr'. trans_add now tr m = (0, tr') \<and> wf_trans tr' \<and> messages_ll tr' = messages_ll tr @ [m] \<and>
     trans_xid tr' = xid m"
proof (cases "num_of_messages tr = 0")
  case True
  moreover have "trans_xid tr = 0 \<or> trans_xid tr = xid m" using wf x by (auto simp: wf_trans_def)
  ultimately show ?thesis using wf x
    by (auto simp: trans_add_def wf_trans_def Let_def timer_start_def)
next
  case False
  then have "messages_ll tr \<noteq> []" "trans_xid tr = xid m" using wf x by (auto simp: wf_trans_def)
  with False wf show ?thesis
    by (auto simp: trans_add_def wf_trans_def Let_def timer_start_def add.commute)
qed

lemma wf_cache_upd:
  assumes "wf_cache cache" "wf_trans tr" "i < length cache"
    and "\<And>j. j < length cache \<Longrightarrow> j \<noteq> i \<Longrightarrow> trans_xid (cache ! j) = trans_xid tr \<Longrightarrow> trans_xid tr = 0"
  shows "wf_cache (cache[i := tr])"
proof -
  have "\<forall>t \<in> set (cache[i := tr]). wf_trans t"
    using assms(1,2) by (auto simp: wf_cache_def dest!: set_update_subset_insert[THEN subsetD])
  moreover have "trans_xid (cache[i := tr] ! j) = 0"
    if "j < k" "k < length cache" "trans_xid (cache[i := tr] ! j) = trans_xid (cache[i := tr] ! k)" for j k
  proof -
    consider "j = i" | "k = i" | "j \<noteq> i" "k \<noteq> i" by blast
    then show ?thesis
    proof cases
      case 1
      with that assms(3) assms(4)[of k] show ?thesis by simp
    next
      case 2
      with that assms(3) assms(4)[of j] show ?thesis by simp
    next
      case 3
      with that assms(1) show ?thesis unfolding wf_cache_def by simp
    qed
  qed
  ultimately show ?thesis by (simp add: wf_cache_def)
qed

lemma retrieve_transaction_Some:
  "trans_cache_retrieve_transaction cache x = Some i \<Longrightarrow> i < length cache \<and> trans_xid (cache ! i) = x"
  by (auto simp: trans_cache_retrieve_transaction_def dest: find_index_Some)

lemma retrieve_transaction_unique:
  assumes "wf_cache cache" "i < length cache" "trans_xid (cache ! i) = x" "x \<noteq> 0"
  shows "trans_cache_retrieve_transaction cache x = Some i"
  unfolding trans_cache_retrieve_transaction_def
  using assms by (intro find_index_eqI) (auto simp: wf_cache_def)

text \<open>The messages of a transaction id, in the order they were stored.\<close>

definition msgs_of :: "transaction_cache \<Rightarrow> u32 \<Rightarrow> dhcp_message list" where
  "msgs_of cache x = (case trans_cache_retrieve_transaction cache x of None \<Rightarrow> []
     | Some i \<Rightarrow> messages_ll (cache ! i))"

lemma msgs_of_at:
  assumes "wf_cache cache" "i < length cache" "trans_xid (cache ! i) \<noteq> 0"
  shows "msgs_of cache (trans_xid (cache ! i)) = messages_ll (cache ! i)"
  using retrieve_transaction_unique[OF assms(1,2) refl assms(3)] by (simp add: msgs_of_def)

lemma msgs_of_None: "x \<notin> trans_xid ` set cache \<Longrightarrow> msgs_of cache x = []"
  by (auto simp: msgs_of_def trans_cache_retrieve_transaction_def image_iff
      split: option.splits dest!: find_index_Some)

text \<open>What replacing one transaction does to the messages of every id.\<close>

lemma msgs_of_upd:
  assumes wf: "wf_cache (cache[i := tr])" "wf_cache cache" and i: "i < length cache" and x: "x \<noteq> 0"
    and keep: "trans_xid (cache ! i) = trans_xid tr \<or> messages_ll (cache ! i) = []"
  shows "msgs_of (cache[i := tr]) x = (if x = trans_xid tr then messages_ll tr else msgs_of cache x)"
proof (cases "x = trans_xid tr")
  case True
  with msgs_of_at[OF wf(1), of i] i x show ?thesis by simp
next
  case False
  note ne = False
  show ?thesis
  proof (cases "x \<in> trans_xid ` set (cache[i := tr])")
    case True
    then obtain j where j: "j < length cache" "trans_xid (cache[i := tr] ! j) = x" by (auto simp: in_set_conv_nth)
    then have "j \<noteq> i" using ne i by auto
    with msgs_of_at[OF wf(1), of j] msgs_of_at[OF wf(2), of j] j x ne show ?thesis by simp
  next
    case False
    have "msgs_of cache x = []"
    proof (cases "x \<in> trans_xid ` set cache")
      case True
      then obtain j where j: "j < length cache" "trans_xid (cache ! j) = x" by (auto simp: in_set_conv_nth)
      then have "j = i" using False by (metis image_eqI length_list_update nth_list_update_neq nth_mem)
      with j ne keep msgs_of_at[OF wf(2), of i] x show ?thesis by auto
    qed (rule msgs_of_None)
    with ne msgs_of_None[OF False] show ?thesis by simp
  qed
qed

section \<open>The interface of a store of messages\<close>

text \<open>
  What the handlers rely on: a message is stored behind the earlier ones of its
  transaction, or refused without an effect; the other transactions keep theirs.
\<close>

fun add_each :: "('s \<Rightarrow> dhcp_message \<Rightarrow> int \<times> 's) \<Rightarrow> 's \<Rightarrow> dhcp_message list \<Rightarrow> dhcp_message list \<times> 's" where
  "add_each add s [] = ([], s)"
| "add_each add s (m # ms) = (case add s m of (rv, s') \<Rightarrow>
     (case add_each add s' ms of (acc, s'') \<Rightarrow> (if rv = 0 then m # acc else acc, s'')))"

locale message_store =
  fixes inv :: "'s \<Rightarrow> bool"
    and msgs :: "'s \<Rightarrow> u32 \<Rightarrow> dhcp_message list"
    and add :: "'s \<Rightarrow> dhcp_message \<Rightarrow> int \<times> 's"
    and stamp :: "dhcp_message \<Rightarrow> dhcp_message"
  assumes add_inv: "inv s \<Longrightarrow> inv (snd (add s m))"
    and add_stored: "inv s \<Longrightarrow> fst (add s m) = 0 \<Longrightarrow> x \<noteq> 0 \<Longrightarrow>
      msgs (snd (add s m)) x = msgs s x @ (if x = xid m then [stamp m] else [])"
    and add_refused: "inv s \<Longrightarrow> fst (add s m) \<noteq> 0 \<Longrightarrow> snd (add s m) = s"
begin

lemma add_each_msgs:
  assumes "inv s" "x \<noteq> 0"
  shows "inv (snd (add_each add s ms)) \<and>
    msgs (snd (add_each add s ms)) x =
      msgs s x @ map stamp (filter (\<lambda>m. xid m = x) (fst (add_each add s ms)))"
  using assms(1)
proof (induction ms arbitrary: s)
  case (Cons m ms)
  obtain rv s' where add: "add s m = (rv, s')" by fastforce
  then have inv: "inv s'" using add_inv[OF Cons.prems, of m] by simp
  show ?case
  proof (cases "rv = 0")
    case True
    with add add_stored[OF Cons.prems _ assms(2), of m] Cons.IH[OF inv] show ?thesis
      by (auto split: prod.splits)
  next
    case False
    with add add_refused[OF Cons.prems, of m] Cons.IH[OF inv] show ?thesis
      by (auto split: prod.splits)
  qed
qed simp

end

lemma next_transaction_Some:
  assumes "cache_get_next_transaction cache = Some i" "wf_cache cache"
  shows "i < length cache" "messages_ll (cache ! i) = []" "wf_trans (cache ! i)"
  using assms by (auto simp: cache_get_next_transaction_def wf_cache_def wf_trans_def dest!: find_index_Some)

lemma cache_add_message:
  assumes wf: "wf_cache cache"
  obtains (stored) i tr where
      "trans_cache_add_message now cache m = (0, cache[i := tr], m\<lparr>msg_time := now\<rparr>)"
      "i < length cache" "wf_cache (cache[i := tr])" "wf_trans tr" "trans_xid tr = xid m"
      "trans_xid (cache ! i) = xid m \<or> messages_ll (cache ! i) = []"
      "xid m \<noteq> 0 \<Longrightarrow> messages_ll tr = msgs_of cache (xid m) @ [m\<lparr>msg_time := now\<rparr>]"
    | (full) "trans_cache_add_message now cache m = (-1, cache, m\<lparr>msg_time := now\<rparr>)"
      "\<forall>tr \<in> set cache. is_running (trans_timer tr) \<and> trans_xid tr \<noteq> xid m"
proof (cases "trans_cache_retrieve_transaction cache (xid m)")
  case (Some i)
  let ?m = "m\<lparr>msg_time := now\<rparr>"
  have i: "i < length cache" "trans_xid (cache ! i) = xid m" using retrieve_transaction_Some[OF Some] by auto
  then have "wf_trans (cache ! i)" using wf by (simp add: wf_cache_def)
  then obtain tr where tr: "trans_add now (cache ! i) ?m = (0, tr)" "wf_trans tr"
    "messages_ll tr = messages_ll (cache ! i) @ [?m]" "trans_xid tr = xid m"
    using trans_add_ok[of "cache ! i" ?m now] i(2) by auto
  have "wf_cache (cache[i := tr])"
  proof (rule wf_cache_upd[OF wf tr(2) i(1)])
    fix j assume "j < length cache" "j \<noteq> i" "trans_xid (cache ! j) = trans_xid tr"
    with wf i tr(4) show "trans_xid tr = 0" unfolding wf_cache_def by (metis linorder_neqE_nat)
  qed
  with Some i tr show thesis
    by (intro stored[of i tr]) (simp_all add: trans_cache_add_message_def msgs_of_def)
next
  case None
  let ?m = "m\<lparr>msg_time := now\<rparr>"
  have none: "\<forall>tr \<in> set cache. trans_xid tr \<noteq> xid m"
    using None by (simp add: trans_cache_retrieve_transaction_def find_index_None)
  show thesis
  proof (cases "cache_get_next_transaction cache")
    case next_None: None
    then have "\<forall>tr \<in> set cache. is_running (trans_timer tr)"
      by (simp add: cache_get_next_transaction_def find_index_None)
    with None next_None none show thesis
      by (intro full) (simp_all add: trans_cache_add_message_def)
  next
    case (Some i)
    note i = next_transaction_Some[OF Some wf]
    obtain tr where tr: "trans_add now (trans_clear now (cache ! i)) ?m = (0, tr)" "wf_trans tr"
      "messages_ll tr = [?m]" "trans_xid tr = xid m"
      using trans_add_ok[OF wf_trans_clear[OF i(3)], of now ?m now] by auto
    have "wf_cache (cache[i := tr])"
      using wf_cache_upd[OF wf tr(2) i(1)] none tr(4) by auto
    with None Some none i tr show thesis
      by (intro stored[of i tr]) (simp_all add: trans_cache_add_message_def msgs_of_def)
  qed
qed

definition cache_add :: "u32 \<Rightarrow> transaction_cache \<Rightarrow> dhcp_message \<Rightarrow> int \<times> transaction_cache" where
  "cache_add now cache m = (case trans_cache_add_message now cache m of (rv, cache', _) \<Rightarrow> (rv, cache'))"

interpretation caches: message_store wf_cache msgs_of "cache_add now" "\<lambda>m. m\<lparr>msg_time := now\<rparr>" for now
proof unfold_locales
  fix cache m x
  assume wf: "wf_cache cache"
  show "wf_cache (snd (cache_add now cache m))"
    using wf by (cases rule: cache_add_message[OF wf, of now m]) (auto simp: cache_add_def)
  show "snd (cache_add now cache m) = cache" if "fst (cache_add now cache m) \<noteq> 0"
    using that by (cases rule: cache_add_message[OF wf, of now m]) (auto simp: cache_add_def)
  show "msgs_of (snd (cache_add now cache m)) x =
      msgs_of cache x @ (if x = xid m then [m\<lparr>msg_time := now\<rparr>] else [])"
    if "fst (cache_add now cache m) = 0" "x \<noteq> 0"
  proof (cases rule: cache_add_message[OF wf, of now m])
    case (1 i tr)
    have "trans_xid (cache ! i) = trans_xid tr \<or> messages_ll (cache ! i) = []" using 1(5,6) by simp
    from msgs_of_upd[OF 1(3) wf 1(2) that(2) this] 1(1,5,7) that(2) show ?thesis
      by (auto simp: cache_add_def)
  next
    case 2
    with that(1) show ?thesis by (simp add: cache_add_def)
  qed
qed

lemma search_last_eq:
  "trans_search_for_last tr type = List.find (\<lambda>m. msg_type m = type) (rev (messages_ll tr))"
proof -
  have "foldl (\<lambda>last m. if msg_type m = type then Some m else last) acc ms =
      (case List.find (\<lambda>m. msg_type m = type) (rev ms) of None \<Rightarrow> acc | Some m \<Rightarrow> Some m)"
    for acc and ms :: "dhcp_message list"
    by (induction ms arbitrary: acc) (auto simp: find_append split: option.splits)
  then show ?thesis by (simp add: trans_search_for_last_def split: option.splits)
qed

lemma retrieve_message_eq:
  "trans_cache_retrieve_message cache x type = List.find (\<lambda>m. msg_type m = type) (msgs_of cache x)"
  "trans_cache_retrieve_message_last cache x type =
     List.find (\<lambda>m. msg_type m = type) (rev (msgs_of cache x))"
  by (simp_all add: trans_cache_retrieve_message_def trans_cache_retrieve_message_last_def msgs_of_def
      trans_search_for_def search_last_eq split: option.splits)

section \<open>Timeouts\<close>

definition expires :: "u32 \<Rightarrow> transaction \<Rightarrow> bool" where
  "expires now tr \<longleftrightarrow> is_running (trans_timer tr) \<and> now \<noteq> ltime (trans_timer tr) \<and>
     unat (rtime (trans_timer tr)) \<le> elapsed (ltime (trans_timer tr)) now"

text \<open>The address of an offer that no acknowledgement followed.\<close>

definition unclaimed :: "transaction \<Rightarrow> u32 set" where
  "unclaimed tr = (case trans_search_for tr DHCP_OFFER of None \<Rightarrow> {}
     | Some offer \<Rightarrow> if trans_search_for tr DHCP_ACK = None then {yiaddr offer} else {})"

lemma release_used:
  assumes "wf_allocator a"
  shows "\<exists>rv a'. allocator_release_address a x = Inr (rv, a') \<and> wf_allocator a' \<and>
     alloc_dom a' = alloc_dom a \<and> alloc_used a' = alloc_used a - {x}"
  using release_ok[OF assms, of x] release_refused[OF assms, of x] assms
  by (cases "x \<in> alloc_used a") auto

lemma timer_cb_clear_eq:
  assumes "wf_allocator a"
  shows "\<exists>a'. trans_timer_cb_clear now tr a = Inr (0, trans_clear now tr, a') \<and> wf_allocator a' \<and>
     alloc_dom a' = alloc_dom a \<and> alloc_used a' = alloc_used a - unclaimed tr"
proof (cases "trans_search_for tr DHCP_OFFER")
  case None
  with assms show ?thesis by (simp add: trans_timer_cb_clear_def unclaimed_def)
next
  case (Some offer)
  with assms release_used[OF assms, of "yiaddr offer"] show ?thesis
    by (cases "trans_search_for tr DHCP_ACK") (auto simp: trans_timer_cb_clear_def unclaimed_def)
qed

lemma trans_update_timer_eq:
  assumes wf: "wf_cache cache" "wf_allocator a" and i: "i < length cache"
  shows "\<exists>rv t a'. trans_update_timer now cache i a =
       Inr (rv, cache[i := (if expires now (cache ! i) then trans_clear now ((cache ! i)\<lparr>trans_timer := t\<rparr>)
                            else (cache ! i)\<lparr>trans_timer := t\<rparr>)], a') \<and>
     timer_type t = TIMER_ONCE \<and> cb t = Some Trans_timer_cb_clear \<and>
     (\<not> expires now (cache ! i) \<longrightarrow> is_running t = is_running (trans_timer (cache ! i))) \<and>
     wf_allocator a' \<and> alloc_dom a' = alloc_dom a \<and>
     alloc_used a' = (if expires now (cache ! i) then alloc_used a - unclaimed (cache ! i) else alloc_used a)"
proof -
  let ?tr = "cache ! i" and ?t = "trans_timer (cache ! i)"
  have tr: "timer_type ?t = TIMER_ONCE" "cb ?t = Some Trans_timer_cb_clear"
    using wf(1) i by (simp_all add: wf_cache_def wf_trans_def)
  show ?thesis
  proof (cases "expires now ?tr")
    case True
    let ?t' = "?t\<lparr>ltime := now, rtime := dtime ?t, is_running := False\<rparr>"
    have "timer_update now ?t = (Calls Trans_timer_cb_clear now, ?t')"
      using True tr by (simp add: expires_def timer_update_running)
    moreover obtain a' where a': "trans_timer_cb_clear now (?tr\<lparr>trans_timer := ?t'\<rparr>) a =
        Inr (0, trans_clear now (?tr\<lparr>trans_timer := ?t'\<rparr>), a')" "wf_allocator a'"
        "alloc_dom a' = alloc_dom a" "alloc_used a' = alloc_used a - unclaimed (?tr\<lparr>trans_timer := ?t'\<rparr>)"
      using timer_cb_clear_eq[OF wf(2)] by blast
    moreover have "unclaimed (?tr\<lparr>trans_timer := ?t'\<rparr>) = unclaimed ?tr"
      by (auto simp: unclaimed_def trans_search_for_def split: option.splits)
    ultimately show ?thesis using True i tr by (auto simp: trans_update_timer_def intro!: exI[of _ ?t'])
  next
    case False
    have "\<exists>rv t. timer_update now ?t = (Returns rv, t) \<and> is_running t = is_running ?t \<and>
        timer_type t = TIMER_ONCE \<and> cb t = Some Trans_timer_cb_clear"
      using False tr timer_update_running[of ?t Trans_timer_cb_clear now]
      by (cases "is_running ?t"; cases "now = ltime ?t") (auto simp: expires_def timer_update_def)
    with False i wf(2) show ?thesis by (auto simp: trans_update_timer_def)
  qed
qed

lemma wf_cache_timer_upd:
  assumes wf: "wf_cache cache" and i: "i < length cache"
    and t: "timer_type t = TIMER_ONCE" "cb t = Some Trans_timer_cb_clear"
  shows "wf_cache (cache[i := trans_clear now ((cache ! i)\<lparr>trans_timer := t\<rparr>)])"
    and "is_running t = is_running (trans_timer (cache ! i)) \<Longrightarrow>
      wf_cache (cache[i := (cache ! i)\<lparr>trans_timer := t\<rparr>])"
proof -
  have tr: "wf_trans (cache ! i)" using wf i by (simp add: wf_cache_def)
  show "wf_cache (cache[i := trans_clear now ((cache ! i)\<lparr>trans_timer := t\<rparr>)])"
    using t by (intro wf_cache_upd[OF wf _ i]) (simp_all add: wf_trans_def)
  show "wf_cache (cache[i := (cache ! i)\<lparr>trans_timer := t\<rparr>])"
    if "is_running t = is_running (trans_timer (cache ! i))"
  proof (rule wf_cache_upd[OF wf _ i])
    show "wf_trans ((cache ! i)\<lparr>trans_timer := t\<rparr>)" using tr t that by (simp add: wf_trans_def)
    fix j assume "j < length cache" "j \<noteq> i" "trans_xid (cache ! j) = trans_xid ((cache ! i)\<lparr>trans_timer := t\<rparr>)"
    with wf i show "trans_xid ((cache ! i)\<lparr>trans_timer := t\<rparr>) = 0"
      unfolding wf_cache_def by simp (metis linorder_neqE_nat)
  qed
qed

lemma wf_cache_new: "wf_cache (trans_cache_new now sz time)"
  by (simp add: wf_cache_def trans_cache_new_def wf_trans_new) (simp add: trans_new_def)

lemma wf_cache_purge: "wf_cache cache \<Longrightarrow> wf_cache (snd (trans_cache_purge now cache))"
  by (auto simp: wf_cache_def trans_cache_purge_def wf_trans_clear)

section \<open>Properties\<close>

lemma timer_step:
  assumes "wf_cache cache" "wf_allocator a" "i < length cache"
  shows "\<exists>rv cache' a'. trans_update_timer now cache i a = Inr (rv, cache', a') \<and>
     wf_cache cache' \<and> wf_allocator a' \<and> alloc_dom a' = alloc_dom a \<and>
     messages_ll (cache' ! i) = (if expires now (cache ! i) then [] else messages_ll (cache ! i)) \<and>
     alloc_used a' = (if expires now (cache ! i) then alloc_used a - unclaimed (cache ! i) else alloc_used a)"
proof -
  obtain rv t a' where t: "trans_update_timer now cache i a =
       Inr (rv, cache[i := (if expires now (cache ! i) then trans_clear now ((cache ! i)\<lparr>trans_timer := t\<rparr>)
                            else (cache ! i)\<lparr>trans_timer := t\<rparr>)], a')"
     "timer_type t = TIMER_ONCE" "cb t = Some Trans_timer_cb_clear"
     "\<not> expires now (cache ! i) \<longrightarrow> is_running t = is_running (trans_timer (cache ! i))"
     "wf_allocator a'" "alloc_dom a' = alloc_dom a"
     "alloc_used a' = (if expires now (cache ! i) then alloc_used a - unclaimed (cache ! i) else alloc_used a)"
    using trans_update_timer_eq[OF assms, of now] by blast
  then show ?thesis
    using wf_cache_timer_upd[OF assms(1,3) t(2,3)] assms(3)
    by (cases "expires now (cache ! i)") simp_all
qed

lemma update_timer_cases:
  assumes "i < length cache" "trans_update_timer now cache i a = Inr (rv, cache', a')"
  obtains (waits) t where "cache' = cache[i := (cache ! i)\<lparr>trans_timer := t\<rparr>]" "a' = a"
    | (clears) c t tr where "trans_timer_cb_clear c ((cache ! i)\<lparr>trans_timer := t\<rparr>) a = Inr (rv, tr, a')"
      "cache' = cache[i := tr]"
proof (cases "timer_update now (trans_timer (cache ! i))")
  case (Pair r t)
  with assms that show thesis by (cases r) (auto simp: trans_update_timer_def)
qed

lemma update_timer_effect:
  assumes "i < length cache" "trans_update_timer now cache i a = Inr (rv, cache', a')"
  shows "same_config a a'"
    and "\<exists>tr. cache' = cache[i := tr] \<and> set (messages_ll tr) \<subseteq> set (messages_ll (cache ! i))"
proof -
  have cb: "same_config a b \<and> messages_ll tr' = []" if "trans_timer_cb_clear c tr a = Inr (r, tr', b)" for c tr r tr' b
    using that by (auto simp: trans_timer_cb_clear_def split: option.splits if_splits dest: release_same_config)
  show "same_config a a'" using assms by (cases rule: update_timer_cases) (auto dest: cb)
  show "\<exists>tr. cache' = cache[i := tr] \<and> set (messages_ll tr) \<subseteq> set (messages_ll (cache ! i))"
    using assms by (cases rule: update_timer_cases) (auto dest!: cb intro!: exI)
qed

lemma search_for_last_Some:
  assumes "trans_search_for_last tr type = Some m"
  shows "m \<in> set (messages_ll tr) \<and> msg_type m = type"
proof -
  have "foldl (\<lambda>last m. if msg_type m = type then Some m else last) acc ms = Some m \<Longrightarrow>
      acc = Some m \<or> (m \<in> set ms \<and> msg_type m = type)" for acc ms
    by (induction ms arbitrary: acc) (auto split: if_splits)
  with assms show ?thesis by (fastforce simp: trans_search_for_last_def)
qed

text \<open>The acknowledgements of a lease among the messages of a cache.\<close>

definition lease_acks :: "transaction_cache \<Rightarrow> dhcp_message set" where
  "lease_acks cache = {m. \<exists>tr \<in> set cache. m \<in> set (messages_ll tr) \<and> msg_type m = DHCP_ACK \<and> yiaddr m \<noteq> 0}"

lemma lease_acks_upd:
  "{m \<in> set (messages_ll tr). msg_type m = DHCP_ACK \<and> yiaddr m \<noteq> 0} \<subseteq> lease_acks cache \<Longrightarrow>
   lease_acks (cache[i := tr]) \<subseteq> lease_acks cache"
  by (auto simp: lease_acks_def dest!: set_update_subset_insert[THEN subsetD])

lemma trans_add_messages:
  "trans_add now tr m = (rv, tr') \<Longrightarrow> set (messages_ll tr') \<subseteq> insert m (set (messages_ll tr))"
  by (auto simp: trans_add_def Let_def split: if_splits)

lemma lease_acks_add:
  assumes "msg_type m = DHCP_ACK \<Longrightarrow> yiaddr m = 0"
  shows "lease_acks (fst (snd (trans_cache_add_message now cache m))) \<subseteq> lease_acks cache"
proof -
  let ?m = "m\<lparr>msg_time := now\<rparr>"
  have m: "msg_type ?m = DHCP_ACK \<Longrightarrow> yiaddr ?m = 0" using assms by simp
  have old: "lease_acks (cache[i := tr]) \<subseteq> lease_acks cache"
    if "i < length cache" "trans_add now (cache ! i) ?m = (rv, tr)" for i rv tr
    using trans_add_messages[OF that(2)] that(1) m
    by (intro lease_acks_upd) (auto simp: lease_acks_def intro!: bexI[of _ "cache ! i"])
  have new: "lease_acks (cache[i := tr]) \<subseteq> lease_acks cache"
    if "trans_add now (trans_clear now (cache ! i)) ?m = (rv, tr)" for i rv tr
    using trans_add_messages[OF that] m by (intro lease_acks_upd) auto
  show ?thesis
    using old new
    by (auto simp: trans_cache_add_message_def Let_def split: option.splits prod.splits
        dest!: retrieve_transaction_Some)
qed

text \<open>
  C12. The cache stores messages by transaction: starting from a fresh cache, after any
  sequence of messages the messages of a non-zero transaction id are exactly those the
  cache accepted with that id, in order, and the invariant holds (a transaction's timer
  runs exactly while it has messages, and no two transactions share an id).
\<close>

theorem cache_stores_by_xid:
  assumes "x \<noteq> 0"
  shows "wf_cache (snd (add_each (cache_add now) (trans_cache_new now sz time) ms)) \<and>
     msgs_of (snd (add_each (cache_add now) (trans_cache_new now sz time) ms)) x =
       map (\<lambda>m. m\<lparr>msg_time := now\<rparr>)
         (filter (\<lambda>m. xid m = x) (fst (add_each (cache_add now) (trans_cache_new now sz time) ms)))"
proof -
  have "msgs_of (trans_cache_new now sz time) x = []"
    using assms by (intro msgs_of_None) (auto simp: trans_cache_new_def trans_new_def)
  then show ?thesis using caches.add_each_msgs[OF wf_cache_new assms, where now = now and ms = ms] by simp
qed

theorem cache_stores_by_xid_witness:
  "msgs_of (snd (add_each (cache_add 9) (trans_cache_new 9 1 60) [(zero_message 0)\<lparr>xid := 7\<rparr>, (zero_message 0)\<lparr>xid := 8\<rparr>])) 7 =
     [(zero_message 0)\<lparr>xid := 7, msg_time := 9\<rparr>]"
  using cache_stores_by_xid[of 7 9 1 60 "[(zero_message 0)\<lparr>xid := 7\<rparr>, (zero_message 0)\<lparr>xid := 8\<rparr>]"]
  by (simp add: cache_add_def trans_cache_add_message_def trans_cache_new_def trans_new_def trans_clear_def
      trans_cache_retrieve_transaction_def cache_get_next_transaction_def trans_add_def timer_new_def
      timer_start_def Let_def zero_message_def)

text \<open>
  A message is refused only when every transaction of the cache is running and none has
  its id; a refused message changes nothing.
\<close>

theorem cache_refuses_only_when_full:
  assumes "wf_cache cache"
  shows "(fst (trans_cache_add_message now cache m) \<noteq> 0 \<longleftrightarrow>
       (\<forall>tr \<in> set cache. is_running (trans_timer tr) \<and> trans_xid tr \<noteq> xid m)) \<and>
     (fst (trans_cache_add_message now cache m) \<noteq> 0 \<longrightarrow>
       fst (snd (trans_cache_add_message now cache m)) = cache)"
proof -
  have "\<exists>tr \<in> set cache. trans_xid tr = xid m \<or> \<not> is_running (trans_timer tr)"
    if "i < length cache" "trans_xid (cache ! i) = xid m \<or> messages_ll (cache ! i) = []" for i
    using that assms by (intro bexI[of _ "cache ! i"]) (auto simp: wf_cache_def wf_trans_def)
  then show ?thesis by (cases rule: cache_add_message[OF assms, of now m]) auto
qed

theorem cache_refuses_only_when_full_witness:
  "fst (trans_cache_add_message 9 [] (zero_message 0)) \<noteq> 0 \<and>
   fst (snd (trans_cache_add_message 9 [] (zero_message 0))) = []"
  using cache_refuses_only_when_full[of "[]" 9 "zero_message 0"] by (simp add: wf_cache_def)



end
