(* ===== verification/Acl.thy ===== *)
theory Acl
  imports Transaction Xtoy
begin

text \<open>
  Access control (\<open>security/acl.c\<close>, \<open>security/dynamic_acl.c\<close>): a list of hardware
  addresses in text form that blocks or admits clients, and the list the server extends on
  its own with clients that occupy half of the transaction cache. Reading the entries from
  the configuration file goes through cJSON; the entries come in as the strings of the
  array, \<open>None\<close> for an element that is not a string.
\<close>

section \<open>The list\<close>

record acl =
  acl_entries :: "string list"
  acl_enabled :: bool
  acl_is_blacklist :: bool

abbreviation (input) ACL_ERROR :: int where "ACL_ERROR \<equiv> -1"
abbreviation (input) ACL_OK :: int where "ACL_OK \<equiv> 0"
abbreviation (input) ACL_ALLOW :: int where "ACL_ALLOW \<equiv> 1"
abbreviation (input) ACL_DENY :: int where "ACL_DENY \<equiv> 2"

definition ACL_new :: acl where
  "ACL_new = \<lparr>acl_entries = [], acl_enabled = False, acl_is_blacklist = False\<rparr>"

definition dynamic_ACL_new :: acl where
  "dynamic_ACL_new = ACL_new\<lparr>acl_is_blacklist := True\<rparr>"

definition tolower :: "char \<Rightarrow> char" where
  "tolower c = (if (65::nat) \<le> of_char c \<and> of_char c \<le> (90::nat) then char_of (of_char c + (32::nat)) else c)"

definition is_string_valid_mac :: "string \<Rightarrow> bool" where
  "is_string_valid_mac s \<longleftrightarrow> (\<forall>c \<in> set s. is_hex c \<or> c = CHR '':'') \<and> length s = 17"

fun load_entries_loop :: "string option list \<Rightarrow> string list \<Rightarrow> int \<times> string list" where
  "load_entries_loop [] acc = (ACL_OK, acc)"
| "load_entries_loop (None # es) acc = (ACL_ERROR, acc)"
| "load_entries_loop (Some s # es) acc =
     (if is_string_valid_mac s then load_entries_loop es (acc @ [map tolower s]) else (ACL_ERROR, acc))"

text \<open>\<open>None\<close>: the file, its security section or the array of entries is missing.\<close>

definition ACL_load_acl_entries :: "acl \<Rightarrow> string option list option \<Rightarrow> int \<times> acl" where
  "ACL_load_acl_entries acl config =
     (case config of None \<Rightarrow> (ACL_OK, acl)
      | Some es \<Rightarrow> (case load_entries_loop es [] of (rv, l) \<Rightarrow> (rv, acl\<lparr>acl_entries := l\<rparr>)))"

definition ACL_check_client_str :: "acl \<Rightarrow> string \<Rightarrow> int" where
  "ACL_check_client_str acl mac =
     (if \<not> acl_enabled acl then ACL_ALLOW
      else if \<exists>value \<in> set (acl_entries acl). take 17 value = take 17 mac
           then (if acl_is_blacklist acl then ACL_DENY else ACL_ALLOW)
           else (if acl_is_blacklist acl then ACL_ALLOW else ACL_DENY))"

definition ACL_check_client :: "acl \<Rightarrow> u8 list \<Rightarrow> int c" where
  "ACL_check_client acl mac = cbind (uint8_array_to_mac mac) (\<lambda>s. Inr (ACL_check_client_str acl s))"

section \<open>The dynamic list\<close>

text \<open>\<open>memcmp(a, b, 6) == 0\<close>.\<close>

definition mac_equal :: "u8 list \<Rightarrow> u8 list \<Rightarrow> bool" where
  "mac_equal a b \<longleftrightarrow> take 6 a = take 6 b"

fun count_associated :: "u8 list \<Rightarrow> transaction_cache \<Rightarrow> nat c" where
  "count_associated ch [] = Inr 0"
| "count_associated ch (tr # trs) =
     (if \<not> is_running (trans_timer tr) then count_associated ch trs
      else cbind (trans_get_index tr 0) (\<lambda>m.
        case m of None \<Rightarrow> count_associated ch trs
        | Some m \<Rightarrow> if mac_equal ch (chaddr m)
                    then cbind (count_associated ch trs) (\<lambda>n. Inr (Suc n))
                    else count_associated ch trs))"

definition dynamic_ACL_check :: "acl \<Rightarrow> u8 list \<Rightarrow> transaction_cache \<Rightarrow> (int \<times> acl) c" where
  "dynamic_ACL_check acl ch cache =
     (if \<not> acl_enabled acl then Inr (ACL_ALLOW, acl)
      else cbind (count_associated ch cache) (\<lambda>n.
        cbind (if n \<ge> length cache div 2
               then cbind (uint8_array_to_mac ch) (\<lambda>mac. Inr (acl\<lparr>acl_entries := acl_entries acl @ [mac]\<rparr>))
               else Inr acl) (\<lambda>acl.
        cbind (ACL_check_client acl ch) (\<lambda>rv. Inr (rv, acl)))))"

section \<open>Lemmas\<close>

text \<open>The clients a list names, by the first six bytes of their hardware address.\<close>

definition names :: "acl \<Rightarrow> u8 list \<Rightarrow> bool" where
  "names acl mac \<longleftrightarrow> (\<exists>m. length m = 6 \<and> m = take 6 mac \<and>
     (\<exists>s. uint8_array_to_mac m = Inr s \<and> s \<in> take 17 ` set (acl_entries acl)))"

lemma mac_string:
  assumes "6 \<le> length mac"
  obtains s where "uint8_array_to_mac mac = Inr s" "uint8_array_to_mac (take 6 mac) = Inr s" "length s = 17"
proof -
  have "length (take 6 mac) = 6" using assms by simp
  then obtain a b c d e f where m: "take 6 mac = [a, b, c, d, e, f]" by (rule length_6_cases)
  then show thesis
    using that uint8_array_to_mac_prefix[OF assms] mac_string_untruncated[of a b c d e f]
    by (simp add: hex2_def)
qed

lemma check_client_eq:
  assumes "6 \<le> length mac"
  shows "ACL_check_client acl mac =
     Inr (if acl_enabled acl \<and> names acl mac = acl_is_blacklist acl then ACL_DENY else ACL_ALLOW)"
proof -
  obtain s where s: "uint8_array_to_mac mac = Inr s" "uint8_array_to_mac (take 6 mac) = Inr s" "length s = 17"
    using assms by (rule mac_string)
  then have "names acl mac \<longleftrightarrow> s \<in> take 17 ` set (acl_entries acl)"
    using assms by (simp add: names_def)
  also have "\<dots> \<longleftrightarrow> (\<exists>value \<in> set (acl_entries acl). take 17 value = take 17 s)" using s(3) by auto
  finally show ?thesis using s(1)
    by (auto simp: ACL_check_client_def ACL_check_client_str_def)
qed

lemma mac_string_inj:
  assumes "6 \<le> length a" "6 \<le> length b" "uint8_array_to_mac a = uint8_array_to_mac b"
  shows "take 6 a = take 6 b"
proof -
  have ab: "length (take 6 a) = 6" "length (take 6 b) = 6" using assms by simp_all
  obtain a0 a1 a2 a3 a4 a5 where a: "take 6 a = [a0, a1, a2, a3, a4, a5]" using ab(1) by (rule length_6_cases)
  obtain b0 b1 b2 b3 b4 b5 where b: "take 6 b = [b0, b1, b2, b3, b4, b5]" using ab(2) by (rule length_6_cases)
  have "uint8_array_to_mac (take 6 a) = uint8_array_to_mac (take 6 b)"
    using assms uint8_array_to_mac_prefix by metis
  then show ?thesis unfolding a b mac_string_untruncated using scan_mac_string by (metis sum.inject(2))
qed

text \<open>The running transactions whose first message came from the client.\<close>

definition associated :: "u8 list \<Rightarrow> transaction_cache \<Rightarrow> transaction list" where
  "associated ch cache =
     filter (\<lambda>tr. is_running (trans_timer tr) \<and> mac_equal ch (chaddr (hd (messages_ll tr)))) cache"

lemma count_associated_eq:
  assumes "\<forall>tr \<in> set cache. wf_trans tr"
  shows "count_associated ch cache = Inr (length (associated ch cache))"
  using assms
  by (induction cache)
    (auto simp: associated_def trans_get_index_def list_get_index_def wf_trans_def hd_conv_nth)

lemma names_append:
  assumes "6 \<le> length mac" "uint8_array_to_mac mac = Inr s"
  shows "names (acl\<lparr>acl_entries := acl_entries acl @ [s]\<rparr>) c \<longleftrightarrow>
     names acl c \<or> (6 \<le> length c \<and> take 6 c = take 6 mac)"
proof (cases "6 \<le> length c")
  case True
  obtain t where t: "uint8_array_to_mac c = Inr t" "uint8_array_to_mac (take 6 c) = Inr t"
    using True by (rule mac_string)
  have len: "length s = 17" using assms by (metis mac_string sum.inject(2))
  have "t = s \<longleftrightarrow> take 6 c = take 6 mac"
    using mac_string_inj[OF True assms(1)] t assms uint8_array_to_mac_prefix by (metis sum.inject(2))
  with True t len show ?thesis by (auto simp: names_def)
qed (simp add: names_def)

lemma dynamic_check_eq:
  assumes "acl_enabled acl" "acl_is_blacklist acl" "\<forall>tr \<in> set cache. wf_trans tr" "6 \<le> length ch"
  shows "\<exists>rv acl'. dynamic_ACL_check acl ch cache = Inr (rv, acl') \<and>
     (rv = ACL_DENY \<longleftrightarrow> names acl ch \<or> length cache div 2 \<le> length (associated ch cache)) \<and>
     (rv \<noteq> ACL_DENY \<longrightarrow> rv = ACL_ALLOW) \<and> acl_enabled acl' \<and> acl_is_blacklist acl' \<and>
     (\<forall>c. names acl' c \<longleftrightarrow> names acl c \<or>
        (length cache div 2 \<le> length (associated ch cache) \<and> 6 \<le> length c \<and> take 6 c = take 6 ch))"
proof -
  obtain s where s: "uint8_array_to_mac ch = Inr s" using assms(4) by (rule mac_string)
  let ?acl = "acl\<lparr>acl_entries := acl_entries acl @ [s]\<rparr>"
  show ?thesis
    using assms s
    by (simp add: dynamic_ACL_check_def count_associated_eq check_client_eq names_append[OF assms(4) s])
qed

section \<open>Properties\<close>

text \<open>
  C36. The access check, when enabled, denies exactly the clients the list names if it is a
  blacklist, and exactly those it does not name if it is a whitelist; when disabled it
  admits everyone. Only the first six bytes of the hardware address count.
\<close>

theorem acl_decision:
  assumes "6 \<le> length mac"
  shows "ACL_check_client acl mac =
     Inr (if acl_enabled acl \<and> names acl mac = acl_is_blacklist acl then ACL_DENY else ACL_ALLOW)"
  using assms by (rule check_client_eq)

theorem acl_decision_witness:
  "ACL_check_client \<lparr>acl_entries = [''02:42:ac:11:00:0f''], acl_enabled = True, acl_is_blacklist = True\<rparr>
     [0x02, 0x42, 0xac, 0x11, 0, 0x0f] = Inr ACL_DENY"
proof -
  have "uint8_array_to_mac [0x02, 0x42, 0xac, 0x11, 0, 0x0f] = Inr ''02:42:ac:11:00:0f''" by code_simp
  then show ?thesis
    using acl_decision[of "[0x02, 0x42, 0xac, 0x11, 0, 0x0f]"
        "\<lparr>acl_entries = [''02:42:ac:11:00:0f''], acl_enabled = True, acl_is_blacklist = True\<rparr>"]
    by (simp add: names_def)
qed



text \<open>
  With a transaction cache of one entry the threshold is 0: the dynamic list, once
  enabled, denies every client at its first message.
\<close>

theorem dynamic_acl_small_cache:
  assumes "acl_enabled acl" "acl_is_blacklist acl" "wf_cache cache" "6 \<le> length ch" "length cache \<le> 1"
  shows "\<exists>acl'. dynamic_ACL_check acl ch cache = Inr (ACL_DENY, acl')"
proof -
  have "length cache div 2 = 0" using assms(5) by simp
  then show ?thesis using dynamic_check_eq[of acl cache ch] assms by (auto simp: wf_cache_def)
qed

theorem dynamic_acl_small_cache_witness:
  "\<exists>acl'. dynamic_ACL_check (dynamic_ACL_new\<lparr>acl_enabled := True\<rparr>) (zeros 18) [] = Inr (ACL_DENY, acl')"
  using dynamic_acl_small_cache[of "dynamic_ACL_new\<lparr>acl_enabled := True\<rparr>" "[]" "zeros 18"]
  by (simp add: dynamic_ACL_new_def wf_cache_def)

text \<open>
  Loading the entries succeeds exactly when every element is a string of 17 characters out
  of hexadecimal digits and colons, and then the list holds these strings in lower case, in
  order, in place of the old ones.
\<close>

theorem acl_load_entries:
  "ACL_load_acl_entries acl (Some es) = (ACL_OK, acl') \<longleftrightarrow>
     (\<exists>ss. es = map Some ss \<and> list_all is_string_valid_mac ss \<and>
        acl' = acl\<lparr>acl_entries := map (map tolower) ss\<rparr>)"
proof -
  have "load_entries_loop es acc = (ACL_OK, l) \<longleftrightarrow>
      (\<exists>ss. es = map Some ss \<and> list_all is_string_valid_mac ss \<and> l = acc @ map (map tolower) ss)" for acc l
  proof (induction es acc rule: load_entries_loop.induct)
    case (3 s es acc)
    then show ?case by (cases "is_string_valid_mac s") (auto simp: Cons_eq_map_conv)
  qed (auto simp: Cons_eq_map_conv)
  note loop = this[of "[]"]
  have "ACL_load_acl_entries acl (Some es) = (ACL_OK, acl') \<longleftrightarrow>
      (\<exists>l. load_entries_loop es [] = (ACL_OK, l) \<and> acl' = acl\<lparr>acl_entries := l\<rparr>)"
    by (cases "load_entries_loop es []") (auto simp: ACL_load_acl_entries_def)
  then show ?thesis unfolding loop by auto
qed

end
