(* ===== verification/Database.thy ===== *)
theory Database
  imports Transaction Xtoy
begin

text \<open>
  The database of received packets (\<open>database.c\<close>): one file per transaction id and hardware
  address under \<open>/var/dhcp/database\<close>, to which every packet is appended behind 128 bytes of
  metadata. A file is the list of these records (the text of the metadata up to its NUL, and
  the packet): both are written and read as a whole. Failures of \<open>read\<close> and \<open>write\<close> are not
  modelled.
\<close>

section \<open>Names and metadata\<close>

type_synonym database = "string \<rightharpoonup> (string \<times> dhcp_packet) list"

text \<open>\<open>%08x\<close>.\<close>

definition hex8 :: "u32 \<Rightarrow> string" where
  "hex8 w = map (\<lambda>i. digit_char (unat w div 16 ^ i mod 16)) [7, 6, 5, 4, 3, 2, 1, 0]"

definition hex_mac :: "u8 list \<Rightarrow> string" where
  "hex_mac mac = concat (map hex2 (take 6 mac))"

definition db_name :: "u32 \<Rightarrow> u8 list \<Rightarrow> string" where
  "db_name x mac = hex8 x @ ''_'' @ hex_mac mac @ ''.dhcp''"

definition db_path :: "u32 \<Rightarrow> u8 list \<Rightarrow> string" where
  "db_path x mac = ''/var/dhcp/database/'' @ db_name x mac"

definition db_metadata :: "u32 \<Rightarrow> u8 list \<Rightarrow> string" where
  "db_metadata now mac = ''T:'' @ hex8 now @ ''CA:'' @ hex_mac mac @ ''P:''"

text \<open>
  \<open>%08lx\<close>: at most eight characters, sign and prefix counted; the value goes into the 32 bits of
  \<open>time\<close> and the padding behind it.
\<close>

definition scan_lx8 :: "string \<Rightarrow> (u32 \<times> string) option" where
  "scan_lx8 s =
     (let s0 = dropWhile is_space s; (neg, s1) = scan_sign s0;
          s2 = (if take 2 s1 = ''0x'' \<or> take 2 s1 = ''0X'' then drop 2 s1 else s1);
          ds = takeWhile is_hex (take (8 - (length s0 - length s2)) s2)
      in if ds = [] then None else Some (of_nat (strtoul64 neg (digits_val 16 0 ds)), drop (length ds) s2))"

text \<open>\<open>sscanf(buff, "T:%08lx", ...)\<close>\<close>

definition scan_time :: "string \<Rightarrow> u32 option" where
  "scan_time s = do {
     s \<leftarrow> scan_lit (CHR ''T'') s; s \<leftarrow> scan_lit (CHR '':'') s;
     (t, s) \<leftarrow> scan_lx8 s;
     Some t }"

section \<open>Storing and loading\<close>

definition database_store_message ::
    "u32 \<Rightarrow> (string \<Rightarrow> bool) \<Rightarrow> database \<Rightarrow> dhcp_message \<Rightarrow> (int \<times> database) c" where
  "database_store_message now can_open db message =
     (if length (chaddr message) < 6 then Inl Out_of_bounds
      else
        let path = db_path (xid message) (chaddr message) in
        if \<not> can_open path then Inr (-1, db)
        else Inr (0, db(path \<mapsto> (case db path of None \<Rightarrow> [] | Some es \<Rightarrow> es) @
               [(db_metadata now (chaddr message), packet message)])))"

text \<open>
  The loop of \<open>database_load_transaction\<close>; one message buffer is parsed over and over again.
  \<open>None\<close> is the result NULL.
\<close>

fun load_transaction_loop ::
    "u32 \<Rightarrow> (heap \<Rightarrow> ref) \<Rightarrow> (string \<times> dhcp_packet) list \<Rightarrow> dhcp_message \<Rightarrow> transaction \<Rightarrow> heap \<Rightarrow>
     (transaction option \<times> heap) c" where
  "load_transaction_loop now pick [] message tr h = Inr (Some tr, h)"
| "load_transaction_loop now pick ((buff, p) # es) message tr h =
     (let message = message\<lparr>packet := p\<rparr> in
      case scan_time buff of
        None \<Rightarrow> load_transaction_loop now pick es message tr h
      | Some t \<Rightarrow>
          cbind (dhcp_packet_parse pick (message\<lparr>msg_time := t\<rparr>) h) (\<lambda>(rv, message, h).
            if rv \<noteq> 0 then Inr (None, h)
            else case trans_add now tr message of (rv, tr) \<Rightarrow>
              if rv \<noteq> 0 then Inr (None, h) else load_transaction_loop now pick es message tr h))"

definition database_load_transaction ::
    "u32 \<Rightarrow> (heap \<Rightarrow> ref) \<Rightarrow> (string \<Rightarrow> bool) \<Rightarrow> database \<Rightarrow> u32 \<Rightarrow> u8 list \<Rightarrow> heap \<Rightarrow>
     (transaction option \<times> heap) c" where
  "database_load_transaction now pick can_open db x mac h =
     (if x = 0 then Inr (None, h)
      else if length mac < 6 then Inl Out_of_bounds
      else case db (db_path x mac) of
        None \<Rightarrow> Inr (None, h)
      | Some es \<Rightarrow>
          if \<not> can_open (db_path x mac) then Inr (None, h)
          else case dhcp_message_new pick h of (message, h) \<Rightarrow>
            load_transaction_loop now pick es message (trans_new now 0) h)"

text \<open>The array \<open>mac_arr\<close> is not initialised: \<open>stack\<close> is what is in it.\<close>

definition database_load_transaction_str ::
    "u32 \<Rightarrow> (heap \<Rightarrow> ref) \<Rightarrow> (string \<Rightarrow> bool) \<Rightarrow> database \<Rightarrow> u32 \<Rightarrow> string \<Rightarrow> u8 list \<Rightarrow> heap \<Rightarrow>
     (transaction option \<times> heap) c" where
  "database_load_transaction_str now pick can_open db x mac stack h =
     cbind (mac_to_uint8_array mac stack) (\<lambda>mac_arr. database_load_transaction now pick can_open db x mac_arr h)"

section \<open>Searching the directory\<close>

text \<open>\<open>sscanf(name, "%08x_%[a-f0-9].dhcp", &dxid, dmac)\<close> with both items stored.\<close>

definition is_lower_hex :: "char \<Rightarrow> bool" where
  "is_lower_hex c \<longleftrightarrow> is_hex c \<and> \<not> ((65::nat) \<le> of_char c \<and> of_char c \<le> (70::nat))"

definition scan_db_name :: "string \<Rightarrow> (u32 \<times> string) option" where
  "scan_db_name s = do {
     (x, s) \<leftarrow> scan_lx8 s; s \<leftarrow> scan_lit (CHR ''_'') s;
     (if takeWhile is_lower_hex s = [] then None else Some (x, takeWhile is_lower_hex s)) }"

text \<open>\<open>sscanf(dmac, "%2hhx%2hhx...", &mac[0], ...)\<close>: as many bytes as match.\<close>

fun scan_bytes :: "string \<Rightarrow> nat \<Rightarrow> u8 list" where
  "scan_bytes s 0 = []"
| "scan_bytes s (Suc k) = (case scan_x2 s of None \<Rightarrow> [] | Some (b, s') \<Rightarrow> b # scan_bytes s' k)"

text \<open>
  The loop over the directory: the id and the address of the entry found. \<open>dmac\<close> has room for
  31 digits; \<open>strncmp\<close> compares twelve.
\<close>

fun find_entry :: "u32 \<Rightarrow> u8 list \<Rightarrow> bool \<Rightarrow> string list \<Rightarrow> (u32 \<times> u8 list) option c" where
  "find_entry x mac find_xid [] = Inr None"
| "find_entry x mac find_xid (name # names) =
     (case scan_db_name name of
        None \<Rightarrow> find_entry x mac find_xid names
      | Some (dxid, dmac) \<Rightarrow>
          if 32 \<le> length dmac then Inl Out_of_bounds
          else if find_xid \<and> take 12 dmac = take 12 (hex_mac mac) then Inr (Some (dxid, mac))
          else if dxid = x then
            (let bs = scan_bytes dmac 6 in Inr (Some (x, bs @ drop (length bs) mac)))
          else find_entry x mac find_xid names)"

text \<open>\<open>None\<close> for a directory that can not be opened.\<close>

definition database_find_xid_or_mac ::
    "u32 \<Rightarrow> (heap \<Rightarrow> ref) \<Rightarrow> (string \<Rightarrow> bool) \<Rightarrow> database \<Rightarrow> string list option \<Rightarrow> u32 \<Rightarrow> u8 list \<Rightarrow> bool \<Rightarrow> heap \<Rightarrow>
     (transaction option \<times> heap) c" where
  "database_find_xid_or_mac now pick can_open db dir x mac find_xid h =
     (case dir of None \<Rightarrow> Inr (None, h)
      | Some names \<Rightarrow>
          if length mac < 6 then Inl Out_of_bounds
          else cbind (find_entry x mac find_xid names) (\<lambda>found.
            case found of None \<Rightarrow> Inr (None, h)
            | Some (x, mac) \<Rightarrow> database_load_transaction now pick can_open db x mac h))"

definition database_load_transaction_xid where
  "database_load_transaction_xid now pick can_open db dir x h =
     database_find_xid_or_mac now pick can_open db dir x [0, 0, 0, 0, 0, 0] False h"

definition database_load_transaction_mac where
  "database_load_transaction_mac now pick can_open db dir mac h =
     database_find_xid_or_mac now pick can_open db dir 0 mac True h"

definition database_load_transaction_mac_str where
  "database_load_transaction_mac_str now pick can_open db dir mac stack h =
     cbind (mac_to_uint8_array mac stack) (\<lambda>mac_arr. database_load_transaction_mac now pick can_open db dir mac_arr h)"

section \<open>Lemmas\<close>

lemma digits_val_hex8: "digits_val 16 0 (hex8 w) = unat w"
proof -
  define n where "n = unat w"
  have n: "n < 16 ^ 8" using unat_u32[of w] by (simp add: n_def)
  have step: "16 * (n div 16 ^ j) + n div 16 ^ i mod 16 = n div 16 ^ i" if "j = Suc i" for i j
    unfolding that by (simp add: div_mult2_eq mult.commute[of 16])
  have "n div 16 ^ 7 mod 16 = n div 16 ^ 7" using n by (simp add: less_mult_imp_div_less)
  moreover have "digits_val 16 0 (hex8 w) =
      16 * (16 * (16 * (16 * (16 * (16 * (16 * (n div 16 ^ 7 mod 16) + n div 16 ^ 6 mod 16) + n div 16 ^ 5 mod 16) +
        n div 16 ^ 4 mod 16) + n div 16 ^ 3 mod 16) + n div 16 ^ 2 mod 16) + n div 16 ^ 1 mod 16) + n div 16 ^ 0 mod 16"
    unfolding hex8_def n_def list.map digits_val.simps
    by (simp only: digit_val_digit mod_less_divisor zero_less_numeral option.case mult_0_right add_0)
  moreover have "16 * (n div 16 ^ 7) + n div 16 ^ 6 mod 16 = n div 16 ^ 6" "16 * (n div 16 ^ 6) + n div 16 ^ 5 mod 16 = n div 16 ^ 5"
    "16 * (n div 16 ^ 5) + n div 16 ^ 4 mod 16 = n div 16 ^ 4" "16 * (n div 16 ^ 4) + n div 16 ^ 3 mod 16 = n div 16 ^ 3"
    "16 * (n div 16 ^ 3) + n div 16 ^ 2 mod 16 = n div 16 ^ 2" "16 * (n div 16 ^ 2) + n div 16 ^ 1 mod 16 = n div 16 ^ 1"
    "16 * (n div 16 ^ 1) + n div 16 ^ 0 mod 16 = n div 16 ^ 0"
    by (rule step, simp)+
  ultimately have "digits_val 16 0 (hex8 w) = n div 16 ^ 0" by (simp only:)
  then show ?thesis by (simp add: n_def)
qed

lemma hex8_chars: "length (hex8 w) = 8" "\<forall>c \<in> set (hex8 w). is_hex c" "hex8 w \<noteq> []"
  by (simp_all add: hex8_def is_hex_def)

lemma scan_lx8_hex8: "scan_lx8 (hex8 w @ rest) = Some (w, rest)"
proof -
  have head: "hex8 w = digit_char (unat w div 16 ^ 7 mod 16) # map (\<lambda>i. digit_char (unat w div 16 ^ i mod 16)) [6, 5, 4, 3, 2, 1, 0]"
    by (simp add: hex8_def)
  have sp: "dropWhile is_space (hex8 w @ rest) = hex8 w @ rest" unfolding head by simp
  have sg: "scan_sign (hex8 w @ rest) = (False, hex8 w @ rest)" unfolding head by (simp add: scan_sign_def)
  have nx: "take 2 (hex8 w @ rest) \<noteq> ''0x''" "take 2 (hex8 w @ rest) \<noteq> ''0X''" by (simp_all add: hex8_def)
  have tw: "takeWhile is_hex (hex8 w) = hex8 w" using hex8_chars(2) by (simp add: takeWhile_eq_all_conv)
  have "strtoul64 False (unat w) = unat w" using unat_u32[of w] by (simp add: strtoul64_def)
  then show ?thesis
    unfolding scan_lx8_def Let_def sp sg using nx hex8_chars(1,3)[of w] by (simp add: tw digits_val_hex8)
qed

lemma scan_time_metadata: "scan_time (db_metadata now mac) = Some now"
  by (simp add: scan_time_def db_metadata_def scan_lit_def scan_lx8_hex8)

text \<open>A packet of the transaction \<open>x\<close> that the parser accepts.\<close>

definition parsable :: "u32 \<Rightarrow> dhcp_packet \<Rightarrow> bool" where
  "parsable x p \<longleftrightarrow> wf_packet p \<and> pkt_cookie p = htonl MAGIC_COOKIE \<and> pkt_xid p = htonl x \<and>
     (\<exists>os rest. pkt_options p = encode os @ 0xff # rest \<and> sendable os \<and>
        dhcp_option_retrieve os DHCP_OPTION_DHCP_MESSAGE_TYPE \<noteq> None)"

lemma parsable_parse:
  assumes "parsable x p" "wf_message m" "h (dhcp_options m) = Some old"
  obtains m' h' os where "dhcp_packet_parse pick (m\<lparr>packet := p, msg_time := t\<rparr>) h = Inr (0, m', h')" "wf_message m'"
    "h' (dhcp_options m') = Some os" "packet m' = p" "msg_time m' = t" "xid m' = x"
proof -
  let ?m = "m\<lparr>packet := p, msg_time := t\<rparr>"
  from assms(1) obtain os rest o53 where p: "pkt_options p = encode os @ 0xff # rest" "sendable os"
    "dhcp_option_retrieve os DHCP_OPTION_DHCP_MESSAGE_TYPE = Some o53" "wf_packet p" "pkt_cookie p = htonl MAGIC_COOKIE"
    "pkt_xid p = htonl x"
    by (auto simp: parsable_def)
  have wf: "wf_message ?m" using assms(2) p(4) by (simp add: wf_message_def)
  obtain m' where m': "dhcp_packet_parse pick ?m h = Inr (0, m', h(dhcp_options m := None, pick (h(dhcp_options m := None)) \<mapsto> os))"
    "packet m' = p" "msg_time m' = t" "xid m' = x" "dhcp_options m' = pick (h(dhcp_options m := None))"
    "chaddr m' = pkt_chaddr p @ drop 16 (chaddr m)" "sname m' = pkt_sname p" "filename m' = pkt_filename p"
    using packet_parse_eq[OF wf, of h old os rest o53 "pick (h(dhcp_options m := None))" pick] assms(3) p by auto
  have "wf_message m'" using wf p(4) m'(2,6-8) by (simp add: wf_message_def wf_packet_def)
  then show thesis by (rule that[OF m'(1)]) (use m' in simp_all)
qed

lemma trans_add_eq:
  assumes "trans_xid tr = 0 \<or> trans_xid tr = xid m" "xid m \<noteq> 0" "num_of_messages tr = 0 \<or> trans_xid tr = xid m"
  obtains tr' where "trans_add now tr m = (0, tr')" "messages_ll tr' = messages_ll tr @ [m]" "trans_xid tr' = xid m"
  using assms by (auto simp: trans_add_def Let_def)

lemma load_transaction_loop_eq:
  assumes "\<forall>(buff, p) \<in> set es. scan_time buff \<noteq> None \<and> parsable x p" "wf_message m" "h (dhcp_options m) = Some old" "x \<noteq> 0"
    and "trans_xid tr = x \<or> trans_xid tr = 0 \<and> num_of_messages tr = 0"
  shows "\<exists>tr' h'. load_transaction_loop now pick es m tr h = Inr (Some tr', h') \<and>
     map packet (messages_ll tr') = map packet (messages_ll tr) @ map snd es \<and>
     map msg_time (messages_ll tr') = map msg_time (messages_ll tr) @ map (the \<circ> scan_time \<circ> fst) es \<and>
     (es \<noteq> [] \<longrightarrow> trans_xid tr' = x)"
  using assms
proof (induction es arbitrary: m tr h old)
  case (Cons e es)
  obtain buff p where e: "e = (buff, p)" by (cases e)
  with Cons.prems(1) obtain t where t: "scan_time buff = Some t" and p: "parsable x p" by auto
  obtain m1 h1 os where m1: "dhcp_packet_parse pick (m\<lparr>packet := p, msg_time := t\<rparr>) h = Inr (0, m1, h1)" "wf_message m1"
    "h1 (dhcp_options m1) = Some os" "packet m1 = p" "msg_time m1 = t" "xid m1 = x"
    using p Cons.prems(2,3) by (rule parsable_parse)
  obtain tr1 where tr1: "trans_add now tr m1 = (0, tr1)" "messages_ll tr1 = messages_ll tr @ [m1]" "trans_xid tr1 = xid m1"
    by (rule trans_add_eq[of tr m1 now]) (use Cons.prems(4,5) m1(6) in auto)
  have "load_transaction_loop now pick (e # es) m tr h = load_transaction_loop now pick es m1 tr1 h1"
    using e t m1(1) tr1(1) by simp
  moreover obtain tr' h' where "load_transaction_loop now pick es m1 tr1 h1 = Inr (Some tr', h')"
    "map packet (messages_ll tr') = map packet (messages_ll tr1) @ map snd es"
    "map msg_time (messages_ll tr') = map msg_time (messages_ll tr1) @ map (the \<circ> scan_time \<circ> fst) es"
    "es \<noteq> [] \<longrightarrow> trans_xid tr' = x" "es = [] \<longrightarrow> tr' = tr1"
    using Cons.IH[of m1 h1 os tr1] m1(2,3) Cons.prems(1,4) tr1(3) m1(6) by (cases "es = []") auto
  ultimately show ?case
    using e t tr1 m1(4-6) by (intro exI[of _ tr'] exI[of _ h']) (cases "es = []"; simp del: load_transaction_loop.simps)
qed simp

section \<open>Properties\<close>

text \<open>Storing messages one after the other, each at its time.\<close>

fun store_all :: "(string \<Rightarrow> bool) \<Rightarrow> database \<Rightarrow> (u32 \<times> dhcp_message) list \<Rightarrow> database c" where
  "store_all can_open db [] = Inr db"
| "store_all can_open db ((now, m) # ms) =
     cbind (database_store_message now can_open db m) (\<lambda>(_, db). store_all can_open db ms)"

lemma store_all_eq:
  assumes "can_open (db_path x mac)" "\<forall>(now, m) \<in> set ms. xid m = x \<and> 6 \<le> length (chaddr m) \<and> take 6 (chaddr m) = take 6 mac"
  shows "\<exists>db'. store_all can_open db ms = Inr db' \<and> (\<forall>q. q \<noteq> db_path x mac \<longrightarrow> db' q = db q) \<and>
     (case db' (db_path x mac) of None \<Rightarrow> [] | Some es \<Rightarrow> es) = (case db (db_path x mac) of None \<Rightarrow> [] | Some es \<Rightarrow> es) @
       map (\<lambda>(now, m). (db_metadata now mac, packet m)) ms \<and>
     (ms \<noteq> [] \<longrightarrow> db' (db_path x mac) \<noteq> None)"
  using assms(2)
proof (induction ms arbitrary: db)
  case (Cons nm ms)
  obtain now m where nm: "nm = (now, m)" by (cases nm)
  have same: "hex_mac (chaddr m) = hex_mac mac" using Cons.prems nm by (simp add: hex_mac_def)
  then have path: "db_path (xid m) (chaddr m) = db_path x mac" "db_metadata now (chaddr m) = db_metadata now mac"
    using Cons.prems nm by (simp_all add: db_path_def db_name_def db_metadata_def)
  define db1 where "db1 = db(db_path x mac \<mapsto> (case db (db_path x mac) of None \<Rightarrow> [] | Some es \<Rightarrow> es) @ [(db_metadata now mac, packet m)])"
  have "database_store_message now can_open db m = Inr (0, db1)"
    using assms(1) Cons.prems nm unfolding database_store_message_def Let_def path by (simp add: db1_def)
  moreover have "db1 (db_path x mac) = Some ((case db (db_path x mac) of None \<Rightarrow> [] | Some es \<Rightarrow> es) @ [(db_metadata now mac, packet m)])"
    "\<forall>q. q \<noteq> db_path x mac \<longrightarrow> db1 q = db q" by (simp_all add: db1_def)
  moreover obtain db' where "store_all can_open db1 ms = Inr db'" "\<forall>q. q \<noteq> db_path x mac \<longrightarrow> db' q = db1 q"
    "(case db' (db_path x mac) of None \<Rightarrow> [] | Some es \<Rightarrow> es) = (case db1 (db_path x mac) of None \<Rightarrow> [] | Some es \<Rightarrow> es) @
       map (\<lambda>(now, m). (db_metadata now mac, packet m)) ms"
    using Cons.IH[of db1] Cons.prems nm by auto
  ultimately show ?case
    using nm by (intro exI[of _ db']) (auto split: option.splits)
qed simp

text \<open>
  C31. What is stored can be loaded: the packets of a transaction of one client, stored one after
  the other, come back as the messages of one transaction, in order, with their packets and the
  times at which they were stored.
\<close>

theorem database_roundtrip:
  assumes "can_open (db_path x mac)" "db (db_path x mac) = None" "ms \<noteq> []" "x \<noteq> 0" "6 \<le> length mac"
    and "\<forall>(now, m) \<in> set ms. xid m = x \<and> 6 \<le> length (chaddr m) \<and> take 6 (chaddr m) = take 6 mac \<and> parsable x (packet m)"
  shows "\<exists>db' tr h'. store_all can_open db ms = Inr db' \<and>
     database_load_transaction now pick can_open db' x mac h = Inr (Some tr, h') \<and> trans_xid tr = x \<and>
     map packet (messages_ll tr) = map (packet \<circ> snd) ms \<and> map msg_time (messages_ll tr) = map fst ms"
proof -
  let ?es = "map (\<lambda>(now, m). (db_metadata now mac, packet m)) ms" and ?r = "pick h"
  obtain db' where db': "store_all can_open db ms = Inr db'" "db' (db_path x mac) = Some ?es"
    using store_all_eq[of can_open x mac ms db] assms(1,2,3,6) by (fastforce split: option.splits)
  have "\<forall>(buff, p) \<in> set ?es. scan_time buff \<noteq> None \<and> parsable x p" using assms(6) by (auto simp: scan_time_metadata)
  moreover have "(h(?r \<mapsto> [])) (dhcp_options (zero_message ?r)) = Some []" by (simp add: zero_message_def)
  moreover have "trans_xid (trans_new now 0) = 0" "num_of_messages (trans_new now 0) = 0" "messages_ll (trans_new now 0) = []"
    by (simp_all add: trans_new_def)
  ultimately obtain tr h' where "load_transaction_loop now pick ?es (zero_message ?r) (trans_new now 0) (h(?r \<mapsto> [])) = Inr (Some tr, h')"
    "map packet (messages_ll tr) = map snd ?es" "map msg_time (messages_ll tr) = map (the \<circ> scan_time \<circ> fst) ?es" "trans_xid tr = x"
    using load_transaction_loop_eq[of ?es x "zero_message ?r" "h(?r \<mapsto> [])" "[]" "trans_new now 0" now pick] assms(3,4) wf_zero_message[of ?r]
    by auto
  with db' assms(1,4,5) show ?thesis
    by (auto simp: database_load_transaction_def dhcp_message_new_def heap_new_def scan_time_metadata comp_def split_def)
qed

definition stored_message :: dhcp_message where
  "stored_message = (zero_message 0)\<lparr>xid := 7, packet := zero_packet\<lparr>pkt_xid := htonl 7, pkt_cookie := htonl MAGIC_COOKIE,
     pkt_options := encode [message_type_option 1] @ 0xff # zeros 332\<rparr>\<rparr>"

lemma stored_message_parsable: "parsable 7 (packet stored_message)"
proof -
  have "length (encode [message_type_option 1]) = 3" using encode_message_type[of 1] by simp
  then have "wf_packet (packet stored_message)" by (simp add: stored_message_def wf_packet_def zero_packet_def)
  moreover have "pkt_options (packet stored_message) = encode [message_type_option 1] @ 0xff # zeros 332"
    "dhcp_option_retrieve [message_type_option 1] DHCP_OPTION_DHCP_MESSAGE_TYPE \<noteq> None"
    by (simp_all add: stored_message_def dhcp_option_retrieve_def message_type_option_def)
  moreover have "pkt_cookie (packet stored_message) = htonl MAGIC_COOKIE" "pkt_xid (packet stored_message) = htonl 7"
    by (simp_all add: stored_message_def)
  ultimately show ?thesis
    unfolding parsable_def using sendable_message_type[of 1] by blast
qed

theorem database_roundtrip_witness:
  "\<exists>db' tr h'. store_all (\<lambda>_. True) Map.empty [(5, stored_message), (6, stored_message)] = Inr db' \<and>
     database_load_transaction 9 (\<lambda>_. 0) (\<lambda>_. True) db' 7 (zeros 6) Map.empty = Inr (Some tr, h') \<and>
     map msg_time (messages_ll tr) = [5, 6]"
proof -
  have "xid stored_message = 7" "chaddr stored_message = zeros 18" by (simp_all add: stored_message_def zero_message_def)
  with database_roundtrip[of "\<lambda>_. True" 7 "zeros 6" Map.empty "[(5, stored_message), (6, stored_message)]" 9 "\<lambda>_. 0" Map.empty]
    stored_message_parsable
  show ?thesis by (auto simp: zeros_def)
qed

end
