(* ===== verification/Messages.thy ===== *)
theory Messages
  imports Lease Acl Database
begin

text \<open>
  The message handlers (\<open>messages/*.c\<close>) on the state of the server. The environment of a
  call gives the clock, the addresses \<open>calloc\<close> picks for option lists, which packets
  \<open>sendto\<close> accepts, which files can be opened and the cJSON functions. \<open>sent\<close> collects
  the packets handed to the socket with their destination; \<open>srv_db\<close> is the database of
  messages with its switch \<open>config.db_enable\<close>. The log is not part of the state.
\<close>

section \<open>The state of the server\<close>

record 'j env =
  env_now :: u32
  env_pick :: "heap \<Rightarrow> ref"
  env_send :: "dhcp_packet \<Rightarrow> bool"
  env_open :: "string \<Rightarrow> bool"
  env_json :: "'j cjson"

record dhcp_server =
  srv_allocator :: allocator
  trans_cache :: transaction_cache
  lease_expiration_check :: timer
  bound_ip :: u32
  broadcast_addr :: u32
  srv_acl :: acl
  srv_dacl :: acl
  srv_heap :: heap
  srv_files :: files
  srv_db_enable :: u8
  srv_db :: database
  sent :: "(u32 \<times> dhcp_packet) list"

text \<open>\<open>if_failed(call, exit)\<close>: leave with the current \<open>rv\<close> when the call returns non-zero.\<close>

definition if_failed :: "int \<Rightarrow> (int \<times> 's) c \<Rightarrow> ('s \<Rightarrow> (int \<times> 's) c) \<Rightarrow> (int \<times> 's) c" where
  "if_failed rv call k = cbind call (\<lambda>(r, s). if r \<noteq> 0 then Inr (rv, s) else k s)"

definition options_of :: "dhcp_server \<Rightarrow> dhcp_message \<Rightarrow> dhcp_option list c" where
  "options_of srv m = heap_get (srv_heap srv) (dhcp_options m)"

definition retrieve_option :: "dhcp_server \<Rightarrow> dhcp_message \<Rightarrow> u8 \<Rightarrow> dhcp_option option c" where
  "retrieve_option srv m tag = cbind (options_of srv m) (\<lambda>os. Inr (dhcp_option_retrieve os tag))"

definition set_options :: "dhcp_server \<Rightarrow> dhcp_message \<Rightarrow> dhcp_option list \<Rightarrow> dhcp_server" where
  "set_options srv m os = srv\<lparr>srv_heap := (srv_heap srv)(dhcp_options m \<mapsto> os)\<rparr>"

section \<open>Sending\<close>

definition send_to :: "'j env \<Rightarrow> dhcp_server \<Rightarrow> dhcp_message \<Rightarrow> u32 \<Rightarrow> (int \<times> dhcp_server) c" where
  "send_to env srv m dest =
     (if env_send env (packet m) then Inr (0, srv\<lparr>sent := sent srv @ [(dest, packet m)]\<rparr>) else Inr (-1, srv))"

definition message_dhcpoffer_send :: "'j env \<Rightarrow> dhcp_server \<Rightarrow> dhcp_message \<Rightarrow> (int \<times> dhcp_server) c" where
  "message_dhcpoffer_send env srv m = send_to env srv m (htonl (broadcast_addr srv))"

definition message_dhcpack_send :: "'j env \<Rightarrow> dhcp_server \<Rightarrow> dhcp_message \<Rightarrow> (int \<times> dhcp_server) c" where
  "message_dhcpack_send env srv m =
     send_to env srv m (if ciaddr m \<noteq> 0 then htonl (ciaddr m) else htonl (broadcast_addr srv))"

definition message_nak_send :: "'j env \<Rightarrow> dhcp_server \<Rightarrow> dhcp_message \<Rightarrow> (int \<times> dhcp_server) c" where
  "message_nak_send env srv m =
     send_to env srv m (if ciaddr m \<noteq> 0 then ciaddr m else htonl (broadcast_addr srv))"

text \<open>\<open>if (server->config.db_enable) database_store_message(m)\<close>: the result is not looked at.\<close>

definition store_database :: "'j env \<Rightarrow> dhcp_server \<Rightarrow> dhcp_message \<Rightarrow> dhcp_server c" where
  "store_database env srv m =
     (if srv_db_enable srv = 0 then Inr srv
      else cbind (database_store_message (env_now env) (env_open env) (srv_db srv) m)
             (\<lambda>(_, db). Inr (srv\<lparr>srv_db := db\<rparr>)))"

text \<open>The end of every builder: the packet is built, sent, and the message stored.\<close>

definition build_send_store ::
    "'j env \<Rightarrow> ('j env \<Rightarrow> dhcp_server \<Rightarrow> dhcp_message \<Rightarrow> (int \<times> dhcp_server) c) \<Rightarrow>
     dhcp_server \<Rightarrow> dhcp_message \<Rightarrow> (int \<times> dhcp_server) c" where
  "build_send_store env send srv m =
     cbind (dhcp_packet_build m (srv_heap srv)) (\<lambda>(rv, m).
       if rv \<noteq> 0 then Inr (-1, srv)
       else if_failed (-1) (send env srv m) (\<lambda>srv.
         case trans_cache_add_message (env_now env) (trans_cache srv) m of
           (rv, cache, m) \<Rightarrow>
             let srv = srv\<lparr>trans_cache := cache\<rparr> in
             if rv \<noteq> 0 then Inr (-1, srv) else cbind (store_database env srv m) (\<lambda>srv. Inr (0, srv))))"

section \<open>The options of an answer\<close>

text \<open>The parameter request list, copied into a zeroed array of 256 bytes.\<close>

definition requested_options :: "dhcp_server \<Rightarrow> dhcp_message \<Rightarrow> u8 list c" where
  "requested_options srv m =
     cbind (retrieve_option srv m DHCP_OPTION_PARAMETER_REQUEST_LIST) (\<lambda>o55.
       case o55 of None \<Rightarrow> Inl Null_deref
       | Some o55 \<Rightarrow> memcpy (zeros 256) 0 (opt_value o55) (len o55))"

definition build_options ::
    "dhcp_server \<Rightarrow> dhcp_message \<Rightarrow> u8 list \<Rightarrow> u8 list \<Rightarrow> u8 list \<Rightarrow> dhcp_option list \<Rightarrow> u32 \<Rightarrow>
     (int \<times> dhcp_server) c" where
  "build_options srv m requested required black pool_options type =
     cbind (options_of srv m) (\<lambda>dest.
     cbind (dhcp_option_build_required_options dest requested required black
              (default_options (srv_allocator srv)) pool_options type) (\<lambda>(rv, dest).
       Inr (if rv \<noteq> 0 then -1 else 0, set_options srv m dest)))"

definition ack_get_requested_dhcp_options ::
    "dhcp_server \<Rightarrow> dhcp_message \<Rightarrow> u32 \<Rightarrow> dhcp_message \<Rightarrow> (int \<times> dhcp_server) c" where
  "ack_get_requested_dhcp_options srv request leased_address ack =
     cbind (requested_options srv request) (\<lambda>requested.
       case allocator_get_pool_by_address (srv_allocator srv) leased_address of
         None \<Rightarrow> Inr (-1, srv)
       | Some i \<Rightarrow> build_options srv ack requested [51, 54, 0] [50, 55, 61, 57, 0]
                    (dhcp_option_override (address_pools (srv_allocator srv) ! i)) DHCP_ACK)"

definition get_requested_dhcp_options_inform_response ::
    "dhcp_server \<Rightarrow> dhcp_message \<Rightarrow> dhcp_message \<Rightarrow> (int \<times> dhcp_server) c" where
  "get_requested_dhcp_options_inform_response srv inform ack =
     cbind (requested_options srv inform) (\<lambda>requested.
       case allocator_get_pool_by_address (srv_allocator srv) (ciaddr inform) of
         None \<Rightarrow> Inr (-1, srv)
       | Some i \<Rightarrow> build_options srv ack requested [54, 0] [50, 51, 55, 61, 57, 0]
                    (dhcp_option_override (address_pools (srv_allocator srv) ! i)) DHCP_ACK)"

definition offer_get_requested_dhcp_options ::
    "dhcp_server \<Rightarrow> dhcp_message \<Rightarrow> u32 \<Rightarrow> dhcp_message \<Rightarrow> (int \<times> dhcp_server) c" where
  "offer_get_requested_dhcp_options srv discover offered_address offer =
     cbind (requested_options srv discover) (\<lambda>requested.
       case allocator_get_pool_by_address (srv_allocator srv) offered_address of
         None \<Rightarrow> Inr (-1, srv)
       | Some i \<Rightarrow>
           if_failed (-1) (build_options srv offer requested [51, 54, 0] [50, 55, 61, 57, 0]
                    (dhcp_option_override (address_pools (srv_allocator srv) ! i)) DHCP_OFFER) (\<lambda>srv.
           cbind (retrieve_option srv discover DHCP_OPTION_CLIENT_IDENTIFIER) (\<lambda>o61_client.
             case o61_client of None \<Rightarrow> Inr (0, srv)
             | Some o61_client \<Rightarrow>
                 cbind (dhcp_option_new_values (uint DHCP_OPTION_CLIENT_IDENTIFIER) (uint (opt_lenght o61_client))
                          (opt_value o61_client)) (\<lambda>o61.
                 cbind (options_of srv offer) (\<lambda>os.
                   case dhcp_option_add os (Some o61) of
                     (rv, os) \<Rightarrow> Inr (if rv \<noteq> 0 then -1 else 0, set_options srv offer os))))))"

definition nak_get_requested_dhcp_options :: "dhcp_server \<Rightarrow> dhcp_message \<Rightarrow> (int \<times> dhcp_server) c" where
  "nak_get_requested_dhcp_options srv nak =
     cbind (dhcp_option_new_values (uint DHCP_OPTION_PARAMETER_REQUEST_LIST) 1 [0]) (\<lambda>requested.
       build_options srv nak (opt_value requested) [54, 0] [0] (default_options (srv_allocator srv)) DHCP_NAK)"

section \<open>Builders\<close>

definition message_dhcpoffer_build ::
    "'j env \<Rightarrow> dhcp_server \<Rightarrow> dhcp_message \<Rightarrow> u32 \<Rightarrow> u32 \<Rightarrow> (int \<times> dhcp_server) c" where
  "message_dhcpoffer_build env srv discover offered_address offered_lease_duration =
     (case dhcp_message_new (env_pick env) (srv_heap srv) of (m, h) \<Rightarrow>
        let srv = srv\<lparr>srv_heap := h\<rparr>;
            offer = m\<lparr>opcode := BOOTREPLY, htype := htype discover, hlen := hlen discover, hops := 0,
              xid := xid discover, secs := 0, ciaddr := 0, yiaddr := offered_address,
              siaddr := bound_ip srv, flags := flags discover, giaddr := giaddr discover,
              cookie := cookie discover, msg_type := DHCP_OFFER, chaddr := chaddr discover\<rparr>
        in if_failed (-1) (offer_get_requested_dhcp_options srv discover offered_address offer)
             (\<lambda>srv. build_send_store env message_dhcpoffer_send srv offer))"

definition message_dhcpack_build ::
    "'j env \<Rightarrow> dhcp_server \<Rightarrow> dhcp_message \<Rightarrow> u32 \<Rightarrow> u32 \<Rightarrow> (int \<times> dhcp_server) c" where
  "message_dhcpack_build env srv request acked_lease_duration leased_address =
     (case dhcp_message_new (env_pick env) (srv_heap srv) of (m, h) \<Rightarrow>
        let srv = srv\<lparr>srv_heap := h\<rparr>;
            ack = m\<lparr>opcode := BOOTREPLY, htype := htype request, hlen := hlen request, hops := 0,
              xid := xid request, secs := 0, ciaddr := ciaddr request, yiaddr := leased_address,
              siaddr := bound_ip srv, flags := flags request, giaddr := giaddr request,
              cookie := cookie request, chaddr := chaddr request\<rparr>
        in if_failed (-1) (ack_get_requested_dhcp_options srv request leased_address ack)
             (\<lambda>srv. build_send_store env message_dhcpack_send srv ack))"

definition message_dhcpack_build_lease_renew ::
    "'j env \<Rightarrow> dhcp_server \<Rightarrow> dhcp_message \<Rightarrow> (int \<times> dhcp_server) c" where
  "message_dhcpack_build_lease_renew env srv request =
     (case dhcp_message_new (env_pick env) (srv_heap srv) of (m, h) \<Rightarrow>
        let srv = srv\<lparr>srv_heap := h\<rparr>;
            ack = m\<lparr>opcode := BOOTREPLY, htype := htype request, hlen := hlen request, hops := 0,
              xid := xid request, secs := 0, ciaddr := ciaddr request, yiaddr := ciaddr request,
              siaddr := bound_ip srv, flags := flags request, giaddr := 0,
              cookie := cookie request, chaddr := chaddr request\<rparr>
        in if_failed (-1) (ack_get_requested_dhcp_options srv request (ciaddr ack) ack)
             (\<lambda>srv. build_send_store env message_dhcpack_send srv ack))"

definition message_dhcpack_build_inform_response ::
    "'j env \<Rightarrow> dhcp_server \<Rightarrow> dhcp_message \<Rightarrow> (int \<times> dhcp_server) c" where
  "message_dhcpack_build_inform_response env srv inform =
     (if ciaddr inform = 0 then Inr (-1, srv)
      else (case dhcp_message_new (env_pick env) (srv_heap srv) of (m, h) \<Rightarrow>
        let srv = srv\<lparr>srv_heap := h\<rparr>;
            ack = m\<lparr>opcode := BOOTREPLY, htype := htype inform, hlen := hlen inform, hops := 0,
              xid := xid inform, secs := 0, ciaddr := ciaddr inform, yiaddr := 0,
              siaddr := bound_ip srv, flags := flags inform, giaddr := giaddr inform,
              cookie := cookie inform, msg_type := DHCP_ACK, chaddr := chaddr inform\<rparr>
        in if_failed (-1) (get_requested_dhcp_options_inform_response srv inform ack)
             (\<lambda>srv. build_send_store env message_dhcpack_send srv ack)))"

definition message_dhcpnak_build ::
    "'j env \<Rightarrow> dhcp_server \<Rightarrow> dhcp_message \<Rightarrow> (int \<times> dhcp_server) c" where
  "message_dhcpnak_build env srv request =
     (case dhcp_message_new (env_pick env) (srv_heap srv) of (m, h) \<Rightarrow>
        let srv = srv\<lparr>srv_heap := h\<rparr>;
            nak = m\<lparr>opcode := BOOTREPLY, htype := htype request, hlen := hlen request, hops := 0,
              xid := xid request, secs := 0, ciaddr := 0, yiaddr := 0, siaddr := 0,
              flags := flags request, giaddr := giaddr request, msg_type := DHCP_NAK,
              chaddr := chaddr request, cookie := cookie request\<rparr>
        in if_failed (-1) (nak_get_requested_dhcp_options srv nak)
             (\<lambda>srv. build_send_store env message_nak_send srv nak))"

section \<open>DHCPDISCOVER\<close>

definition allocate_particular_address ::
    "dhcp_server \<Rightarrow> dhcp_message \<Rightarrow> (u32 \<times> dhcp_server) c" where
  "allocate_particular_address srv msg =
     cbind (retrieve_option srv msg DHCP_OPTION_REQUESTED_IP_ADDRESS) (\<lambda>o50.
       case o50 of None \<Rightarrow> Inr (0, srv)
       | Some o50 \<Rightarrow> cbind (allocator_request_this_address (srv_allocator srv) (ip o50) 0) (\<lambda>(_, address, a).
                      Inr (address, srv\<lparr>srv_allocator := a\<rparr>)))"

definition allocate_random_address :: "dhcp_server \<Rightarrow> (u32 \<times> dhcp_server) c" where
  "allocate_random_address srv =
     cbind (allocator_request_any_address (srv_allocator srv) 0) (\<lambda>(_, address, a).
       Inr (address, srv\<lparr>srv_allocator := a\<rparr>))"

definition get_lease_duration :: "dhcp_server \<Rightarrow> dhcp_message \<Rightarrow> u32 c" where
  "get_lease_duration srv msg =
     cbind (retrieve_option srv msg DHCP_OPTION_IP_ADDRESS_LEASE_TIME) (\<lambda>o51_requested.
       case dhcp_option_retrieve (default_options (srv_allocator srv)) DHCP_OPTION_IP_ADDRESS_LEASE_TIME of
         None \<Rightarrow> Inr 0
       | Some o51_global \<Rightarrow>
           (case o51_requested of
              None \<Rightarrow> Inr (number o51_global)
            | Some o51_requested \<Rightarrow>
                if number o51_requested \<le> number o51_global then Inr (number o51_requested)
                else Inr (number o51_global)))"

definition message_dhcpdiscover_handle ::
    "'j env \<Rightarrow> dhcp_server \<Rightarrow> dhcp_message \<Rightarrow> (int \<times> dhcp_server) c" where
  "message_dhcpdiscover_handle env srv message =
     cbind (retrieve_option srv message DHCP_OPTION_REQUESTED_IP_ADDRESS) (\<lambda>o50.
     cbind (if o50 \<noteq> None then allocate_particular_address srv message else Inr (0, srv))
       (\<lambda>(new_address, srv).
     cbind (if new_address = 0 then allocate_random_address srv else Inr (new_address, srv))
       (\<lambda>(new_address, srv).
       if new_address = 0 then Inr (-1, srv)
       else cbind (get_lease_duration srv message) (\<lambda>lease_time.
         if lease_time = 0 then Inr (-1, srv)
         else if_failed (-1) (message_dhcpoffer_build env srv message new_address lease_time)
                (\<lambda>srv. Inr (0, srv))))))"

section \<open>DHCPREQUEST\<close>

abbreviation (input) DHCP_REQUEST_COMMIT_ERROR :: int where "DHCP_REQUEST_COMMIT_ERROR \<equiv> -3"
abbreviation (input) DHCP_REQUEST_INVALID :: int where "DHCP_REQUEST_INVALID \<equiv> -2"
abbreviation (input) DHCP_REQUEST_ERROR :: int where "DHCP_REQUEST_ERROR \<equiv> -1"
abbreviation (input) DHCP_REQUEST_OK :: int where "DHCP_REQUEST_OK \<equiv> 0"
abbreviation (input) DHCP_REQUEST_DIFFERENT_SERVER_IDENTIFICATOR :: int where
  "DHCP_REQUEST_DIFFERENT_SERVER_IDENTIFICATOR \<equiv> 1"

definition dhcp_requst_commit_lease ::
    "'j env \<Rightarrow> dhcp_server \<Rightarrow> dhcp_message \<Rightarrow> u32 \<Rightarrow> u32 \<Rightarrow> (int \<times> dhcp_server) c" where
  "dhcp_requst_commit_lease env srv request lease_time leased_address =
     (case allocator_get_pool_by_address (srv_allocator srv) leased_address of
        None \<Rightarrow> Inr (DHCP_REQUEST_COMMIT_ERROR, srv)
      | Some i \<Rightarrow>
          let pool = address_pools (srv_allocator srv) ! i;
              start = env_now env in
          cbind (memcpy (zeros 6) 0 (chaddr request) 6) (\<lambda>mac.
          let l = \<lparr>lease_address = leased_address, lease_subnet = pool_mask pool,
                   lease_pool_name = Some (pool_name pool), lease_start = start,
                   lease_expire = start + lease_time, lease_xid = xid request,
                   lease_flags = 0, client_mac_address = mac\<rparr> in
          cbind (lease_add (env_json env) (env_open env) (srv_files srv) l) (\<lambda>(rv, fs).
            let srv = srv\<lparr>srv_files := fs\<rparr> in
            Inr (if rv \<noteq> 0 then DHCP_REQUEST_COMMIT_ERROR else DHCP_REQUEST_OK, srv))))"

text \<open>\<open>memcmp\<close> of the values of two options over a number of bytes.\<close>

definition values_differ :: "dhcp_option \<Rightarrow> dhcp_option \<Rightarrow> nat \<Rightarrow> bool" where
  "values_differ a b n \<longleftrightarrow> take n (opt_value a) \<noteq> take n (opt_value b)"

definition validate_client_id_and_requested_params :: "dhcp_server \<Rightarrow> dhcp_message \<Rightarrow> bool c" where
  "validate_client_id_and_requested_params srv request =
     (case trans_cache_retrieve_message (trans_cache srv) (xid request) DHCP_DISCOVER of
        None \<Rightarrow> Inr False
      | Some discover \<Rightarrow>
          cbind (retrieve_option srv request DHCP_OPTION_CLIENT_IDENTIFIER) (\<lambda>request_o61.
          cbind (retrieve_option srv discover DHCP_OPTION_CLIENT_IDENTIFIER) (\<lambda>discover_o61.
            if (case (request_o61, discover_o61) of
                  (Some r, Some d) \<Rightarrow> values_differ r d (len r) | _ \<Rightarrow> False)
            then Inr False
            else
              cbind (retrieve_option srv request DHCP_OPTION_PARAMETER_REQUEST_LIST) (\<lambda>request_o55.
              cbind (retrieve_option srv discover DHCP_OPTION_PARAMETER_REQUEST_LIST) (\<lambda>discover_o55.
                case (request_o55, discover_o55) of
                  (Some r, Some d) \<Rightarrow> Inr (\<not> values_differ r d (len r))
                | _ \<Rightarrow> Inr False)))))"

definition retrieve_client_address :: "dhcp_server \<Rightarrow> dhcp_message \<Rightarrow> u32 c" where
  "retrieve_client_address srv request =
     cbind (retrieve_option srv request DHCP_OPTION_REQUESTED_IP_ADDRESS) (\<lambda>o50.
       case o50 of Some o50 \<Rightarrow> Inr (ip o50)
       | None \<Rightarrow>
           (case trans_cache_retrieve_message (trans_cache srv) (xid request) DHCP_OFFER of
              None \<Rightarrow> Inr 0
            | Some offer \<Rightarrow>
                cbind (retrieve_option srv offer DHCP_OPTION_REQUESTED_IP_ADDRESS) (\<lambda>o50.
                  case o50 of None \<Rightarrow> Inr 0 | Some o50 \<Rightarrow> Inr (ip o50))))"

definition retrieve_lease_time :: "u32 \<Rightarrow> allocator \<Rightarrow> u32 c" where
  "retrieve_lease_time address a =
     (if address = 0 then Inr 0
      else (case allocator_get_pool_by_address a address of
              None \<Rightarrow> Inl Null_deref
            | Some i \<Rightarrow>
                (case lookup_option (dhcp_option_override (address_pools a ! i)) (default_options a)
                        DHCP_OPTION_IP_ADDRESS_LEASE_TIME of
                   None \<Rightarrow> Inr 0
                 | Some o51 \<Rightarrow> Inr (number o51))))"

definition dhcp_request_response_to_offer ::
    "'j env \<Rightarrow> dhcp_server \<Rightarrow> dhcp_message \<Rightarrow> dhcp_option \<Rightarrow> (int \<times> dhcp_server) c" where
  "dhcp_request_response_to_offer env srv request o54 =
     (if ip o54 \<noteq> bound_ip srv then Inr (DHCP_REQUEST_DIFFERENT_SERVER_IDENTIFICATOR, srv)
      else if ciaddr request \<noteq> 0 \<or> yiaddr request \<noteq> 0 then Inr (DHCP_REQUEST_INVALID, srv)
      else cbind (validate_client_id_and_requested_params srv request) (\<lambda>valid.
        if \<not> valid then Inr (DHCP_REQUEST_INVALID, srv)
        else cbind (retrieve_client_address srv request) (\<lambda>requested_ip.
          if requested_ip = 0 then Inr (DHCP_REQUEST_INVALID, srv)
          else cbind (allocator_is_address_available (srv_allocator srv) requested_ip) (\<lambda>available.
            if available then Inr (DHCP_REQUEST_INVALID, srv)
            else cbind (retrieve_lease_time requested_ip (srv_allocator srv)) (\<lambda>lease_time.
              if lease_time = 0 then Inr (DHCP_REQUEST_INVALID, srv)
              else cbind (dhcp_requst_commit_lease env srv request lease_time requested_ip) (\<lambda>(rv, srv).
                if rv < 0 then Inr (DHCP_REQUEST_INVALID, srv) else Inr (DHCP_REQUEST_OK, srv)))))))"

definition dhcp_request_renew_lease ::
    "'j env \<Rightarrow> dhcp_server \<Rightarrow> dhcp_message \<Rightarrow> (int \<times> dhcp_server) c" where
  "dhcp_request_renew_lease env srv request =
     (if ciaddr request = 0 then Inr (-1, srv)
      else cbind (lease_retrieve_address (env_json env) (env_open env) (srv_files srv) lease_new (ciaddr request)
                    (address_pools (srv_allocator srv))) (\<lambda>(rv, l, fs).
        let srv = srv\<lparr>srv_files := fs\<rparr> in
        if rv \<noteq> 0 then Inr (-1, srv)
        else if take 6 (client_mac_address l) \<noteq> take 6 (chaddr request) then Inr (-1, srv)
        else cbind (lease_remove (env_json env) (env_open env) (srv_files srv) l) (\<lambda>(rv, fs).
          let srv = srv\<lparr>srv_files := fs\<rparr> in
          if rv \<noteq> 0 then Inr (-1, srv)
          else cbind (retrieve_lease_time (ciaddr request) (srv_allocator srv)) (\<lambda>lease_time.
            let l = l\<lparr>lease_start := env_now env, lease_expire := env_now env + lease_time\<rparr> in
            cbind (lease_add (env_json env) (env_open env) (srv_files srv) l) (\<lambda>(rv, fs).
              let srv = srv\<lparr>srv_files := fs\<rparr> in
              if rv \<noteq> 0 then Inr (-1, srv) else Inr (0, srv))))))"

definition message_dhcprequest_handle ::
    "'j env \<Rightarrow> dhcp_server \<Rightarrow> dhcp_message \<Rightarrow> (int \<times> dhcp_server) c" where
  "message_dhcprequest_handle env srv request =
     cbind (retrieve_option srv request DHCP_OPTION_SERVER_IDENTIFIER) (\<lambda>o54.
       case o54 of
         Some o54 \<Rightarrow>
           cbind (dhcp_request_response_to_offer env srv request o54) (\<lambda>(rv, srv).
             if rv < 0 then
               cbind (message_dhcpnak_build env srv request) (\<lambda>(r, srv).
                 if r < 0 then Inr (rv, srv) else Inr (0, srv))
             else if rv \<noteq> DHCP_REQUEST_DIFFERENT_SERVER_IDENTIFICATOR then
               cbind (retrieve_option srv request DHCP_OPTION_REQUESTED_IP_ADDRESS) (\<lambda>o50.
                 case o50 of None \<Rightarrow> Inl Null_deref
                 | Some o50 \<Rightarrow>
                     cbind (message_dhcpack_build env srv request (number o54) (ip o50)) (\<lambda>(r, srv).
                       if r < 0 then Inr (rv, srv) else Inr (0, srv)))
             else Inr (0, srv))
       | None \<Rightarrow>
           if ciaddr request \<noteq> 0 then
             cbind (dhcp_request_renew_lease env srv request) (\<lambda>(_, srv).
               if_failed (-1) (message_dhcpack_build_lease_renew env srv request) (\<lambda>srv. Inr (0, srv)))
           else Inr (0, srv))"

section \<open>DHCPDECLINE, DHCPRELEASE and DHCPINFORM\<close>

definition message_dhcpdecline_handle ::
    "'j env \<Rightarrow> dhcp_server \<Rightarrow> dhcp_message \<Rightarrow> (int \<times> dhcp_server) c" where
  "message_dhcpdecline_handle env srv message =
     (case trans_cache_retrieve_message_last (trans_cache srv) (xid message) DHCP_ACK of
        None \<Rightarrow> Inr (-1, srv)
      | Some ack \<Rightarrow>
          if yiaddr ack = 0 then Inr (-1, srv)
          else cbind (allocator_is_address_available (srv_allocator srv) (yiaddr ack)) (\<lambda>available.
            if available
            then cbind (allocator_request_this_address (srv_allocator srv) (yiaddr ack) 0) (\<lambda>(_, _, a).
                   Inr (0, srv\<lparr>srv_allocator := a\<rparr>))
            else Inr (0, srv)))"

definition message_dhcprelease_handle ::
    "'j env \<Rightarrow> dhcp_server \<Rightarrow> dhcp_message \<Rightarrow> (int \<times> dhcp_server) c" where
  "message_dhcprelease_handle env srv message =
     (if ciaddr message = 0 then Inr (-1, srv)
      else cbind (lease_retrieve_address (env_json env) (env_open env) (srv_files srv) lease_new (ciaddr message)
                    (address_pools (srv_allocator srv))) (\<lambda>(rv, l, fs).
        let srv = srv\<lparr>srv_files := fs\<rparr> in
        if rv \<noteq> 0 then Inr (-1, srv)
        else cbind (lease_remove (env_json env) (env_open env) (srv_files srv) l) (\<lambda>(rv, fs).
          let srv = srv\<lparr>srv_files := fs\<rparr> in
          if rv \<noteq> 0 then Inr (-1, srv)
          else cbind (allocator_release_address (srv_allocator srv) (lease_address l)) (\<lambda>(rv, a).
            let srv = srv\<lparr>srv_allocator := a\<rparr> in
            if rv \<noteq> 0 then Inr (-1, srv) else Inr (0, srv)))))"

definition message_dhcpinform_handle ::
    "'j env \<Rightarrow> dhcp_server \<Rightarrow> dhcp_message \<Rightarrow> (int \<times> dhcp_server) c" where
  "message_dhcpinform_handle env srv message =
     cbind (message_dhcpack_build_inform_response env srv message) (\<lambda>(r, srv).
       if r < 0 then Inr (-1, srv) else Inr (0, srv))"

end
