(* ===== verification/Handlers.thy ===== *)
theory Handlers
  imports Messages
begin

text \<open>
  Lemmas on the message handlers: what each of them leaves alone, the invariant of the
  server's tables, and the answers the server builds, sends and stores.
\<close>

section \<open>The invariant of the tables\<close>

definition wf_server :: "dhcp_server \<Rightarrow> bool" where
  "wf_server srv \<longleftrightarrow> wf_cache (trans_cache srv) \<and> wf_allocator (srv_allocator srv) \<and>
     pools_disjoint (srv_allocator srv) \<and> 0 \<notin> alloc_dom (srv_allocator srv)"

text \<open>Building an answer touches only the heap, the cache and the packets sent.\<close>

definition answers :: "dhcp_server \<Rightarrow> dhcp_server \<Rightarrow> bool" where
  "answers srv srv' \<longleftrightarrow> srv_allocator srv' = srv_allocator srv \<and> srv_files srv' = srv_files srv \<and>
     srv_acl srv' = srv_acl srv \<and> srv_dacl srv' = srv_dacl srv \<and> bound_ip srv' = bound_ip srv \<and>
     broadcast_addr srv' = broadcast_addr srv \<and> lease_expiration_check srv' = lease_expiration_check srv \<and>
     (wf_cache (trans_cache srv) \<longrightarrow> wf_cache (trans_cache srv')) \<and>
     lease_acks (trans_cache srv') \<subseteq> lease_acks (trans_cache srv)"

lemma answers_refl [simp]: "answers srv srv"
  by (simp add: answers_def)

lemma answers_heap [simp]: "answers srv (srv\<lparr>srv_heap := h\<rparr>)" "answers srv (set_options srv m os)"
  by (simp_all add: answers_def set_options_def)

lemma answers_trans: "answers a b \<Longrightarrow> answers b c \<Longrightarrow> answers a c"
  by (auto simp: answers_def)

lemma answers_wf: "answers srv srv' \<Longrightarrow> wf_server srv \<Longrightarrow> wf_server srv'"
  by (simp add: answers_def wf_server_def)

lemma if_failed_Inr:
  "if_failed rv call k = Inr (r, s') \<longleftrightarrow> (\<exists>r1 s1. call = Inr (r1, s1) \<and>
     (if r1 \<noteq> 0 then r = rv \<and> s' = s1 else k s1 = Inr (r, s')))"
  by (auto simp: if_failed_def split: prod.splits if_splits)

lemma wf_cache_add: "wf_cache cache \<Longrightarrow> wf_cache (fst (snd (trans_cache_add_message now cache m)))"
  using caches.add_inv[of cache now m] by (simp add: cache_add_def split_def)

lemma send_to_answers: "send_to env srv m dest = Inr (rv, srv') \<Longrightarrow> answers srv srv'"
  by (auto simp: send_to_def answers_def split: if_splits)

lemma packet_build_fields:
  assumes "dhcp_packet_build m h = Inr (rv, m')"
  shows "msg_type m' = msg_type m \<and> yiaddr m' = yiaddr m"
proof -
  have "msg_type m1 = msg_type m \<and> yiaddr m1 = yiaddr m" if "build_header m = Inr m1" for m1
    using that unfolding build_header_def Let_def by (elim cbindE) auto
  with assms show ?thesis
    unfolding dhcp_packet_build_def Let_def split_def by (elim cbindE if_cases) fastforce+
qed

text \<open>The database after a message was offered to it.\<close>

definition db_log :: "'j env \<Rightarrow> dhcp_server \<Rightarrow> dhcp_message \<Rightarrow> database" where
  "db_log env srv m =
     (let path = db_path (xid m) (chaddr m) in
      if srv_db_enable srv = 0 \<or> \<not> env_open env path then srv_db srv
      else (srv_db srv)(path \<mapsto> (case srv_db srv path of None \<Rightarrow> [] | Some es \<Rightarrow> es) @
             [(db_metadata (env_now env) (chaddr m), packet m)]))"

lemma store_database_eq:
  "6 \<le> length (chaddr m) \<Longrightarrow> store_database env srv m = Inr (srv\<lparr>srv_db := db_log env srv m\<rparr>)"
  by (auto simp: store_database_def db_log_def database_store_message_def Let_def)

lemma store_database_cases:
  assumes "store_database env srv m = Inr srv'"
  obtains db where "srv' = srv\<lparr>srv_db := db\<rparr>"
  using assms that[of "srv_db srv"] that by (auto simp: store_database_def split: if_splits)

lemma answers_db [simp]: "answers srv (s\<lparr>srv_db := db\<rparr>) = answers srv s"
  by (simp add: answers_def)

lemma build_send_store_answers:
  assumes "build_send_store env send srv m = Inr (rv, srv')"
    and "\<And>m rv srv'. send env srv m = Inr (rv, srv') \<Longrightarrow> answers srv srv'"
    and "msg_type m = DHCP_ACK \<Longrightarrow> yiaddr m = 0"
  shows "answers srv srv'"
proof -
  have "answers srv (s\<lparr>trans_cache := fst (snd (trans_cache_add_message now (trans_cache s) m1))\<rparr>)"
    if "answers srv s" "msg_type m1 = msg_type m" "yiaddr m1 = yiaddr m" for s now m1
    using that wf_cache_add lease_acks_add[of m1 now "trans_cache s"] assms(3) by (auto simp: answers_def)
  with assms(1,2) show ?thesis
    by (auto simp: build_send_store_def if_failed_Inr Let_def split_def split: if_splits
        elim!: store_database_cases dest!: packet_build_fields)
qed

lemma build_options_answers:
  "build_options srv m requested required black po type = Inr (rv, srv') \<Longrightarrow> answers srv srv'"
  by (auto simp: build_options_def split: prod.splits)

lemma get_options_answers:
  "ack_get_requested_dhcp_options srv req x ack = Inr (rv, srv') \<Longrightarrow> answers srv srv'"
  "get_requested_dhcp_options_inform_response srv req ack = Inr (rv, srv') \<Longrightarrow> answers srv srv'"
  "nak_get_requested_dhcp_options srv ack = Inr (rv, srv') \<Longrightarrow> answers srv srv'"
  by (auto simp: ack_get_requested_dhcp_options_def get_requested_dhcp_options_inform_response_def
      nak_get_requested_dhcp_options_def split: option.splits dest: build_options_answers)

lemma offer_options_answers:
  assumes "offer_get_requested_dhcp_options srv req x offer = Inr (rv, srv')"
  shows "answers srv srv'"
proof -
  have step: "answers srv s \<Longrightarrow> answers srv (set_options s offer os)" for s os
    by (metis answers_heap(2) answers_trans)
  show ?thesis
    using assms
    by (auto simp: offer_get_requested_dhcp_options_def if_failed_Inr split_def
        split: option.splits if_splits dest!: build_options_answers intro!: step)
qed

lemma sends_answers:
  "message_dhcpoffer_send env srv m = Inr (rv, srv') \<Longrightarrow> answers srv srv'"
  "message_dhcpack_send env srv m = Inr (rv, srv') \<Longrightarrow> answers srv srv'"
  "message_nak_send env srv m = Inr (rv, srv') \<Longrightarrow> answers srv srv'"
  by (auto simp: message_dhcpoffer_send_def message_dhcpack_send_def message_nak_send_def dest: send_to_answers)

text \<open>A builder in the shape all five have.\<close>

lemma builder_answers:
  assumes "if_failed (-1) (opts (srv\<lparr>srv_heap := h\<rparr>)) (\<lambda>srv. build_send_store env send srv m) = Inr (rv, srv')"
    and "\<And>s r s'. opts s = Inr (r, s') \<Longrightarrow> answers s s'"
    and "\<And>s m r s'. send env s m = Inr (r, s') \<Longrightarrow> answers s s'"
    and "msg_type m = DHCP_ACK \<Longrightarrow> yiaddr m = 0"
  shows "answers srv srv'"
proof -
  obtain r1 s1 where o: "opts (srv\<lparr>srv_heap := h\<rparr>) = Inr (r1, s1)"
    and rest: "if r1 \<noteq> 0 then rv = -1 \<and> srv' = s1 else build_send_store env send s1 m = Inr (rv, srv')"
    using assms(1) by (auto simp: if_failed_Inr)
  have "answers srv s1" using assms(2)[OF o] answers_heap(1) answers_trans by blast
  moreover have "answers s1 srv'"
  proof (cases "r1 = 0")
    case True
    with rest have "build_send_store env send s1 m = Inr (rv, srv')" by simp
    then show ?thesis by (rule build_send_store_answers) (use assms(3,4) in auto)
  qed (use rest in simp)
  ultimately show ?thesis by (rule answers_trans)
qed

lemma builders_answer:
  "message_dhcpoffer_build env srv req x d = Inr (rv, srv') \<Longrightarrow> answers srv srv'"
  "message_dhcpack_build env srv req d x = Inr (rv, srv') \<Longrightarrow> answers srv srv'"
  "message_dhcpack_build_lease_renew env srv req = Inr (rv, srv') \<Longrightarrow> answers srv srv'"
  "message_dhcpack_build_inform_response env srv req = Inr (rv, srv') \<Longrightarrow> answers srv srv'"
  "message_dhcpnak_build env srv req = Inr (rv, srv') \<Longrightarrow> answers srv srv'"
proof -
  show "message_dhcpoffer_build env srv req x d = Inr (rv, srv') \<Longrightarrow> answers srv srv'"
    unfolding message_dhcpoffer_build_def Let_def split_def
    by (erule builder_answers[where opts = "\<lambda>s. offer_get_requested_dhcp_options s _ _ _"])
      (auto dest: offer_options_answers sends_answers simp: zero_message_def dhcp_message_new_def heap_new_def)
  show "message_dhcpack_build env srv req d x = Inr (rv, srv') \<Longrightarrow> answers srv srv'"
    unfolding message_dhcpack_build_def Let_def split_def
    by (erule builder_answers[where opts = "\<lambda>s. ack_get_requested_dhcp_options s _ _ _"])
      (auto dest: get_options_answers sends_answers simp: zero_message_def dhcp_message_new_def heap_new_def)
  show "message_dhcpack_build_lease_renew env srv req = Inr (rv, srv') \<Longrightarrow> answers srv srv'"
    unfolding message_dhcpack_build_lease_renew_def Let_def split_def
    by (erule builder_answers[where opts = "\<lambda>s. ack_get_requested_dhcp_options s _ _ _"])
      (auto dest: get_options_answers sends_answers simp: zero_message_def dhcp_message_new_def heap_new_def)
  show "message_dhcpack_build_inform_response env srv req = Inr (rv, srv') \<Longrightarrow> answers srv srv'"
    unfolding message_dhcpack_build_inform_response_def Let_def split_def
    by (auto split: if_splits
        elim!: builder_answers[where opts = "\<lambda>s. get_requested_dhcp_options_inform_response s _ _"]
        dest: get_options_answers sends_answers)
  show "message_dhcpnak_build env srv req = Inr (rv, srv') \<Longrightarrow> answers srv srv'"
    unfolding message_dhcpnak_build_def Let_def split_def
    by (erule builder_answers[where opts = "\<lambda>s. nak_get_requested_dhcp_options s _"])
      (auto dest: get_options_answers sends_answers simp: zero_message_def dhcp_message_new_def heap_new_def)
qed

section \<open>The answers the server builds\<close>

text \<open>The options of an answer, before the client identifier.\<close>

definition answer_list ::
    "allocator \<Rightarrow> address_pool \<Rightarrow> u8 list \<Rightarrow> u8 list \<Rightarrow> u8 list \<Rightarrow> u32 \<Rightarrow> dhcp_option list" where
  "answer_list a pool required black requested type =
     add_answers (dhcp_option_override pool) (default_options a) (active black requested)
       (add_answers (dhcp_option_override pool) (default_options a) (active black required)
          [message_type_option type])"

definition configured :: "allocator \<Rightarrow> address_pool \<Rightarrow> u8 \<Rightarrow> bool" where
  "configured a pool t \<longleftrightarrow> lookup_option (dhcp_option_override pool) (default_options a) t \<noteq> None"

definition wf_options :: "allocator \<Rightarrow> bool" where
  "wf_options a \<longleftrightarrow> stored (default_options a) \<and> (\<forall>pool \<in> set (address_pools a). stored (dhcp_option_override pool))"

definition request_list :: "dhcp_option \<Rightarrow> u8 list" where
  "request_list o55 = take (len o55) (opt_value o55) @ zeros (256 - len o55)"

lemma zero_in_request_list: "0 \<in> set (request_list o55)"
  using len_lt[of o55] by (simp add: request_list_def zeros_def)

lemma requested_options_eq:
  assumes "srv_heap srv (dhcp_options m) = Some os" "stored os"
    "dhcp_option_retrieve os DHCP_OPTION_PARAMETER_REQUEST_LIST = Some o55"
  shows "requested_options srv m = Inr (request_list o55)"
proof -
  have "length (opt_value o55) = union_size"
    using assms(2) dhcp_option_retrieve_Some[OF assms(3)] by (simp add: stored_def)
  then show ?thesis
    using assms(1,3) len_lt[of o55]
    by (simp add: requested_options_def retrieve_option_def options_of_def memcpy_def request_list_def union_size_def)
qed

lemma build_options_eq:
  assumes "srv_heap srv (dhcp_options m) = Some []" "wf_options (srv_allocator srv)"
    "pool \<in> set (address_pools (srv_allocator srv))" "0 \<in> set requested" "0 \<in> set required" "0 \<in> set black"
    "\<forall>t \<in> set (active black required). configured (srv_allocator srv) pool t"
  shows "build_options srv m requested required black (dhcp_option_override pool) type =
     Inr (0, set_options srv m (answer_list (srv_allocator srv) pool required black requested type))"
proof -
  have "stored (dhcp_option_override pool)" "stored (default_options (srv_allocator srv))"
    using assms(2,3) by (auto simp: wf_options_def)
  from build_required_options_eq[OF assms(5,4,6) this, of type] assms(1,7) show ?thesis
    by (auto simp: build_options_def options_of_def answer_list_def configured_def)
qed

text \<open>Building, sending and storing an answer whose options fit.\<close>

lemma build_send_store_eq:
  assumes "wf_message m" "srv_heap srv (dhcp_options m) = Some os" "sendable os" "cookie m = MAGIC_COOKIE"
    and send: "\<And>m'. send env srv m' = Inr (0, srv\<lparr>sent := sent srv @ [(dest m', packet m')]\<rparr>)"
    and wf: "wf_cache (trans_cache srv)" and x: "xid m \<noteq> 0" "msgs_of (trans_cache srv) (xid m) \<noteq> []"
  obtains m' cache' where "dhcp_packet_build m (srv_heap srv) = Inr (0, m')" "m' = m\<lparr>packet := packet m'\<rparr>"
    "build_send_store env send srv m =
       Inr (0, srv\<lparr>sent := sent srv @ [(dest m', packet m')], trans_cache := cache', srv_db := db_log env srv m'\<rparr>)"
    "wf_cache cache'"
    "\<And>y. y \<noteq> 0 \<Longrightarrow> msgs_of cache' y =
       msgs_of (trans_cache srv) y @ (if y = xid m then [m'\<lparr>msg_time := env_now env\<rparr>] else [])"
proof -
  obtain m' where m': "dhcp_packet_build m (srv_heap srv) = Inr (0, m')" "m' = m\<lparr>packet := packet m'\<rparr>"
    using packet_build_eq[of m "srv_heap srv" os] assms(1-4) by auto
  have xm: "xid m' = xid m" by (subst m'(2)) simp
  have "xid m \<in> trans_xid ` set (trans_cache srv)" using x(2) msgs_of_None by blast
  then obtain tr where tr: "tr \<in> set (trans_cache srv)" "trans_xid tr = xid m'" using xm by auto
  show thesis
  proof (rule cache_add_message[OF wf, of "env_now env" m'])
    fix i tr'
    assume st: "trans_cache_add_message (env_now env) (trans_cache srv) m' =
        (0, (trans_cache srv)[i := tr'], m'\<lparr>msg_time := env_now env\<rparr>)"
    let ?c = "(trans_cache srv)[i := tr']"
    have add: "cache_add (env_now env) (trans_cache srv) m' = (0, ?c)" using st by (simp add: cache_add_def)
    have "wf_cache ?c" using caches.add_inv[OF wf, of "env_now env" m'] add by simp
    moreover have "msgs_of ?c y = msgs_of (trans_cache srv) y @
        (if y = xid m then [m'\<lparr>msg_time := env_now env\<rparr>] else [])" if "y \<noteq> 0" for y
      using caches.add_stored[OF wf _ that, of "env_now env" m'] add xm by simp
    moreover have "6 \<le> length (chaddr m')" by (subst m'(2)) (use assms(1) in \<open>simp add: wf_message_def\<close>)
    then have "build_send_store env send srv m =
       Inr (0, srv\<lparr>sent := sent srv @ [(dest m', packet m')], trans_cache := ?c, srv_db := db_log env srv m'\<rparr>)"
      using m'(1) send[of m'] st by (simp add: build_send_store_def if_failed_def store_database_eq db_log_def Let_def)
    ultimately show thesis using m' by (intro that[of m' ?c])
  next
    assume "\<forall>tr \<in> set (trans_cache srv). is_running (trans_timer tr) \<and> trans_xid tr \<noteq> xid m'"
    with tr show thesis by blast
  qed
qed

section \<open>Answering a DHCPDISCOVER\<close>

definition offer_list :: "allocator \<Rightarrow> address_pool \<Rightarrow> dhcp_option \<Rightarrow> dhcp_option option \<Rightarrow> dhcp_option list" where
  "offer_list a pool o55 o61 =
     (let base = answer_list a pool [51, 54, 0] [50, 55, 61, 57, 0] (request_list o55) DHCP_OFFER
      in case o61 of None \<Rightarrow> base | Some o1 \<Rightarrow> snd (dhcp_option_add base (Some (recopy o1))))"

lemma active_offer: "active [50, 55, 61, 57, 0] [51, 54, 0] = [51, 54]"
  by (simp add: active_def tags_def)

lemma offer_options_eq:
  assumes "srv_heap srv (dhcp_options discover) = Some os" "stored os"
    "dhcp_option_retrieve os DHCP_OPTION_PARAMETER_REQUEST_LIST = Some o55"
    "srv_heap srv (dhcp_options offer) = Some []" "dhcp_options offer \<noteq> dhcp_options discover"
    "wf_options (srv_allocator srv)" "allocator_get_pool_by_address (srv_allocator srv) x = Some i"
    "pool = address_pools (srv_allocator srv) ! i"
    "configured (srv_allocator srv) pool 51" "configured (srv_allocator srv) pool 54"
  shows "offer_get_requested_dhcp_options srv discover x offer =
     Inr (0, set_options srv offer (offer_list (srv_allocator srv) pool o55
       (dhcp_option_retrieve os DHCP_OPTION_CLIENT_IDENTIFIER)))"
proof -
  let ?base = "answer_list (srv_allocator srv) pool [51, 54, 0] [50, 55, 61, 57, 0] (request_list o55) DHCP_OFFER"
  let ?s = "set_options srv offer ?base"
  have pool: "pool \<in> set (address_pools (srv_allocator srv))" using get_pool_Some[OF assms(7)] assms(8) by simp
  have b: "build_options srv offer (request_list o55) [51, 54, 0] [50, 55, 61, 57, 0]
      (dhcp_option_override pool) DHCP_OFFER = Inr (0, ?s)"
    using assms(9,10)
    by (intro build_options_eq[OF assms(4,6) pool zero_in_request_list]) (simp_all add: active_offer)
  have h: "srv_heap ?s (dhcp_options discover) = Some os" "srv_heap ?s (dhcp_options offer) = Some ?base"
    using assms(1,5) by (simp_all add: set_options_def)
  show ?thesis
  proof (cases "dhcp_option_retrieve os DHCP_OPTION_CLIENT_IDENTIFIER")
    case None
    with b h assms requested_options_eq[OF assms(1-3)] show ?thesis
      by (simp add: offer_get_requested_dhcp_options_def if_failed_def retrieve_option_def options_of_def offer_list_def)
  next
    case (Some o61)
    have o61: "opt_tag o61 = 61" "length (opt_value o61) = union_size"
      using assms(2) dhcp_option_retrieve_Some[OF Some] by (auto simp: stored_def)
    have new: "dhcp_option_new_values 61 (uint (opt_lenght o61)) (opt_value o61) = Inr (recopy o61)"
      using dhcp_option_copy_eq[OF o61(2)] o61(1) by (simp add: dhcp_option_copy_def)
    obtain l where l: "dhcp_option_add ?base (Some (recopy o61)) = (0, l)"
      using dhcp_option_add_rv[of ?base "recopy o61"]
      by (cases "dhcp_option_add ?base (Some (recopy o61))") simp
    have "set_options ?s offer l = set_options srv offer l" by (simp add: set_options_def)
    with Some b h l new assms requested_options_eq[OF assms(1-3)] show ?thesis
      by (simp add: offer_get_requested_dhcp_options_def if_failed_def retrieve_option_def options_of_def
          offer_list_def Let_def)
  qed
qed

lemma cbind_assoc: "cbind (cbind m f) g = cbind m (\<lambda>x. cbind (f x) g)"
  by (cases m) auto

text \<open>The address a DHCPDISCOVER is answered with.\<close>

definition discover_address :: "dhcp_server \<Rightarrow> dhcp_message \<Rightarrow> (u32 \<times> dhcp_server) c" where
  "discover_address srv message =
     cbind (retrieve_option srv message DHCP_OPTION_REQUESTED_IP_ADDRESS) (\<lambda>o50.
     cbind (if o50 \<noteq> None then allocate_particular_address srv message else Inr (0, srv))
       (\<lambda>(new_address, srv).
       if new_address = 0 then allocate_random_address srv else Inr (new_address, srv)))"

lemma discover_handle_eq:
  "message_dhcpdiscover_handle env srv message =
     cbind (discover_address srv message) (\<lambda>(new_address, srv).
       if new_address = 0 then Inr (-1, srv)
       else cbind (get_lease_duration srv message) (\<lambda>lease_time.
         if lease_time = 0 then Inr (-1, srv)
         else if_failed (-1) (message_dhcpoffer_build env srv message new_address lease_time)
                (\<lambda>srv. Inr (0, srv))))"
  by (simp add: message_dhcpdiscover_handle_def discover_address_def cbind_assoc split_def)

lemma disjoint_depleted:
  assumes "pools_disjoint a" "alloc_dom a - alloc_used a = {}"
  shows "\<forall>p \<in> set (address_pools a). pool_dom p \<subseteq> pool_used p"
proof (intro ballI subsetI)
  fix p x assume "p \<in> set (address_pools a)" "x \<in> pool_dom p"
  then obtain i where i: "i < length (address_pools a)" "address_pools a ! i = p" by (auto simp: in_set_conv_nth)
  have "allocator_get_pool_by_address a x = Some i"
    using assms(1) i \<open>x \<in> pool_dom p\<close> by (intro disjoint_get_pool) auto
  moreover have "x \<in> alloc_used a" using assms(2) calculation get_pool_None[of a x] by auto
  ultimately show "x \<in> pool_used p" using i by (auto simp: alloc_used_def)
qed

lemma random_address:
  assumes "wf_server srv"
  shows "\<exists>y b. allocate_random_address srv = Inr (y, srv\<lparr>srv_allocator := b\<rparr>) \<and> wf_allocator b \<and>
     same_config (srv_allocator srv) b \<and>
     (if alloc_dom (srv_allocator srv) - alloc_used (srv_allocator srv) = {} then y = 0 \<and> b = srv_allocator srv
      else y \<in> alloc_dom (srv_allocator srv) - alloc_used (srv_allocator srv) \<and>
           alloc_used b = insert y (alloc_used (srv_allocator srv)))"
proof -
  let ?a = "srv_allocator srv"
  have wfa: "wf_allocator ?a" "pools_disjoint ?a" using assms by (simp_all add: wf_server_def)
  show ?thesis
  proof (cases "alloc_dom ?a - alloc_used ?a = {}")
    case True
    from request_any_depleted[OF wfa(1) disjoint_depleted[OF wfa(2) True], of 0] True wfa(1) show ?thesis
      by (auto simp: allocate_random_address_def)
  next
    case False
    obtain y b where any: "allocator_request_any_address ?a 0 = Inr (0, y, b)" "y \<in> alloc_dom ?a"
      "y \<notin> alloc_used ?a" "wf_allocator b" "alloc_used b = insert y (alloc_used ?a)"
      using request_any_found[OF wfa False, of 0] by blast
    with False request_any_same_config[OF wfa(1) any(1)] show ?thesis
      by (auto simp: allocate_random_address_def)
  qed
qed

lemma discover_address_eq:
  assumes wf: "wf_server srv" and os: "srv_heap srv (dhcp_options m) = Some os"
  shows "\<exists>x a. discover_address srv m = Inr (x, srv\<lparr>srv_allocator := a\<rparr>) \<and>
    wf_allocator a \<and> same_config (srv_allocator srv) a \<and>
    (if alloc_dom (srv_allocator srv) - alloc_used (srv_allocator srv) = {} then x = 0 \<and> a = srv_allocator srv
     else x \<in> alloc_dom (srv_allocator srv) - alloc_used (srv_allocator srv) \<and>
          alloc_used a = insert x (alloc_used (srv_allocator srv))) \<and>
    (\<forall>o50. dhcp_option_retrieve os DHCP_OPTION_REQUESTED_IP_ADDRESS = Some o50 \<longrightarrow>
       ip o50 \<in> alloc_dom (srv_allocator srv) - alloc_used (srv_allocator srv) \<longrightarrow> x = ip o50)"
proof -
  let ?a = "srv_allocator srv"
  have wfa: "wf_allocator ?a" and zero: "0 \<notin> alloc_dom ?a" using wf by (simp_all add: wf_server_def)
  obtain y b where random: "allocate_random_address srv = Inr (y, srv\<lparr>srv_allocator := b\<rparr>)" "wf_allocator b"
     "same_config ?a b" "if alloc_dom ?a - alloc_used ?a = {} then y = 0 \<and> b = ?a
      else y \<in> alloc_dom ?a - alloc_used ?a \<and> alloc_used b = insert y (alloc_used ?a)"
    using random_address[OF wf] by blast
  have r: "retrieve_option srv m t = Inr (dhcp_option_retrieve os t)" for t
    using os by (simp add: retrieve_option_def options_of_def)
  show ?thesis
  proof (cases "dhcp_option_retrieve os DHCP_OPTION_REQUESTED_IP_ADDRESS")
    case None
    with r random show ?thesis
      by (intro exI[of _ y] exI[of _ b]) (simp add: discover_address_def)
  next
    case (Some o50)
    show ?thesis
    proof (cases "ip o50 \<in> alloc_dom ?a - alloc_used ?a")
      case True
      then obtain c where c: "allocator_request_this_address ?a (ip o50) 0 = Inr (0, ip o50, c)"
        "wf_allocator c" "alloc_used c = insert (ip o50) (alloc_used ?a)"
        using request_this_ok[OF wfa, of "ip o50" 0] by auto
      have ne: "ip o50 \<noteq> 0" "alloc_dom ?a - alloc_used ?a \<noteq> {}" using True zero by auto
      have "discover_address srv m = Inr (ip o50, srv\<lparr>srv_allocator := c\<rparr>)"
        using ne(1) c(1) Some r by (simp add: discover_address_def allocate_particular_address_def)
      with Some True ne c request_this_same_config[OF c(1)] show ?thesis
        by (intro exI[of _ "ip o50"] exI[of _ c]) simp
    next
      case False
      from request_this_refused[OF wfa False, of 0] have
        "allocate_particular_address srv m = Inr (0, srv)"
        using Some r by (simp add: allocate_particular_address_def)
      then have "discover_address srv m = Inr (y, srv\<lparr>srv_allocator := b\<rparr>)"
        using Some r random(1) by (simp add: discover_address_def)
      with False Some random(2-4) show ?thesis by (intro exI[of _ y] exI[of _ b]) (auto split: if_splits)
    qed
  qed
qed

lemma same_config_options:
  assumes "same_config a a'"
  shows "wf_options a' = wf_options a"
    and "i < length (address_pools a) \<Longrightarrow> configured a' (address_pools a' ! i) t = configured a (address_pools a ! i) t"
    and "i < length (address_pools a) \<Longrightarrow>
      offer_list a' (address_pools a' ! i) o55 o61 = offer_list a (address_pools a ! i) o55 o61"
proof -
  have len: "length (address_pools a') = length (address_pools a)" and d: "default_options a' = default_options a"
    and o1: "\<And>i. i < length (address_pools a) \<Longrightarrow>
      dhcp_option_override (address_pools a' ! i) = dhcp_option_override (address_pools a ! i)"
    using same_config_facts[OF assms] by (auto simp: same_pool_def)
  show "wf_options a' = wf_options a"
    using len d o1 by (simp add: wf_options_def all_set_conv_all_nth)
  show "i < length (address_pools a) \<Longrightarrow> configured a' (address_pools a' ! i) t = configured a (address_pools a ! i) t"
    "i < length (address_pools a) \<Longrightarrow>
      offer_list a' (address_pools a' ! i) o55 o61 = offer_list a (address_pools a ! i) o55 o61"
    using d o1 by (simp_all add: configured_def offer_list_def answer_list_def)
qed

text \<open>What has to be in order for a DHCPDISCOVER to be answered, besides a free address.\<close>

definition can_offer :: "'j env \<Rightarrow> dhcp_server \<Rightarrow> dhcp_message \<Rightarrow> dhcp_option list \<Rightarrow> dhcp_option \<Rightarrow> bool" where
  "can_offer env srv m os o55 \<longleftrightarrow>
     (let a = srv_allocator srv in
      wf_message m \<and> cookie m = MAGIC_COOKIE \<and> srv_heap srv (dhcp_options m) = Some os \<and> stored os \<and>
      dhcp_option_retrieve os DHCP_OPTION_PARAMETER_REQUEST_LIST = Some o55 \<and>
      wf_options a \<and> (\<forall>p. env_send env p) \<and> env_pick env (srv_heap srv) \<notin> dom (srv_heap srv) \<and>
      xid m \<noteq> 0 \<and> msgs_of (trans_cache srv) (xid m) \<noteq> [] \<and>
      (\<forall>i < length (address_pools a). configured a (address_pools a ! i) 51 \<and>
         configured a (address_pools a ! i) 54 \<and>
         sendable (offer_list a (address_pools a ! i) o55 (dhcp_option_retrieve os DHCP_OPTION_CLIENT_IDENTIFIER))))"

lemma offer_build_eq:
  assumes wf: "wf_cache (trans_cache srv)" and can: "can_offer env srv m os o55"
    and x: "x \<in> alloc_dom (srv_allocator srv)"
  shows "\<exists>srv' offer. message_dhcpoffer_build env srv m x d = Inr (0, srv') \<and> srv_allocator srv' = srv_allocator srv \<and>
     wf_cache (trans_cache srv') \<and>
     (\<forall>y. y \<noteq> 0 \<longrightarrow> msgs_of (trans_cache srv') y = msgs_of (trans_cache srv) y @ (if y = xid m then [offer] else [])) \<and>
     msg_type offer = DHCP_OFFER \<and> yiaddr offer = x \<and>
     (\<exists>p. sent srv' = sent srv @ [(htonl (broadcast_addr srv), p)] \<and> ntohl (pkt_yiaddr p) = x \<and>
        ntohl (pkt_xid p) = xid m \<and> pkt_opcode p = BOOTREPLY)"
proof -
  let ?a = "srv_allocator srv" and ?r = "env_pick env (srv_heap srv)"
  let ?h = "(srv_heap srv)(?r \<mapsto> [])"
  let ?offer = "(zero_message ?r)\<lparr>opcode := BOOTREPLY, htype := htype m, hlen := hlen m, hops := 0,
              xid := xid m, secs := 0, ciaddr := 0, yiaddr := x,
              siaddr := bound_ip srv, flags := flags m, giaddr := giaddr m,
              cookie := cookie m, msg_type := DHCP_OFFER, chaddr := chaddr m\<rparr>"
  let ?s = "srv\<lparr>srv_heap := ?h\<rparr>"
  obtain i where i: "allocator_get_pool_by_address ?a x = Some i" using x by (rule alloc_domE)
  note il = get_pool_Some(1)[OF i]
  let ?l = "offer_list ?a (address_pools ?a ! i) o55 (dhcp_option_retrieve os DHCP_OPTION_CLIENT_IDENTIFIER)"
  let ?s2 = "set_options ?s ?offer ?l"
  have ref: "dhcp_options ?offer = ?r" by (simp add: zero_message_def)
  have c: "wf_message m" "cookie m = MAGIC_COOKIE" "srv_heap srv (dhcp_options m) = Some os" "stored os"
    "dhcp_option_retrieve os DHCP_OPTION_PARAMETER_REQUEST_LIST = Some o55" "wf_options ?a"
    "\<forall>p. env_send env p" "?r \<notin> dom (srv_heap srv)" "xid m \<noteq> 0" "msgs_of (trans_cache srv) (xid m) \<noteq> []"
    "configured ?a (address_pools ?a ! i) 51" "configured ?a (address_pools ?a ! i) 54" "sendable ?l"
    using can il by (auto simp: can_offer_def Let_def)
  have ne: "?r \<noteq> dhcp_options m" using c(3,8) by auto
  have opts: "offer_get_requested_dhcp_options ?s m x ?offer = Inr (0, ?s2)"
    using c i ne ref by (subst offer_options_eq[of ?s m os o55 ?offer x i]) auto
  have wfm: "wf_message ?offer" using c(1) wf_zero_message[of ?r] by (simp add: wf_message_def)
  have heap: "srv_heap ?s2 (dhcp_options ?offer) = Some ?l" by (simp add: set_options_def)
  have snd: "message_dhcpoffer_send env ?s2 m' =
      Inr (0, ?s2\<lparr>sent := sent ?s2 @ [(htonl (broadcast_addr srv), packet m')]\<rparr>)" for m'
    using c(7) by (simp add: message_dhcpoffer_send_def send_to_def set_options_def)
  have cache: "wf_cache (trans_cache ?s2)" "xid ?offer \<noteq> 0" "msgs_of (trans_cache ?s2) (xid ?offer) \<noteq> []"
    "cookie ?offer = MAGIC_COOKIE"
    using wf c by (simp_all add: set_options_def)
  obtain m' cache' where m': "dhcp_packet_build ?offer (srv_heap ?s2) = Inr (0, m')" "m' = ?offer\<lparr>packet := packet m'\<rparr>"
    "build_send_store env message_dhcpoffer_send ?s2 ?offer = Inr (0, ?s2\<lparr>sent := sent ?s2 @
       [(htonl (broadcast_addr srv), packet m')], trans_cache := cache', srv_db := db_log env ?s2 m'\<rparr>)" "wf_cache cache'"
    "\<And>y. y \<noteq> 0 \<Longrightarrow> msgs_of cache' y =
       msgs_of (trans_cache ?s2) y @ (if y = xid ?offer then [m'\<lparr>msg_time := env_now env\<rparr>] else [])"
    using build_send_store_eq[where dest = "\<lambda>_. htonl (broadcast_addr srv)" and send = message_dhcpoffer_send
        and srv = ?s2 and m = ?offer and os = ?l and env = env, OF wfm heap c(13) cache(4) snd cache(1-3)]
    by blast
  have "ntohl (pkt_yiaddr (packet m')) = x" "ntohl (pkt_xid (packet m')) = xid m" "pkt_opcode (packet m') = BOOTREPLY"
    using m'(1) packet_build_eq[of ?offer "srv_heap ?s2" ?l] wfm heap c(13) cache(4) by auto
  moreover have "message_dhcpoffer_build env srv m x d = build_send_store env message_dhcpoffer_send ?s2 ?offer"
    using opts by (simp add: message_dhcpoffer_build_def dhcp_message_new_def heap_new_def if_failed_def Let_def)
  moreover have "msg_type (m'\<lparr>msg_time := env_now env\<rparr>) = DHCP_OFFER" "yiaddr (m'\<lparr>msg_time := env_now env\<rparr>) = x"
    by (subst m'(2), simp)+
  ultimately show ?thesis
    using m'(3-5)
    by (intro exI[of _ "?s2\<lparr>sent := sent ?s2 @ [(htonl (broadcast_addr srv), packet m')], trans_cache := cache',
          srv_db := db_log env ?s2 m'\<rparr>"]
        exI[of _ "m'\<lparr>msg_time := env_now env\<rparr>"]) (simp add: set_options_def)
qed

text \<open>Taking an address does not change what an offer needs.\<close>

lemma can_offer_allocated:
  assumes "can_offer env srv m os o55" "same_config (srv_allocator srv) a"
  shows "can_offer env (srv\<lparr>srv_allocator := a\<rparr>) m os o55"
    and "get_lease_duration (srv\<lparr>srv_allocator := a\<rparr>) m = get_lease_duration srv m"
proof -
  have len: "length (address_pools a) = length (address_pools (srv_allocator srv))"
    and d: "default_options a = default_options (srv_allocator srv)"
    using same_config_facts[OF assms(2)] by simp_all
  show "can_offer env (srv\<lparr>srv_allocator := a\<rparr>) m os o55"
    using assms(1) same_config_options[OF assms(2)] by (auto simp: can_offer_def Let_def len)
  show "get_lease_duration (srv\<lparr>srv_allocator := a\<rparr>) m = get_lease_duration srv m"
    by (simp add: get_lease_duration_def retrieve_option_def options_of_def d)
qed

section \<open>Acknowledging a DHCPREQUEST\<close>

definition ack_list :: "allocator \<Rightarrow> address_pool \<Rightarrow> dhcp_option \<Rightarrow> dhcp_option list" where
  "ack_list a pool o55 = answer_list a pool [51, 54, 0] [50, 55, 61, 57, 0] (request_list o55) DHCP_ACK"

text \<open>What has to be in order for an acknowledgement of an address of the pool at \<open>i\<close>.\<close>

definition can_ack :: "'j env \<Rightarrow> dhcp_server \<Rightarrow> dhcp_message \<Rightarrow> dhcp_option list \<Rightarrow> dhcp_option \<Rightarrow> nat \<Rightarrow> bool" where
  "can_ack env srv m os o55 i \<longleftrightarrow>
     (let a = srv_allocator srv in
      wf_message m \<and> cookie m = MAGIC_COOKIE \<and> srv_heap srv (dhcp_options m) = Some os \<and> stored os \<and>
      dhcp_option_retrieve os DHCP_OPTION_PARAMETER_REQUEST_LIST = Some o55 \<and>
      wf_options a \<and> (\<forall>p. env_send env p) \<and> env_pick env (srv_heap srv) \<notin> dom (srv_heap srv) \<and>
      xid m \<noteq> 0 \<and> msgs_of (trans_cache srv) (xid m) \<noteq> [] \<and>
      configured a (address_pools a ! i) 51 \<and> configured a (address_pools a ! i) 54 \<and>
      sendable (ack_list a (address_pools a ! i) o55))"

lemma ack_options_eq:
  assumes "srv_heap srv (dhcp_options m) = Some os" "stored os"
    "dhcp_option_retrieve os DHCP_OPTION_PARAMETER_REQUEST_LIST = Some o55"
    "srv_heap srv (dhcp_options ack) = Some []"
    "wf_options (srv_allocator srv)" "allocator_get_pool_by_address (srv_allocator srv) x = Some i"
    "pool = address_pools (srv_allocator srv) ! i"
    "configured (srv_allocator srv) pool 51" "configured (srv_allocator srv) pool 54"
  shows "ack_get_requested_dhcp_options srv m x ack =
     Inr (0, set_options srv ack (ack_list (srv_allocator srv) pool o55))"
proof -
  have pool: "pool \<in> set (address_pools (srv_allocator srv))" using get_pool_Some[OF assms(6)] assms(7) by simp
  have "build_options srv ack (request_list o55) [51, 54, 0] [50, 55, 61, 57, 0]
      (dhcp_option_override pool) DHCP_ACK = Inr (0, set_options srv ack (ack_list (srv_allocator srv) pool o55))"
    unfolding ack_list_def using assms(8,9)
    by (intro build_options_eq[OF assms(4,5) pool zero_in_request_list]) (simp_all add: active_offer)
  with assms requested_options_eq[OF assms(1-3)] show ?thesis by (simp add: ack_get_requested_dhcp_options_def)
qed

lemma ack_build_eq:
  assumes wf: "wf_cache (trans_cache srv)" and can: "can_ack env srv m os o55 i"
    and i: "allocator_get_pool_by_address (srv_allocator srv) x = Some i"
  shows "\<exists>srv' ack. message_dhcpack_build env srv m d x = Inr (0, srv') \<and> srv_allocator srv' = srv_allocator srv \<and>
     srv_files srv' = srv_files srv \<and> wf_cache (trans_cache srv') \<and>
     (\<forall>y. y \<noteq> 0 \<longrightarrow> msgs_of (trans_cache srv') y = msgs_of (trans_cache srv) y @ (if y = xid m then [ack] else [])) \<and>
     msg_type ack = 0 \<and> yiaddr ack = x \<and>
     (\<exists>p. sent srv' = sent srv @ [(htonl (if ciaddr m \<noteq> 0 then ciaddr m else broadcast_addr srv), p)] \<and>
        ntohl (pkt_yiaddr p) = x \<and> ntohl (pkt_xid p) = xid m)"
proof -
  let ?a = "srv_allocator srv" and ?r = "env_pick env (srv_heap srv)"
  let ?h = "(srv_heap srv)(?r \<mapsto> [])"
  let ?ack = "(zero_message ?r)\<lparr>opcode := BOOTREPLY, htype := htype m, hlen := hlen m, hops := 0,
              xid := xid m, secs := 0, ciaddr := ciaddr m, yiaddr := x,
              siaddr := bound_ip srv, flags := flags m, giaddr := giaddr m,
              cookie := cookie m, chaddr := chaddr m\<rparr>"
  let ?s = "srv\<lparr>srv_heap := ?h\<rparr>" and ?l = "ack_list ?a (address_pools ?a ! i) o55"
  let ?s2 = "set_options ?s ?ack ?l"
  let ?to = "\<lambda>m'. htonl (if ciaddr m' \<noteq> 0 then ciaddr m' else broadcast_addr srv)"
  have ref: "dhcp_options ?ack = ?r" by (simp add: zero_message_def)
  have c: "wf_message m" "cookie m = MAGIC_COOKIE" "srv_heap srv (dhcp_options m) = Some os" "stored os"
    "dhcp_option_retrieve os DHCP_OPTION_PARAMETER_REQUEST_LIST = Some o55" "wf_options ?a"
    "\<forall>p. env_send env p" "?r \<notin> dom (srv_heap srv)" "xid m \<noteq> 0" "msgs_of (trans_cache srv) (xid m) \<noteq> []"
    "configured ?a (address_pools ?a ! i) 51" "configured ?a (address_pools ?a ! i) 54" "sendable ?l"
    using can by (auto simp: can_ack_def Let_def)
  have ne: "?r \<noteq> dhcp_options m" using c(3,8) by auto
  have opts: "ack_get_requested_dhcp_options ?s m x ?ack = Inr (0, ?s2)"
    using c i ne ref by (subst ack_options_eq[of ?s m os o55 ?ack x i]) auto
  have wfm: "wf_message ?ack" using c(1) wf_zero_message[of ?r] by (simp add: wf_message_def)
  have heap: "srv_heap ?s2 (dhcp_options ?ack) = Some ?l" by (simp add: set_options_def)
  have snd: "message_dhcpack_send env ?s2 m' = Inr (0, ?s2\<lparr>sent := sent ?s2 @ [(?to m', packet m')]\<rparr>)" for m'
    using c(7) by (simp add: message_dhcpack_send_def send_to_def set_options_def)
  have cache: "wf_cache (trans_cache ?s2)" "xid ?ack \<noteq> 0" "msgs_of (trans_cache ?s2) (xid ?ack) \<noteq> []"
    "cookie ?ack = MAGIC_COOKIE"
    using wf c by (simp_all add: set_options_def)
  obtain m' cache' where m': "dhcp_packet_build ?ack (srv_heap ?s2) = Inr (0, m')" "m' = ?ack\<lparr>packet := packet m'\<rparr>"
    "build_send_store env message_dhcpack_send ?s2 ?ack = Inr (0, ?s2\<lparr>sent := sent ?s2 @
       [(?to m', packet m')], trans_cache := cache', srv_db := db_log env ?s2 m'\<rparr>)" "wf_cache cache'"
    "\<And>y. y \<noteq> 0 \<Longrightarrow> msgs_of cache' y =
       msgs_of (trans_cache ?s2) y @ (if y = xid ?ack then [m'\<lparr>msg_time := env_now env\<rparr>] else [])"
    using build_send_store_eq[where dest = ?to and send = message_dhcpack_send
        and srv = ?s2 and m = ?ack and os = ?l and env = env, OF wfm heap c(13) cache(4) snd cache(1-3)]
    by blast
  have "ntohl (pkt_yiaddr (packet m')) = x" "ntohl (pkt_xid (packet m')) = xid m"
    using m'(1) packet_build_eq[of ?ack "srv_heap ?s2" ?l] wfm heap c(13) cache(4) by auto
  moreover have "message_dhcpack_build env srv m d x = build_send_store env message_dhcpack_send ?s2 ?ack"
    using opts by (simp add: message_dhcpack_build_def dhcp_message_new_def heap_new_def if_failed_def Let_def)
  moreover have "msg_type (m'\<lparr>msg_time := env_now env\<rparr>) = 0" "yiaddr (m'\<lparr>msg_time := env_now env\<rparr>) = x"
    "ciaddr m' = ciaddr m"
    by (subst m'(2), simp add: zero_message_def)+
  ultimately show ?thesis
    using m'(3-5)
    by (intro exI[of _ "?s2\<lparr>sent := sent ?s2 @ [(?to m', packet m')], trans_cache := cache', srv_db := db_log env ?s2 m'\<rparr>"]
        exI[of _ "m'\<lparr>msg_time := env_now env\<rparr>"]) (simp add: set_options_def)
qed

text \<open>A builder that fails leaves the cache as it was.\<close>

lemma build_send_store_fails:
  assumes "build_send_store env send srv m = Inr (rv, srv')" "rv \<noteq> 0" "wf_cache (trans_cache srv)"
    and "\<And>m rv srv'. send env srv m = Inr (rv, srv') \<Longrightarrow> trans_cache srv' = trans_cache srv"
  shows "trans_cache srv' = trans_cache srv"
proof -
  have refused: "fst (trans_cache_add_message now cache m1) \<noteq> 0 \<Longrightarrow>
      fst (snd (trans_cache_add_message now cache m1)) = cache" if "wf_cache cache" for now cache m1
    by (cases rule: cache_add_message[OF that, of now m1]) auto
  show ?thesis
    using assms refused
    by (auto simp: build_send_store_def if_failed_Inr Let_def split_def split: if_splits elim!: store_database_cases)
qed

lemma build_options_cache:
  "build_options srv m requested required black po type = Inr (rv, srv') \<Longrightarrow> trans_cache srv' = trans_cache srv"
  by (auto simp: build_options_def set_options_def split: prod.splits)

lemma offer_options_cache:
  "offer_get_requested_dhcp_options srv req x offer = Inr (rv, srv') \<Longrightarrow> trans_cache srv' = trans_cache srv"
  by (auto simp: offer_get_requested_dhcp_options_def if_failed_Inr split_def set_options_def
      split: option.splits if_splits dest!: build_options_cache)

lemma offer_build_fails:
  assumes "message_dhcpoffer_build env srv m x d = Inr (rv, srv')" "rv \<noteq> 0" "wf_cache (trans_cache srv)"
  shows "trans_cache srv' = trans_cache srv"
proof -
  have send: "message_dhcpoffer_send env s m1 = Inr (r, s') \<Longrightarrow> trans_cache s' = trans_cache s" for s m1 r s'
    by (auto simp: message_dhcpoffer_send_def send_to_def split: if_splits)
  from assms show ?thesis
    unfolding message_dhcpoffer_build_def Let_def split_def if_failed_Inr
    by (elim exE conjE) (auto dest!: offer_options_cache build_send_store_fails[OF _ _ _ send] split: if_splits)
qed

lemma discover_handle_live:
  assumes "message_dhcpdiscover_handle env srv m = Inr (rv, srv')"
  obtains os where "srv_heap srv (dhcp_options m) = Some os"
  using assms by (cases "srv_heap srv (dhcp_options m)")
    (auto simp: message_dhcpdiscover_handle_def retrieve_option_def options_of_def)

section \<open>The tables under each handler\<close>

text \<open>A step that leaves the allocator and the access lists alone.\<close>

definition quiet :: "dhcp_server \<Rightarrow> dhcp_server \<Rightarrow> bool" where
  "quiet srv srv' \<longleftrightarrow> srv_allocator srv' = srv_allocator srv \<and> srv_acl srv' = srv_acl srv \<and>
     srv_dacl srv' = srv_dacl srv \<and> (wf_cache (trans_cache srv) \<longrightarrow> wf_cache (trans_cache srv')) \<and>
     lease_acks (trans_cache srv') \<subseteq> lease_acks (trans_cache srv)"

lemma quiet_refl [simp]: "quiet srv srv" "quiet srv (srv\<lparr>srv_files := fs\<rparr>)"
  by (simp_all add: quiet_def)

lemma answers_quiet: "answers srv srv' \<Longrightarrow> quiet srv srv'"
  by (simp add: answers_def quiet_def)

lemma quiet_trans: "quiet a b \<Longrightarrow> quiet b c \<Longrightarrow> quiet a c"
  by (auto simp: quiet_def)

lemma commit_lease_quiet: "dhcp_requst_commit_lease env srv req d x = Inr (rv, srv') \<Longrightarrow> quiet srv srv'"
  by (auto simp: dhcp_requst_commit_lease_def Let_def split: option.splits)

lemma response_to_offer_quiet:
  "dhcp_request_response_to_offer env srv req o54 = Inr (rv, srv') \<Longrightarrow> quiet srv srv'"
  by (auto simp: dhcp_request_response_to_offer_def split: if_splits dest: commit_lease_quiet)

lemma renew_lease_quiet: "dhcp_request_renew_lease env srv req = Inr (rv, srv') \<Longrightarrow> quiet srv srv'"
  unfolding dhcp_request_renew_lease_def Let_def split_def
  by (elim if_cases cbindE) (auto simp: quiet_def)

lemma request_handle_quiet:
  assumes "message_dhcprequest_handle env srv req = Inr (rv, srv')"
  shows "quiet srv srv'"
proof -
  obtain o54 where o54: "retrieve_option srv req DHCP_OPTION_SERVER_IDENTIFIER = Inr o54"
    using assms by (auto simp: message_dhcprequest_handle_def)
  show ?thesis
  proof (cases o54)
    case None
    with assms o54 show ?thesis
      by (auto simp: message_dhcprequest_handle_def if_failed_Inr split: if_splits
          dest!: renew_lease_quiet builders_answer(3) answers_quiet intro: quiet_trans)
  next
    case (Some o1)
    with assms o54 obtain r s where s: "dhcp_request_response_to_offer env srv req o1 = Inr (r, s)"
      by (auto simp: message_dhcprequest_handle_def)
    have "quiet s srv'"
      using assms o54 Some s
      by (auto simp: message_dhcprequest_handle_def split: if_splits option.splits
          dest!: builders_answer(2,5) answers_quiet)
    with response_to_offer_quiet[OF s] show ?thesis by (rule quiet_trans)
  qed
qed

lemma inform_handle_quiet: "message_dhcpinform_handle env srv m = Inr (rv, srv') \<Longrightarrow> quiet srv srv'"
  by (auto simp: message_dhcpinform_handle_def split: if_splits dest!: builders_answer(4) answers_quiet)

text \<open>How a handler may change the addresses in use.\<close>

definition grows :: "dhcp_server \<Rightarrow> dhcp_server \<Rightarrow> bool" where
  "grows srv srv' \<longleftrightarrow> (\<exists>X \<subseteq> alloc_dom (srv_allocator srv) - alloc_used (srv_allocator srv). card X \<le> 1 \<and>
     alloc_used (srv_allocator srv') = alloc_used (srv_allocator srv) \<union> X)"

lemma grows_refl: "srv_allocator srv' = srv_allocator srv \<Longrightarrow> grows srv srv'"
  unfolding grows_def by (intro exI[of _ "{}"]) simp

lemma grows_insert:
  "x \<in> alloc_dom (srv_allocator srv) - alloc_used (srv_allocator srv) \<Longrightarrow>
   alloc_used (srv_allocator srv') = insert x (alloc_used (srv_allocator srv)) \<Longrightarrow> grows srv srv'"
  unfolding grows_def by (intro exI[of _ "{x}"]) simp

lemma discover_handle_wf:
  assumes wf: "wf_server srv" and run: "message_dhcpdiscover_handle env srv m = Inr (rv, srv')"
  shows "wf_server srv' \<and> same_config (srv_allocator srv) (srv_allocator srv') \<and> grows srv srv'"
proof -
  obtain os where os: "srv_heap srv (dhcp_options m) = Some os" using run by (rule discover_handle_live)
  obtain x a where x: "discover_address srv m = Inr (x, srv\<lparr>srv_allocator := a\<rparr>)" "wf_allocator a"
    "same_config (srv_allocator srv) a"
    "if alloc_dom (srv_allocator srv) - alloc_used (srv_allocator srv) = {} then x = 0 \<and> a = srv_allocator srv
     else x \<in> alloc_dom (srv_allocator srv) - alloc_used (srv_allocator srv) \<and>
          alloc_used a = insert x (alloc_used (srv_allocator srv))"
    using discover_address_eq[OF wf os] by blast
  have "answers (srv\<lparr>srv_allocator := a\<rparr>) srv'"
    using run x(1) by (auto simp: discover_handle_eq if_failed_Inr split: if_splits dest: builders_answer(1))
  then have s': "srv_allocator srv' = a" "wf_cache (trans_cache srv')"
    using wf by (simp_all add: answers_def wf_server_def)
  moreover have "grows srv srv'" using x(4) s'(1) by (auto intro: grows_refl grows_insert split: if_splits)
  ultimately show ?thesis using x(2,3) wf same_config_facts[OF x(3)] by (simp add: wf_server_def)
qed

lemma decline_handle_cases:
  assumes "message_dhcpdecline_handle env srv m = Inr (rv, srv')"
  obtains (same) "srv' = srv"
    | (taken) x r y a where "allocator_is_address_available (srv_allocator srv) x = Inr True"
      "allocator_request_this_address (srv_allocator srv) x 0 = Inr (r, y, a)"
      "srv' = srv\<lparr>srv_allocator := a\<rparr>"
proof (cases "trans_cache_retrieve_message_last (trans_cache srv) (xid m) DHCP_ACK")
  case None
  with assms same show thesis by (simp add: message_dhcpdecline_handle_def)
next
  case (Some ack)
  show thesis
  proof (cases "allocator_is_address_available (srv_allocator srv) (yiaddr ack)")
    case (Inl e)
    with assms Some same show thesis by (simp add: message_dhcpdecline_handle_def split: if_splits)
  next
    case (Inr available)
    show thesis
    proof (cases "available \<and> yiaddr ack \<noteq> 0")
      case True
      with assms Some Inr taken show thesis by (auto simp: message_dhcpdecline_handle_def)
    next
      case False
      with assms Some Inr same show thesis by (auto simp: message_dhcpdecline_handle_def split: if_splits)
    qed
  qed
qed

lemma decline_handle_wf:
  assumes wf: "wf_server srv" and run: "message_dhcpdecline_handle env srv m = Inr (rv, srv')"
  shows "wf_server srv' \<and> same_config (srv_allocator srv) (srv_allocator srv') \<and> grows srv srv'"
  using run
proof (cases rule: decline_handle_cases)
  case same
  with wf show ?thesis by (simp add: grows_refl)
next
  case (taken x r y a)
  have wfa: "wf_allocator (srv_allocator srv)" using wf by (simp add: wf_server_def)
  have free: "x \<in> alloc_dom (srv_allocator srv)" "x \<notin> alloc_used (srv_allocator srv)"
    using taken(1) is_available_eq[OF wfa] by auto
  from request_this_ok[OF wfa this, of 0] taken(2) have
    "wf_allocator a" "alloc_used a = insert x (alloc_used (srv_allocator srv))" by auto
  with free taken(3) request_this_same_config[OF taken(2)] same_config_facts[OF request_this_same_config[OF taken(2)]] wf
  show ?thesis by (auto simp: wf_server_def intro!: grows_insert)
qed

lemma release_handle_wf:
  assumes wf: "wf_server srv" and run: "message_dhcprelease_handle env srv m = Inr (rv, srv')"
  shows "wf_server srv' \<and> same_config (srv_allocator srv) (srv_allocator srv') \<and>
     (\<exists>x. alloc_used (srv_allocator srv') = alloc_used (srv_allocator srv) - {x}) \<or>
     (wf_server srv' \<and> srv_allocator srv' = srv_allocator srv)"
proof -
  have wfa: "wf_allocator (srv_allocator srv)" using wf by (simp add: wf_server_def)
  have "trans_cache srv' = trans_cache srv \<and> (srv_allocator srv' = srv_allocator srv \<or>
      (\<exists>x r. allocator_release_address (srv_allocator srv) x = Inr (r, srv_allocator srv')))"
    using run by (auto simp: message_dhcprelease_handle_def Let_def split: if_splits)
  then show ?thesis
  proof (elim conjE disjE exE)
    fix x r assume c: "trans_cache srv' = trans_cache srv"
      and x: "allocator_release_address (srv_allocator srv) x = Inr (r, srv_allocator srv')"
    from release_used[OF wfa, of x] x have
      "wf_allocator (srv_allocator srv')" "alloc_used (srv_allocator srv') = alloc_used (srv_allocator srv) - {x}"
      by auto
    with c wf release_same_config[OF x] same_config_facts[OF release_same_config[OF x]] show ?thesis
      by (auto simp: wf_server_def)
  qed (use wf in \<open>simp add: wf_server_def\<close>)
qed

end
