(* ===== verification/Dialogue.thy ===== *)
theory Dialogue
  imports Handlers
begin

text \<open>
  The properties of the message handlers: how a DHCPDISCOVER, a DHCPREQUEST and an
  acknowledgement change the tables of the server, and where the handlers leave the
  defined behaviour of C. A small configured server serves as the concrete input.
\<close>

section \<open>A configured server\<close>

definition request_option :: "u8 \<Rightarrow> dhcp_option" where
  "request_option t = \<lparr>opt_type = DHCP_OPTION_BIN, opt_tag = DHCP_OPTION_PARAMETER_REQUEST_LIST,
     opt_lenght = 1, opt_value = t # zeros 255\<rparr>"

definition lan_options :: "dhcp_option list" where
  "lan_options = [word_option 51 3600, word_option 54 0xC0A80001]"

definition discover_message :: dhcp_message where
  "discover_message = (zero_message 0)\<lparr>xid := 7, cookie := MAGIC_COOKIE, msg_type := DHCP_DISCOVER\<rparr>"

text \<open>The state in which a DHCPDISCOVER with the given options has just been stored.\<close>

definition lan_server :: "dhcp_option list \<Rightarrow> dhcp_option list \<Rightarrow> dhcp_server" where
  "lan_server global os = \<lparr>srv_allocator = lan_allocator\<lparr>default_options := global\<rparr>,
     trans_cache = snd (cache_add 9 (trans_cache_new 9 2 60) discover_message),
     lease_expiration_check = timer_new 9 TIMER_REPEAT 60 True (Some Check_lease_expirations),
     bound_ip = 0xC0A80001, broadcast_addr = 0xC0A800FF, srv_acl = ACL_new, srv_dacl = ACL_new,
     srv_heap = [0 \<mapsto> os], srv_files = Map.empty, srv_db_enable = 1, srv_db = Map.empty, sent = []\<rparr>"

definition lan_env :: "string env" where
  "lan_env = \<lparr>env_now = 10, env_pick = (\<lambda>h. if h 0 = None then 0 else 1), env_send = (\<lambda>_. True),
     env_open = (\<lambda>_. True), env_json = plain_json\<rparr>"

lemma subnet_mask_word: "subnet_mask_option w = word_option 1 w"
  by (simp add: subnet_mask_option_def word_option_def set_number_def dhcp_option_new_def union_size_def
      dhcp_option_tag_to_type_def tag_in_def)

lemma default_options_irrelevant [simp]:
  "wf_allocator (a\<lparr>default_options := g\<rparr>) = wf_allocator a"
  "pools_disjoint (a\<lparr>default_options := g\<rparr>) = pools_disjoint a"
  "alloc_dom (a\<lparr>default_options := g\<rparr>) = alloc_dom a"
  "alloc_used (a\<lparr>default_options := g\<rparr>) = alloc_used a"
  by (simp_all add: wf_allocator_def pools_disjoint_def alloc_dom_def alloc_used_def
      allocator_get_pool_by_address_def)

lemma discover_cache:
  "wf_cache (snd (cache_add 9 (trans_cache_new 9 2 60) discover_message))"
  "msgs_of (snd (cache_add 9 (trans_cache_new 9 2 60) discover_message)) 7 = [discover_message\<lparr>msg_time := 9\<rparr>]"
proof -
  have x: "xid discover_message = 7" by (simp add: discover_message_def)
  have "fst (cache_add 9 (trans_cache_new 9 2 60) discover_message) = 0"
    by (cases rule: cache_add_message[OF wf_cache_new[of 9 2 60], of 9 discover_message])
      (auto simp: cache_add_def trans_cache_new_def trans_new_def)
  moreover have "msgs_of (trans_cache_new 9 2 60) 7 = []"
    by (intro msgs_of_None) (auto simp: trans_cache_new_def trans_new_def)
  ultimately show "msgs_of (snd (cache_add 9 (trans_cache_new 9 2 60) discover_message)) 7 =
      [discover_message\<lparr>msg_time := 9\<rparr>]"
    using caches.add_stored[OF wf_cache_new[of 9 2 60], of 9 discover_message 7] x by simp
  show "wf_cache (snd (cache_add 9 (trans_cache_new 9 2 60) discover_message))"
    by (rule caches.add_inv[OF wf_cache_new])
qed

lemma lan_server_wf:
  "wf_server (lan_server g os)" "alloc_used (srv_allocator (lan_server g os)) = {}"
  "alloc_dom (srv_allocator (lan_server g os)) = {0xC0A80064..0xC0A80068}"
  using discover_cache(1) by (simp_all add: wf_server_def lan_server_def lan_allocator_wf)

lemma lan_offer_list:
  "offer_list (srv_allocator (lan_server lan_options os)) lan_pool (request_option 1) None =
     [message_type_option DHCP_OFFER, word_option 51 3600, word_option 54 0xC0A80001, word_option 1 0xFFFFFF00]"
  by (simp add: offer_list_def answer_list_def active_def tags_def request_list_def request_option_def zeros_def
      answer_option_def lookup_option_def dhcp_option_retrieve_def lan_server_def lan_options_def lan_pool_def
      subnet_mask_word dhcp_option_add_def message_type_option_def)

lemma lan_sendable:
  "sendable [message_type_option t, word_option 51 3600, word_option 54 0xC0A80001, word_option 1 0xFFFFFF00]"
proof -
  let ?l = "[message_type_option t, word_option 51 3600, word_option 54 0xC0A80001, word_option 1 0xFFFFFF00]"
  have num: "is_number_type (dhcp_option_tag_to_type 51)" "is_number_type (dhcp_option_tag_to_type 54)"
    "is_number_type (dhcp_option_tag_to_type 1)"
    by (simp_all add: dhcp_option_tag_to_type_def tag_in_def is_number_type_def)
  have "\<forall>o1 \<in> set ?l. opt_canon o1" using word_option_canon num opt_canon_message_type by simp
  moreover have "length (encode ?l) = 21"
    using word_option_canon(2)[of 51 3600] word_option_canon(2)[of 54 "0xC0A80001"]
      word_option_canon(2)[of 1 "0xFFFFFF00"] num encode_message_type[of t]
    by (simp add: encode_def)
  ultimately show ?thesis by (simp add: sendable_def message_type_option_def)
qed

lemma lan_can_offer:
  "can_offer lan_env (lan_server lan_options [request_option 1]) discover_message [request_option 1] (request_option 1)"
proof -
  let ?s = "lan_server lan_options [request_option 1]"
  note lan_sendable[of DHCP_OFFER]
  moreover have "address_pools (srv_allocator ?s) = [lan_pool]" by (simp add: lan_server_def lan_allocator_def)
  moreover have "configured (srv_allocator ?s) lan_pool 51" "configured (srv_allocator ?s) lan_pool 54"
    by (simp_all add: configured_def lookup_option_def dhcp_option_retrieve_def lan_server_def lan_options_def
        lan_pool_def subnet_mask_word)
  moreover have "wf_options (srv_allocator ?s)"
    by (simp add: wf_options_def stored_def lan_server_def lan_options_def lan_allocator_def lan_pool_def subnet_mask_word)
  moreover have "wf_message discover_message"
    using wf_zero_message[of 0] by (simp add: wf_message_def discover_message_def)
  ultimately show ?thesis
    using discover_cache(2) lan_offer_list[of "[request_option 1]"]
    by (simp add: can_offer_def discover_message_def zero_message_def lan_env_def stored_def request_option_def
        union_size_def dhcp_option_retrieve_def lan_server_def)
qed

section \<open>DHCPDISCOVER\<close>

text \<open>
  C3. A DHCPDISCOVER with a parameter request list, on a server that has a free address,
  options 51 and 54 configured and a transaction for the message, is answered: an address
  of the pools that was not in use is marked as in use (the requested one when it is
  free), no other address changes, the offer with this address is stored behind the
  messages of the transaction, and one packet with this address and the transaction id
  goes to the broadcast address. The tables stay well-formed.
\<close>

theorem discover_offers:
  assumes wf: "wf_server srv" and can: "can_offer env srv m os o55"
    and d: "get_lease_duration srv m = Inr d" "d \<noteq> 0"
    and free: "alloc_dom (srv_allocator srv) - alloc_used (srv_allocator srv) \<noteq> {}"
  shows "\<exists>x srv' offer p. message_dhcpdiscover_handle env srv m = Inr (0, srv') \<and>
     x \<in> alloc_dom (srv_allocator srv) \<and> x \<notin> alloc_used (srv_allocator srv) \<and>
     (\<forall>o50. dhcp_option_retrieve os DHCP_OPTION_REQUESTED_IP_ADDRESS = Some o50 \<longrightarrow>
        ip o50 \<in> alloc_dom (srv_allocator srv) - alloc_used (srv_allocator srv) \<longrightarrow> x = ip o50) \<and>
     wf_server srv' \<and> alloc_used (srv_allocator srv') = insert x (alloc_used (srv_allocator srv)) \<and>
     msgs_of (trans_cache srv') (xid m) = msgs_of (trans_cache srv) (xid m) @ [offer] \<and>
     msg_type offer = DHCP_OFFER \<and> yiaddr offer = x \<and>
     sent srv' = sent srv @ [(htonl (broadcast_addr srv), p)] \<and> ntohl (pkt_yiaddr p) = x \<and>
     ntohl (pkt_xid p) = xid m"
proof -
  let ?a = "srv_allocator srv"
  have os: "srv_heap srv (dhcp_options m) = Some os" and x0: "xid m \<noteq> 0"
    using can by (simp_all add: can_offer_def Let_def)
  obtain x a where x: "discover_address srv m = Inr (x, srv\<lparr>srv_allocator := a\<rparr>)" "wf_allocator a"
    "same_config ?a a" "x \<in> alloc_dom ?a" "x \<notin> alloc_used ?a" "alloc_used a = insert x (alloc_used ?a)"
    "\<forall>o50. dhcp_option_retrieve os DHCP_OPTION_REQUESTED_IP_ADDRESS = Some o50 \<longrightarrow>
        ip o50 \<in> alloc_dom ?a - alloc_used ?a \<longrightarrow> x = ip o50"
    using discover_address_eq[OF wf os] free by auto
  let ?s = "srv\<lparr>srv_allocator := a\<rparr>"
  note can' = can_offer_allocated[OF can x(3)]
  have dom: "alloc_dom a = alloc_dom ?a" "pools_disjoint a = pools_disjoint ?a"
    using same_config_facts[OF x(3)] by simp_all
  have "x \<noteq> 0" using x(4) wf by (auto simp: wf_server_def)
  moreover obtain srv' offer p where s': "message_dhcpoffer_build env ?s m x d = Inr (0, srv')"
    "srv_allocator srv' = a" "wf_cache (trans_cache srv')"
    "\<forall>y. y \<noteq> 0 \<longrightarrow> msgs_of (trans_cache srv') y = msgs_of (trans_cache srv) y @ (if y = xid m then [offer] else [])"
    "msg_type offer = DHCP_OFFER" "yiaddr offer = x"
    "sent srv' = sent srv @ [(htonl (broadcast_addr srv), p)]" "ntohl (pkt_yiaddr p) = x" "ntohl (pkt_xid p) = xid m"
    using offer_build_eq[of ?s env m os o55 x d] can'(1) wf x(4) dom by (auto simp: wf_server_def)
  ultimately have "message_dhcpdiscover_handle env srv m = Inr (0, srv')"
    using x(1) can'(2) d by (simp add: discover_handle_eq if_failed_def)
  moreover have "wf_server srv'" using s'(2,3) x(2) dom wf by (simp add: wf_server_def)
  ultimately show ?thesis using s' x x0 by (intro exI[of _ x] exI[of _ srv'] exI[of _ offer] exI[of _ p]) auto
qed

theorem discover_offers_witness:
  "\<exists>x srv' offer p. message_dhcpdiscover_handle lan_env (lan_server lan_options [request_option 1]) discover_message =
       Inr (0, srv') \<and> x \<in> {0xC0A80064..0xC0A80068} \<and> alloc_used (srv_allocator srv') = {x} \<and>
     msgs_of (trans_cache srv') 7 = [discover_message\<lparr>msg_time := 9\<rparr>, offer] \<and> yiaddr offer = x \<and>
     sent srv' = [(htonl 0xC0A800FF, p)] \<and> ntohl (pkt_yiaddr p) = x"
proof -
  let ?s = "lan_server lan_options [request_option 1]"
  have d: "get_lease_duration ?s discover_message = Inr 3600"
    by (simp add: get_lease_duration_def retrieve_option_def options_of_def lan_server_def discover_message_def
        zero_message_def dhcp_option_retrieve_def request_option_def lan_options_def)
  have "alloc_dom (srv_allocator ?s) - alloc_used (srv_allocator ?s) \<noteq> {}" by (simp add: lan_server_wf)
  from discover_offers[OF lan_server_wf(1) lan_can_offer d _ this] discover_cache(2) show ?thesis
    by (simp add: lan_server_wf) (auto simp: lan_server_def discover_message_def)
qed

text \<open>
  A DHCPDISCOVER that cannot be answered although an address is free still takes one:
  whenever the handler fails (no lease time configured, options that cannot be built or do
  not fit, a packet that is not sent), one more address is in use, but no offer is stored
  in the cache, so no timeout ever gives it back.
\<close>

theorem discover_failure_leaks:
  assumes wf: "wf_server srv" and run: "message_dhcpdiscover_handle env srv m = Inr (rv, srv')" "rv \<noteq> 0"
    and free: "alloc_dom (srv_allocator srv) - alloc_used (srv_allocator srv) \<noteq> {}"
  shows "\<exists>x. x \<in> alloc_dom (srv_allocator srv) - alloc_used (srv_allocator srv) \<and>
     alloc_used (srv_allocator srv') = insert x (alloc_used (srv_allocator srv)) \<and>
     trans_cache srv' = trans_cache srv"
proof -
  obtain os where os: "srv_heap srv (dhcp_options m) = Some os" using run(1) by (rule discover_handle_live)
  obtain x a where x: "discover_address srv m = Inr (x, srv\<lparr>srv_allocator := a\<rparr>)"
    "x \<in> alloc_dom (srv_allocator srv) - alloc_used (srv_allocator srv)"
    "alloc_used a = insert x (alloc_used (srv_allocator srv))"
    using discover_address_eq[OF wf os] free by auto
  let ?s = "srv\<lparr>srv_allocator := a\<rparr>"
  have "srv_allocator srv' = a \<and> trans_cache srv' = trans_cache srv"
    using run x(1) wf
    by (auto simp: discover_handle_eq if_failed_Inr wf_server_def split: if_splits
        dest: builders_answer(1) offer_build_fails simp: answers_def)
  with x show ?thesis by auto
qed

theorem discover_failure_leaks_witness:
  "\<exists>x srv'. message_dhcpdiscover_handle lan_env (lan_server [] [request_option 1]) discover_message = Inr (-1, srv') \<and>
     alloc_used (srv_allocator srv') = {x} \<and> x \<in> {0xC0A80064..0xC0A80068}"
proof -
  let ?s = "lan_server [] [request_option 1]"
  have os: "srv_heap ?s (dhcp_options discover_message) = Some [request_option 1]"
    by (simp add: lan_server_def discover_message_def zero_message_def)
  obtain x a where "discover_address ?s discover_message = Inr (x, ?s\<lparr>srv_allocator := a\<rparr>)" "same_config (srv_allocator ?s) a"
    using discover_address_eq[OF lan_server_wf(1) os] by blast
  moreover have "default_options a = []"
    using same_config_facts[OF calculation(2)] by (simp add: lan_server_def)
  ultimately have run: "message_dhcpdiscover_handle lan_env ?s discover_message = Inr (-1, ?s\<lparr>srv_allocator := a\<rparr>)"
    using os by (simp add: discover_handle_eq get_lease_duration_def retrieve_option_def options_of_def
        dhcp_option_retrieve_def)
  from discover_failure_leaks[OF lan_server_wf(1) run] run show ?thesis
    by (auto simp: lan_server_wf)
qed

text \<open>
  A DHCPDISCOVER without a parameter request list (option 55 is optional in RFC 2131)
  takes the server down: with an address free and a lease time configured, the handler
  reads through the null pointer the search for option 55 returned.
\<close>

theorem discover_without_request_list:
  assumes wf: "wf_server srv" and os: "srv_heap srv (dhcp_options m) = Some os"
    and no55: "dhcp_option_retrieve os DHCP_OPTION_PARAMETER_REQUEST_LIST = None"
    and d: "get_lease_duration srv m = Inr d" "d \<noteq> 0"
    and free: "alloc_dom (srv_allocator srv) - alloc_used (srv_allocator srv) \<noteq> {}"
    and fresh: "env_pick env (srv_heap srv) \<notin> dom (srv_heap srv)"
  shows "message_dhcpdiscover_handle env srv m = Inl Null_deref"
proof -
  obtain x a where x: "discover_address srv m = Inr (x, srv\<lparr>srv_allocator := a\<rparr>)"
    "same_config (srv_allocator srv) a" "x \<in> alloc_dom (srv_allocator srv)"
    using discover_address_eq[OF wf os] free by auto
  have "x \<noteq> 0" using x(3) wf by (auto simp: wf_server_def)
  moreover have "get_lease_duration (srv\<lparr>srv_allocator := a\<rparr>) m = Inr d"
    using d(1) same_config_facts[OF x(2)] by (simp add: get_lease_duration_def retrieve_option_def options_of_def)
  moreover have "env_pick env (srv_heap srv) \<noteq> dhcp_options m" using fresh os by auto
  ultimately show ?thesis
    using x(1) d(2) os no55
    by (simp add: discover_handle_eq if_failed_def message_dhcpoffer_build_def dhcp_message_new_def heap_new_def
        offer_get_requested_dhcp_options_def requested_options_def retrieve_option_def options_of_def Let_def)
qed

theorem discover_without_request_list_witness:
  "message_dhcpdiscover_handle lan_env (lan_server lan_options []) discover_message = Inl Null_deref"
proof (rule discover_without_request_list[OF lan_server_wf(1)])
  show "srv_heap (lan_server lan_options []) (dhcp_options discover_message) = Some []"
    by (simp add: lan_server_def discover_message_def zero_message_def)
  then show "get_lease_duration (lan_server lan_options []) discover_message = Inr 3600"
    by (simp add: get_lease_duration_def retrieve_option_def options_of_def)
      (simp add: lan_server_def dhcp_option_retrieve_def lan_options_def)
qed (simp_all add: dhcp_option_retrieve_def lan_server_wf, simp add: lan_env_def lan_server_def)

section \<open>DHCPREQUEST\<close>

text \<open>The lease a DHCPREQUEST is entered with.\<close>

definition request_lease :: "u32 \<Rightarrow> dhcp_message \<Rightarrow> address_pool \<Rightarrow> u32 \<Rightarrow> u32 \<Rightarrow> lease" where
  "request_lease now m pool x time = \<lparr>lease_address = x, lease_subnet = pool_mask pool,
     lease_pool_name = Some (pool_name pool), lease_start = now, lease_expire = now + time, lease_xid = xid m,
     lease_flags = 0, client_mac_address = take 6 (chaddr m)\<rparr>"

lemma commit_lease_eq:
  assumes "wf_message m" "allocator_get_pool_by_address (srv_allocator srv) x = Some i"
    "pool = address_pools (srv_allocator srv) ! i" "cjson_ok (env_json env)"
    "holds (env_json env) (srv_files srv) (pool_name pool) ls" "env_open env (lease_path (pool_name pool))"
  shows "\<exists>fs. dhcp_requst_commit_lease env srv m t x = Inr (0, srv\<lparr>srv_files := fs\<rparr>) \<and>
     holds (env_json env) fs (pool_name pool) (ls @ [request_lease (env_now env) m pool x t])"
proof -
  have ch: "length (chaddr m) = 18" using assms(1) by (simp add: wf_message_def)
  let ?l = "request_lease (env_now env) m pool x t"
  have "wf_lease (pool_name pool) ?l" using ch by (simp add: wf_lease_def request_lease_def)
  then obtain fs where "lease_add (env_json env) (env_open env) (srv_files srv) ?l = Inr (0, fs)"
    "holds (env_json env) fs (pool_name pool) (ls @ [?l])"
    using lease_add_eq[of "env_json env" "srv_files srv" "pool_name pool" ls "env_open env" ?l] assms(4-6) by blast
  with assms(2,3) ch show ?thesis
    by (auto simp: dhcp_requst_commit_lease_def memcpy_def request_lease_def zeros_def Let_def)
qed


text \<open>The state in which the client of \<open>discover_message\<close> has been offered 192.168.0.101.\<close>

definition taken_allocator :: allocator where
  "taken_allocator =
     (case allocator_request_this_address (lan_allocator\<lparr>default_options := lan_options\<rparr>) 0xC0A80065 0 of
        Inr (_, _, a) \<Rightarrow> a | Inl _ \<Rightarrow> lan_allocator)"

definition offer_message :: dhcp_message where
  "offer_message = (zero_message 2)\<lparr>xid := 7, msg_type := DHCP_OFFER, yiaddr := 0xC0A80065\<rparr>"

definition request_message :: dhcp_message where
  "request_message = discover_message\<lparr>msg_type := DHCP_REQUEST\<rparr>"

definition offered_server :: "dhcp_option list \<Rightarrow> dhcp_server" where
  "offered_server os = (lan_server lan_options os)\<lparr>srv_allocator := taken_allocator,
     trans_cache := snd (cache_add 9 (trans_cache (lan_server lan_options os)) offer_message)\<rparr>"

lemma taken_allocator_facts:
  "wf_allocator taken_allocator" "alloc_used taken_allocator = {0xC0A80065}"
  "same_config (lan_allocator\<lparr>default_options := lan_options\<rparr>) taken_allocator"
proof -
  let ?a = "lan_allocator\<lparr>default_options := lan_options\<rparr>"
  have "wf_allocator ?a" "0xC0A80065 \<in> alloc_dom ?a" "0xC0A80065 \<notin> alloc_used ?a"
    by (simp_all add: lan_allocator_wf)
  from request_this_ok[OF this, of 0] obtain b where
    b: "allocator_request_this_address ?a 0xC0A80065 0 = Inr (0, 0xC0A80065, b)" "wf_allocator b"
    "alloc_used b = insert 0xC0A80065 (alloc_used ?a)" by blast
  then show "wf_allocator taken_allocator" "alloc_used taken_allocator = {0xC0A80065}" "same_config ?a taken_allocator"
    using request_this_same_config[OF b(1)] by (simp_all add: taken_allocator_def lan_allocator_wf)
qed

lemma offered_cache:
  "wf_cache (trans_cache (offered_server os))"
  "msgs_of (trans_cache (offered_server os)) 7 = [discover_message\<lparr>msg_time := 9\<rparr>, offer_message\<lparr>msg_time := 9\<rparr>]"
proof -
  let ?c = "trans_cache (lan_server lan_options os)"
  have c: "wf_cache ?c" "msgs_of ?c 7 = [discover_message\<lparr>msg_time := 9\<rparr>]"
    using discover_cache by (simp_all add: lan_server_def)
  have x: "xid offer_message = 7" by (simp add: offer_message_def)
  have "7 \<in> trans_xid ` set ?c" using c(2) msgs_of_None[of 7 ?c] by auto
  then have "fst (cache_add 9 ?c offer_message) = 0"
    using x by (cases rule: cache_add_message[OF c(1), of 9 offer_message]) (auto simp: cache_add_def)
  with caches.add_stored[OF c(1), of 9 offer_message 7] caches.add_inv[OF c(1), of 9 offer_message] x c(2)
  show "wf_cache (trans_cache (offered_server os))"
    "msgs_of (trans_cache (offered_server os)) 7 = [discover_message\<lparr>msg_time := 9\<rparr>, offer_message\<lparr>msg_time := 9\<rparr>]"
    by (simp_all add: offered_server_def)
qed

lemma offered_server_wf: "wf_server (offered_server os)"
proof -
  note f = same_config_facts[OF taken_allocator_facts(3)]
  show ?thesis
    using offered_cache(1)[of os] taken_allocator_facts(1) f(1,3) lan_allocator_wf
    by (simp add: wf_server_def offered_server_def)
qed

lemma offered_pool:
  "allocator_get_pool_by_address taken_allocator 0xC0A80065 = Some 0" "length (address_pools taken_allocator) = 1"
  "same_pool lan_pool (address_pools taken_allocator ! 0)" "default_options taken_allocator = lan_options"
proof -
  note f = same_config_facts[OF taken_allocator_facts(3)]
  show "allocator_get_pool_by_address taken_allocator 0xC0A80065 = Some 0"
    unfolding f(2) by (simp add: allocator_get_pool_by_address_def lan_allocator_def address_belongs_to_pool_def lan_pool_def)
  show "length (address_pools taken_allocator) = 1" "same_pool lan_pool (address_pools taken_allocator ! 0)"
    "default_options taken_allocator = lan_options"
    using f(4,6) f(5)[of 0] by (simp_all add: lan_allocator_def)
qed

lemma offered_valid:
  assumes "dhcp_option_retrieve os DHCP_OPTION_PARAMETER_REQUEST_LIST = Some o55"
  shows "validate_client_id_and_requested_params (offered_server os) request_message = Inr True"
proof -
  have x: "xid request_message = 7" "dhcp_options request_message = 0"
    by (simp_all add: request_message_def discover_message_def zero_message_def)
  have "trans_cache_retrieve_message (trans_cache (offered_server os)) 7 DHCP_DISCOVER = Some (discover_message\<lparr>msg_time := 9\<rparr>)"
    using offered_cache(2)[of os]
    by (auto simp: trans_cache_retrieve_message_def msgs_of_def trans_search_for_def discover_message_def split: option.splits)
  moreover have "dhcp_options (discover_message\<lparr>msg_time := 9\<rparr>) = 0" by (simp add: discover_message_def zero_message_def)
  moreover have "srv_heap (offered_server os) = [0 \<mapsto> os]" by (simp add: offered_server_def lan_server_def)
  ultimately show ?thesis
    using assms x by (auto simp: validate_client_id_and_requested_params_def retrieve_option_def options_of_def
        values_differ_def split: option.splits)
qed

abbreviation offered_options :: "dhcp_option list" where
  "offered_options \<equiv> [request_option 1, word_option 50 0xC0A80065, word_option 54 0xC0A80001]"

lemma offered_can_ack:
  "can_ack lan_env (offered_server offered_options) request_message offered_options (request_option 1) 0"
proof -
  let ?s = "offered_server offered_options" and ?p = "address_pools taken_allocator ! 0"
  have a: "srv_allocator ?s = taken_allocator" by (simp add: offered_server_def)
  have ov: "dhcp_option_override ?p = [word_option 1 0xFFFFFF00]"
    using offered_pool(3) by (simp add: same_pool_def lan_pool_def subnet_mask_word)
  have "ack_list taken_allocator ?p (request_option 1) =
      [message_type_option DHCP_ACK, word_option 51 3600, word_option 54 0xC0A80001, word_option 1 0xFFFFFF00]"
    by (simp add: ack_list_def answer_list_def active_def tags_def request_list_def request_option_def zeros_def
      answer_option_def lookup_option_def dhcp_option_retrieve_def offered_pool(4) lan_options_def ov
      dhcp_option_add_def message_type_option_def)
  with lan_sendable[of DHCP_ACK] have "sendable (ack_list taken_allocator ?p (request_option 1))" by simp
  moreover have "configured taken_allocator ?p 51" "configured taken_allocator ?p 54"
    by (simp_all add: configured_def lookup_option_def dhcp_option_retrieve_def offered_pool(4) lan_options_def ov)
  moreover have "wf_options taken_allocator"
  proof -
    have "address_pools taken_allocator = [?p]" using offered_pool(2) by (simp add: list_eq_iff_nth_eq)
    then have "set (address_pools taken_allocator) = {?p}" by (metis list.set(1,2))
    then show ?thesis by (simp add: wf_options_def stored_def offered_pool(4) lan_options_def ov)
  qed
  moreover have "wf_message request_message"
    using wf_zero_message[of 0] by (simp add: wf_message_def request_message_def discover_message_def)
  ultimately show ?thesis
    using offered_cache(2)[of offered_options] a
    by (simp add: can_ack_def request_message_def discover_message_def zero_message_def lan_env_def stored_def
        request_option_def union_size_def dhcp_option_retrieve_def offered_server_def lan_server_def)
qed


text \<open>
  C28. The acknowledgement of a DHCPREQUEST is stored in its transaction without a message
  type, so the transaction never contains an acknowledgement: when its timer runs out, the
  address that was offered and acknowledged goes back to the pool although its lease runs
  on, and can be offered to another client.
\<close>

theorem acknowledged_address_released:
  assumes wf: "wf_server srv" and can: "can_ack env srv m os o55 i"
    and x: "allocator_get_pool_by_address (srv_allocator srv) x = Some i"
    and offer: "List.find (\<lambda>o1. msg_type o1 = DHCP_OFFER) (msgs_of (trans_cache srv) (xid m)) = Some offer"
      "yiaddr offer = x"
    and no_ack: "\<forall>o1 \<in> set (msgs_of (trans_cache srv) (xid m)). msg_type o1 \<noteq> DHCP_ACK"
  shows "\<exists>srv' k. message_dhcpack_build env srv m d x = Inr (0, srv') \<and> k < length (trans_cache srv') \<and>
     trans_xid (trans_cache srv' ! k) = xid m \<and>
     (\<forall>now. expires now (trans_cache srv' ! k) \<longrightarrow>
        (\<exists>rv cache' a'. trans_update_timer now (trans_cache srv') k (srv_allocator srv') = Inr (rv, cache', a') \<and>
           alloc_used a' = alloc_used (srv_allocator srv) - {x}))"
proof -
  have y: "xid m \<noteq> 0" using can by (simp add: can_ack_def Let_def)
  obtain srv' ack where s': "message_dhcpack_build env srv m d x = Inr (0, srv')" "srv_allocator srv' = srv_allocator srv"
    "wf_cache (trans_cache srv')" "msgs_of (trans_cache srv') (xid m) = msgs_of (trans_cache srv) (xid m) @ [ack]"
    "msg_type ack = 0"
    using ack_build_eq[OF _ can x, of d] wf y by (auto simp: wf_server_def)
  obtain k where k: "k < length (trans_cache srv')" "trans_xid (trans_cache srv' ! k) = xid m"
    "messages_ll (trans_cache srv' ! k) = msgs_of (trans_cache srv') (xid m)"
    using s'(4) by (auto simp: msgs_of_def split: option.splits dest: retrieve_transaction_Some)
  have "trans_search_for (trans_cache srv' ! k) DHCP_ACK = None"
    using no_ack s'(4,5) k(3) by (auto simp: trans_search_for_def find_None_iff)
  moreover have "trans_search_for (trans_cache srv' ! k) DHCP_OFFER = Some offer"
    using offer(1) s'(4) k(3) by (simp add: trans_search_for_def find_append)
  ultimately have un: "unclaimed (trans_cache srv' ! k) = {x}" using offer(2) by (simp add: unclaimed_def)
  have wfa: "wf_allocator (srv_allocator srv')" using wf s'(2) by (simp add: wf_server_def)
  have "\<exists>rv cache' a'. trans_update_timer now (trans_cache srv') k (srv_allocator srv') = Inr (rv, cache', a') \<and>
      alloc_used a' = alloc_used (srv_allocator srv) - {x}" if "expires now (trans_cache srv' ! k)" for now
    using trans_update_timer_eq[OF s'(3) wfa k(1), of now] that un s'(2) by auto
  with s'(1) k(1,2) show ?thesis by blast
qed

theorem acknowledged_address_released_witness:
  "\<exists>srv' k. message_dhcpack_build lan_env (offered_server offered_options) request_message 3600 0xC0A80065 = Inr (0, srv') \<and>
     (\<forall>now. expires now (trans_cache srv' ! k) \<longrightarrow>
        (\<exists>rv cache' a'. trans_update_timer now (trans_cache srv') k (srv_allocator srv') = Inr (rv, cache', a') \<and>
           alloc_used a' = {}))"
proof -
  have x: "xid request_message = 7" by (simp add: request_message_def discover_message_def)
  have t: "msg_type discover_message = DHCP_DISCOVER" "msg_type offer_message = DHCP_OFFER" "yiaddr offer_message = 0xC0A80065"
    by (simp_all add: discover_message_def offer_message_def)
  have s: "srv_allocator (offered_server offered_options) = taken_allocator" by (simp add: offered_server_def)
  have pool: "allocator_get_pool_by_address (srv_allocator (offered_server offered_options)) 0xC0A80065 = Some 0"
    by (simp add: s offered_pool)
  from acknowledged_address_released[OF offered_server_wf offered_can_ack pool, of "offer_message\<lparr>msg_time := 9\<rparr>" 3600]
  show ?thesis unfolding x offered_cache(2) by (auto simp: t s taken_allocator_facts)
qed

text \<open>
  A DHCPREQUEST that passes the validation and asks for an address outside every pool
  takes the server down: such an address counts as not available, and the lookup of its
  lease time reads through the null pointer the search for its pool returned.
\<close>

theorem request_outside_pools:
  assumes wf: "wf_server srv" and os: "srv_heap srv (dhcp_options m) = Some os"
    and o54: "dhcp_option_retrieve os DHCP_OPTION_SERVER_IDENTIFIER = Some o54" "ip o54 = bound_ip srv"
    and addr: "ciaddr m = 0" "yiaddr m = 0"
    and valid: "validate_client_id_and_requested_params srv m = Inr True"
    and o50: "dhcp_option_retrieve os DHCP_OPTION_REQUESTED_IP_ADDRESS = Some o50" "ip o50 \<noteq> 0"
      "ip o50 \<notin> alloc_dom (srv_allocator srv)"
  shows "message_dhcprequest_handle env srv m = Inl Null_deref"
proof -
  have "allocator_is_address_available (srv_allocator srv) (ip o50) = Inr False"
    using is_available_eq[of "srv_allocator srv" "ip o50"] wf o50(3) by (simp add: wf_server_def)
  moreover have "retrieve_lease_time (ip o50) (srv_allocator srv) = Inl Null_deref"
    using o50(2,3) get_pool_None[of "srv_allocator srv" "ip o50"] by (simp add: retrieve_lease_time_def)
  ultimately show ?thesis
    using os o54 addr valid o50(1,2)
    by (simp add: message_dhcprequest_handle_def dhcp_request_response_to_offer_def retrieve_client_address_def
        retrieve_option_def options_of_def)
qed

theorem request_outside_pools_witness:
  "message_dhcprequest_handle lan_env (offered_server [request_option 1, word_option 50 2, word_option 54 0xC0A80001])
     request_message = Inl Null_deref"
proof (rule request_outside_pools[OF offered_server_wf])
  let ?os = "[request_option 1, word_option 50 2, word_option 54 0xC0A80001]"
  show "validate_client_id_and_requested_params (offered_server ?os) request_message = Inr True"
    by (rule offered_valid) (simp add: dhcp_option_retrieve_def request_option_def)
  show "srv_heap (offered_server ?os) (dhcp_options request_message) = Some ?os"
    by (simp add: offered_server_def lan_server_def request_message_def discover_message_def zero_message_def)
  show "dhcp_option_retrieve ?os DHCP_OPTION_SERVER_IDENTIFIER = Some (word_option 54 0xC0A80001)"
    "dhcp_option_retrieve ?os DHCP_OPTION_REQUESTED_IP_ADDRESS = Some (word_option 50 2)"
    by (simp_all add: dhcp_option_retrieve_def request_option_def)
  show "ip (word_option 50 2) \<notin> alloc_dom (srv_allocator (offered_server ?os))"
    using same_config_facts(1)[OF taken_allocator_facts(3)] by (simp add: offered_server_def lan_allocator_wf)
qed (simp_all add: offered_server_def lan_server_def request_message_def discover_message_def zero_message_def)

section \<open>The options of a stored DHCPDISCOVER\<close>


definition request_packet :: dhcp_packet where
  "request_packet = zero_packet\<lparr>pkt_xid := htonl 7, pkt_cookie := htonl MAGIC_COOKIE,
     pkt_options := [53, 1, 3, 255] @ zeros 332\<rparr>"

lemma request_packet_parses:
  "\<exists>m. dhcp_packet_parse pick ((zero_message 0)\<lparr>packet := request_packet\<rparr>) [0 \<mapsto> os] =
       Inr (0, m, [pick Map.empty \<mapsto> [message_type_option 3]]) \<and>
     xid m = 7 \<and> msg_type m = 3 \<and> dhcp_options m = pick Map.empty \<and> ciaddr m = 0 \<and> length (chaddr m) = 18"
proof -
  have "dhcp_option_parse [] (53 # 1 # 3 # 255 # zeros 332) = Inr (0, [message_type_option 3])"
    using parse_sendable[OF sendable_message_type[of 3], of "zeros 332"] unfolding encode_message_type by simp
  moreover have "dhcp_option_retrieve [message_type_option 3] 53 = Some (message_type_option 3)"
    by (simp add: dhcp_option_retrieve_def message_type_option_def)
  moreover have "number (message_type_option 3) = 3"
    by (simp add: number_message_type)
  moreover have "ntohl 0 = 0" by (simp add: ntohl_def htonl_def le_bytes_def le_word_def)
  ultimately show ?thesis
    by (simp add: dhcp_packet_parse_def parse_header_def request_packet_def zero_packet_def zero_message_def memcpy_def
        heap_free_def heap_new_def)
qed


end
