(* ===== verification/Snoop.thy ===== *)
theory Snoop
  imports Dhcp_packet Timer Xtoy
begin

text \<open>
  The scan for other DHCP servers (\<open>security/dhcp_snooping/dhcp_snoop.c\<close>): the server
  broadcasts a DHCPDISCOVER of its own and reports every offer of a server that is not on
  a list of known ones. What the host does during a scan is a parameter: whether the
  sockets work, the random number, what is in uninitialised memory, and for every turn of
  the waiting loop the time and what \<open>recv\<close> returns.
\<close>

abbreviation (input) DHCP_SNOOP_DISABLED :: int where "DHCP_SNOOP_DISABLED \<equiv> - 2147483648"
abbreviation (input) DHCP_SNOOP_ERROR :: int where "DHCP_SNOOP_ERROR \<equiv> -1"
abbreviation (input) DHCP_SNOOP_NO_THREAT :: int where "DHCP_SNOOP_NO_THREAT \<equiv> 0"
abbreviation (input) DHCP_SNOOP_POTENTIAL_ROGUE :: int where "DHCP_SNOOP_POTENTIAL_ROGUE \<equiv> 1"
abbreviation (input) STATUS_MSG_LEN :: nat where "STATUS_MSG_LEN \<equiv> 4096"

text \<open>One turn of the waiting loop: the time, and the packet if one was received.\<close>

type_synonym turn = "u32 \<times> dhcp_packet option"

record scan_env =
  scan_pick :: "heap \<Rightarrow> ref"
  scan_socket :: bool
  scan_send :: "dhcp_packet \<Rightarrow> bool"
  scan_rand :: u32
  scan_stack :: "u8 list"
  scan_start :: u32
  scan_turns :: "turn list"

text \<open>The static variable \<open>xid_used_in_scan\<close>, the heap and the packets sent.\<close>

record scan_state =
  xid_used_in_scan :: u32
  scan_heap :: heap
  scan_sent :: "(u32 \<times> dhcp_packet) list"

section \<open>The discover message\<close>

definition discover_send :: "scan_env \<Rightarrow> scan_state \<Rightarrow> dhcp_message \<Rightarrow> int \<times> scan_state" where
  "discover_send env s discover =
     (if scan_send env (packet discover)
      then (0, s\<lparr>scan_sent := scan_sent s @ [(0xffffffff, packet discover)]\<rparr>) else (-1, s))"

definition snoop_get_dhcp_options :: "scan_state \<Rightarrow> dhcp_message \<Rightarrow> (int \<times> scan_state) c" where
  "snoop_get_dhcp_options s discover =
     cbind (dhcp_option_new_values 53 1 [ucast (DHCP_DISCOVER :: u32)]) (\<lambda>o1.
     cbind (heap_get (scan_heap s) (dhcp_options discover)) (\<lambda>os.
       case dhcp_option_add os (Some o1) of (rv, os) \<Rightarrow>
         let s = s\<lparr>scan_heap := (scan_heap s)(dhcp_options discover \<mapsto> os)\<rparr> in
         if rv \<noteq> 0 then Inr (-1, s) else Inr (0, s)))"

text \<open>The result is the status, the id of the transaction and the state.\<close>

definition snoop_send_dhcp_discover ::
    "scan_env \<Rightarrow> scan_state \<Rightarrow> string option \<Rightarrow> u32 \<Rightarrow> (int \<times> u32 \<times> scan_state) c" where
  "snoop_send_dhcp_discover env s spoofed_mac xid_buf =
     (case spoofed_mac of None \<Rightarrow> Inr (-1, xid_buf, s)
      | Some mac \<Rightarrow>
          (case dhcp_message_new (scan_pick env) (scan_heap s) of (m, h) \<Rightarrow>
             let discover = m\<lparr>opcode := BOOTREQUEST, htype := ETHERNET, hlen := 6, hops := 0,
                   xid := scan_rand env, secs := htons 65535, ciaddr := 0, yiaddr := 0, siaddr := 0,
                   flags := 32768, giaddr := 0, cookie := MAGIC_COOKIE, msg_type := DHCP_DISCOVER\<rparr>;
                 s = s\<lparr>scan_heap := h, xid_used_in_scan := scan_rand env\<rparr>
             in cbind (mac_to_uint8_array mac (scan_stack env)) (\<lambda>mac_buffer.
                cbind (memcpy (chaddr discover) 0 mac_buffer 6) (\<lambda>ch.
                let discover = discover\<lparr>chaddr := ch\<rparr> in
                cbind (snoop_get_dhcp_options s discover) (\<lambda>(rv, s).
                  if rv \<noteq> 0 then Inr (-1, xid_buf, s)
                  else cbind (dhcp_packet_build discover (scan_heap s)) (\<lambda>(rv, discover).
                    if rv \<noteq> 0 then Inr (-1, xid_buf, s)
                    else case discover_send env s discover of (rv, s) \<Rightarrow>
                      if rv \<noteq> 0 then Inr (-1, xid_buf, s) else Inr (0, xid discover, s)))))))"

section \<open>The offers\<close>

definition is_server_whitelisted :: "u32 list \<Rightarrow> dhcp_option list \<Rightarrow> bool" where
  "is_server_whitelisted whitelist os =
     (case dhcp_option_retrieve os DHCP_OPTION_SERVER_IDENTIFIER of
        None \<Rightarrow> False | Some o1 \<Rightarrow> List.member whitelist (ip o1))"

text \<open>\<open>strcat\<close> into the buffer of the status message.\<close>

definition status_cat :: "string \<Rightarrow> string \<Rightarrow> string c" where
  "status_cat status s = (if length status + length s < STATUS_MSG_LEN then Inr (status @ s) else Inl Out_of_bounds)"

text \<open>The characters of an option value up to the first NUL.\<close>

definition value_string :: "dhcp_option \<Rightarrow> string" where
  "value_string o1 = map (\<lambda>b. char_of (unat b)) (takeWhile (\<lambda>b. b \<noteq> 0) (opt_value o1))"

definition log_threat :: "dhcp_option list \<Rightarrow> string \<Rightarrow> string c" where
  "log_threat os status =
     (let o_server_id = dhcp_option_retrieve os DHCP_OPTION_SERVER_IDENTIFIER in
      cbind (status_cat status (case o_server_id of None \<Rightarrow> ''Threat: No_ID - ''
               | Some o1 \<Rightarrow> ''Threat: '' @ uint32_to_ipv4_address (ip o1) @ '' - '')) (\<lambda>status.
      let o_hostname = dhcp_option_retrieve os DHCP_OPTION_HOST_NAME in
      case o_server_id of
        None \<Rightarrow> status_cat status ''No hostname,''
      | Some _ \<Rightarrow> (case o_hostname of
            None \<Rightarrow> Inl Null_deref
          | Some o1 \<Rightarrow> status_cat status (''hostname: '' @ value_string o1 @ '',''))))"

text \<open>
  A received packet: whether it is an offer that counts as a threat, with the status
  message extended; the message buffer and the heap.
\<close>

definition check_offer ::
    "(heap \<Rightarrow> ref) \<Rightarrow> u32 list \<Rightarrow> u32 \<Rightarrow> dhcp_packet \<Rightarrow> dhcp_message \<Rightarrow> heap \<Rightarrow> string \<Rightarrow>
     (bool \<times> dhcp_message \<times> heap \<times> string) c" where
  "check_offer pick whitelist scan_xid p message h status =
     cbind (dhcp_packet_parse pick (message\<lparr>packet := p\<rparr>) h) (\<lambda>(rv, m, h).
       if rv < 0 then Inr (False, m, h, status)
       else if msg_type m \<noteq> DHCP_OFFER \<or> xid m \<noteq> scan_xid then Inr (False, m, h, status)
       else cbind (heap_get h (dhcp_options m)) (\<lambda>os.
         if is_server_whitelisted whitelist os then Inr (False, m, h, status)
         else cbind (log_threat os status) (\<lambda>status. Inr (True, m, h, status))))"

text \<open>
  The waiting loop over the turns that happen; \<open>None\<close> when the turns run out while it still
  waits. The timer can end the wait, the packet of the same turn is still looked at.
\<close>

fun listen_loop ::
    "(heap \<Rightarrow> ref) \<Rightarrow> u32 list \<Rightarrow> u32 \<Rightarrow> turn list \<Rightarrow> bool \<Rightarrow> timer \<Rightarrow> dhcp_message \<Rightarrow> heap \<Rightarrow> string \<Rightarrow> int \<Rightarrow>
     ((int \<times> heap \<times> string) c) option" where
  "listen_loop pick whitelist scan_xid turns False t m h status rv = Some (Inr (rv, h, status))"
| "listen_loop pick whitelist scan_xid [] True t m h status rv = None"
| "listen_loop pick whitelist scan_xid ((now, r) # turns) True t m h status rv =
     (case timer_update now t of (outcome, t) \<Rightarrow>
        let keep = (case outcome of Calls _ _ \<Rightarrow> False | Returns _ \<Rightarrow> True)
        in case r of
             None \<Rightarrow> listen_loop pick whitelist scan_xid turns keep t m h status rv
           | Some p \<Rightarrow>
               (case check_offer pick whitelist scan_xid p m h status of
                  Inl e \<Rightarrow> Some (Inl e)
                | Inr (threat, m, h, status) \<Rightarrow>
                    listen_loop pick whitelist scan_xid turns keep t m h status
                      (if threat then DHCP_SNOOP_POTENTIAL_ROGUE else rv)))"

definition listen_to_offers ::
    "scan_env \<Rightarrow> u32 list \<Rightarrow> string \<Rightarrow> u32 \<Rightarrow> heap \<Rightarrow> (int \<times> heap \<times> string) c" where
  "listen_to_offers env whitelist status_msg scan_xid h =
     (let t = timer_new (scan_start env) TIMER_ONCE 10 True (Some Cb_turn_off_scanning) in
      case dhcp_message_new (scan_pick env) h of (message, h) \<Rightarrow>
        cbind (of_loop (listen_loop (scan_pick env) whitelist scan_xid (scan_turns env) True t message h status_msg
                 DHCP_SNOOP_ERROR)) (\<lambda>(rv, h, status).
          if rv \<noteq> DHCP_SNOOP_POTENTIAL_ROGUE
          then cbind (status_cat status ''No threats detected'') (\<lambda>status. Inr (DHCP_SNOOP_NO_THREAT, h, status))
          else Inr (rv, h, status)))"

text \<open>The whole scan, as built with the snooping module; the result has the status message.\<close>

definition dhcp_snooper_perform_scan ::
    "scan_env \<Rightarrow> scan_state \<Rightarrow> string option \<Rightarrow> u32 list \<Rightarrow> (int \<times> string \<times> scan_state) c" where
  "dhcp_snooper_perform_scan env s spoofed_mac whitelist =
     (if spoofed_mac = None then Inr (DHCP_SNOOP_ERROR, [], s)
      else if \<not> scan_socket env then Inr (DHCP_SNOOP_ERROR, [], s)
      else cbind (snoop_send_dhcp_discover env s spoofed_mac 0) (\<lambda>(rv, scan_xid, s).
        if rv \<noteq> 0 then Inr (DHCP_SNOOP_ERROR, [], s)
        else cbind (listen_to_offers env whitelist [] scan_xid (scan_heap s)) (\<lambda>(rv, h, status).
          Inr (rv, status, s\<lparr>scan_heap := h\<rparr>))))"

definition dhcp_snooper_check_xid :: "scan_state \<Rightarrow> u32 \<Rightarrow> bool" where
  "dhcp_snooper_check_xid s x \<longleftrightarrow> x = xid_used_in_scan s"

section \<open>Lemmas\<close>

lemma listen_loop_idle:
  "listen_loop pick whitelist x (map (\<lambda>u. (u, None)) ts) True t m h status rv =
     (case fst (run_timer ts t) of None \<Rightarrow> None | Some _ \<Rightarrow> Some (Inr (rv, h, status)))"
proof (induction ts arbitrary: t)
  case (Cons u ts)
  then show ?case by (cases "timer_update u t") (auto split: timer_outcome.splits)
qed simp

lemma listen_loop_deadline:
  "listen_loop pick whitelist x turns True t m h status rv = None \<Longrightarrow> fst (run_timer (map fst turns) t) = None"
proof (induction turns arbitrary: t m h status rv)
  case (Cons turn turns)
  obtain now r where turn: "turn = (now, r)" by (cases turn)
  obtain outcome t' where upd: "timer_update now t = (outcome, t')" by (cases "timer_update now t")
  with Cons turn show ?case
    by (cases r) (auto split: timer_outcome.splits sum.splits prod.splits)
qed simp

lemma listen_loop_one:
  "listen_loop pick whitelist x ((u, Some p) # map (\<lambda>u. (u, None)) ts) True t m h status rv =
     (case check_offer pick whitelist x p m h status of
        Inl e \<Rightarrow> Some (Inl e)
      | Inr (threat, m, h, status) \<Rightarrow>
          (case fst (run_timer (u # ts) t) of None \<Rightarrow> None
           | Some _ \<Rightarrow> Some (Inr (if threat then DHCP_SNOOP_POTENTIAL_ROGUE else rv, h, status))))"
  by (cases "timer_update u t") (auto simp: listen_loop_idle split: timer_outcome.splits sum.splits prod.splits)

text \<open>A packet that carries an offer of the scan's transaction with the given options.\<close>

definition offer_packet :: "u32 \<Rightarrow> dhcp_option list \<Rightarrow> dhcp_packet \<Rightarrow> bool" where
  "offer_packet x os p \<longleftrightarrow> wf_packet p \<and> pkt_cookie p = htonl MAGIC_COOKIE \<and> pkt_xid p = htonl x \<and>
     (\<exists>rest. pkt_options p = encode os @ 0xff # rest) \<and> sendable os \<and>
     dhcp_option_retrieve os DHCP_OPTION_DHCP_MESSAGE_TYPE = Some (message_type_option DHCP_OFFER)"

lemma check_offer_eq:
  assumes p: "offer_packet x os p" and m: "wf_message m" "h (dhcp_options m) = Some old"
  shows "\<exists>m' h'. check_offer pick whitelist x p m h status =
     (if is_server_whitelisted whitelist os then Inr (False, m', h', status)
      else cbind (log_threat os status) (\<lambda>status. Inr (True, m', h', status)))"
proof -
  from p obtain rest where raw: "pkt_options p = encode os @ 0xff # rest" by (auto simp: offer_packet_def)
  have wf: "wf_message (m\<lparr>packet := p\<rparr>)" using m p by (simp add: wf_message_def offer_packet_def)
  have n: "number (message_type_option DHCP_OFFER) = DHCP_OFFER" by (simp add: number_message_type)
  from packet_parse_eq[OF wf, of h old os rest "message_type_option DHCP_OFFER" _ pick] p raw m(2)
  show ?thesis by (auto simp: check_offer_def offer_packet_def n)
qed

lemma status_cat_eq: "length status + length s < STATUS_MSG_LEN \<Longrightarrow> status_cat status s = Inr (status @ s)"
  by (simp add: status_cat_def)

lemma length_value_string: "length (value_string o1) \<le> length (opt_value o1)"
  by (simp add: value_string_def length_takeWhile_le)

lemma log_threat_eq:
  assumes "dhcp_option_retrieve os DHCP_OPTION_SERVER_IDENTIFIER = Some sid"
  shows "log_threat os [] = (case dhcp_option_retrieve os DHCP_OPTION_HOST_NAME of
     None \<Rightarrow> Inl Null_deref
   | Some o1 \<Rightarrow> status_cat (''Threat: '' @ uint32_to_ipv4_address (ip sid) @ '' - '')
       (''hostname: '' @ value_string o1 @ '',''))"
proof -
  have "length (uint32_to_ipv4_address (ip sid)) \<le> 15" by (simp add: uint32_to_ipv4_address_def)
  then have "status_cat [] (''Threat: '' @ uint32_to_ipv4_address (ip sid) @ '' - '') =
      Inr (''Threat: '' @ uint32_to_ipv4_address (ip sid) @ '' - '')"
    by (simp add: status_cat_def)
  then show ?thesis using assms by (simp add: log_threat_def Let_def split: option.split)
qed

lemma sendable_value_length:
  assumes "sendable os" "dhcp_option_retrieve os t = Some o1"
  shows "length (opt_value o1) = union_size"
proof -
  have "o1 \<in> set os"
    using assms(2) unfolding dhcp_option_retrieve_def by (metis find_Some_iff nth_mem)
  with assms(1) show ?thesis by (simp add: sendable_def opt_canon_def opt_ser_def)
qed

section \<open>Properties\<close>



text \<open>
  C32. The verdict on one offer that names its server: a known server gives no threat, an
  unknown one is reported with its address and host name, and an unknown one that sends no
  host name makes the server dereference a null pointer.
\<close>

theorem scan_verdict:
  assumes "offer_packet x os p" "dhcp_option_retrieve os DHCP_OPTION_SERVER_IDENTIFIER = Some sid"
    and "scan_turns env = (u, Some p) # map (\<lambda>u. (u, None)) ts"
    and "ascending (scan_start env) (u # ts)" "\<exists>v \<in> set (u # ts). 10 \<le> elapsed (scan_start env) v"
  shows "\<exists>h'. listen_to_offers env whitelist [] x h =
     (if ip sid \<in> set whitelist then Inr (DHCP_SNOOP_NO_THREAT, h', ''No threats detected'')
      else case dhcp_option_retrieve os DHCP_OPTION_HOST_NAME of
        None \<Rightarrow> Inl Null_deref
      | Some o1 \<Rightarrow> Inr (DHCP_SNOOP_POTENTIAL_ROGUE, h',
          ''Threat: '' @ uint32_to_ipv4_address (ip sid) @ '' - hostname: '' @ value_string o1 @ '',''))"
proof -
  let ?t = "timer_new (scan_start env) TIMER_ONCE 10 True (Some Cb_turn_off_scanning)"
  let ?r = "scan_pick env h"
  have fires: "\<exists>v. fst (run_timer (u # ts) ?t) = Some v"
    using run_timer_first[of ?t Cb_turn_off_scanning "u # ts"] assms(4,5)
    by (auto simp: timer_new_def find_None_iff simp del: run_timer.simps ascending.simps
        intro: option.exhaust[of "List.find (\<lambda>v. 10 \<le> elapsed (scan_start env) v) (u # ts)"])
  have white: "is_server_whitelisted whitelist os = (ip sid \<in> set whitelist)"
    using assms(2) by (simp add: is_server_whitelisted_def)
  have len: "length (uint32_to_ipv4_address (ip sid)) \<le> 15" by (simp add: uint32_to_ipv4_address_def)
  have cat: "status_cat (''Threat: '' @ uint32_to_ipv4_address (ip sid) @ '' - '') (''hostname: '' @ value_string o1 @ '','') =
      Inr (''Threat: '' @ uint32_to_ipv4_address (ip sid) @ '' - hostname: '' @ value_string o1 @ '','')"
    if "dhcp_option_retrieve os DHCP_OPTION_HOST_NAME = Some o1" for o1
    using len length_value_string[of o1] sendable_value_length[OF _ that] assms(1)
    by (subst status_cat_eq) (simp_all add: offer_packet_def union_size_def)
  obtain m' h' where chk: "check_offer (scan_pick env) whitelist x p (zero_message ?r) (h(?r \<mapsto> [])) [] =
      (if ip sid \<in> set whitelist then Inr (False, m', h', [])
       else cbind (log_threat os []) (\<lambda>status. Inr (True, m', h', status)))"
    using check_offer_eq[OF assms(1) wf_zero_message, of "h(?r \<mapsto> [])" ?r "[]" "scan_pick env" whitelist "[]"] white
    by (auto simp: zero_message_def)
  have "status_cat [] ''No threats detected'' = Inr ''No threats detected''" by (simp add: status_cat_def)
  with fires chk cat show ?thesis
    by (intro exI[of _ h']) (auto simp: listen_to_offers_def dhcp_message_new_def heap_new_def assms(3) listen_loop_one
        Let_def log_threat_eq[OF assms(2)] simp del: run_timer.simps listen_loop.simps cbind_eq_Inr split: option.splits)
qed

text \<open>An offer of a server that sends its address and no host name.\<close>

definition rogue_options :: "dhcp_option list" where
  "rogue_options = [message_type_option DHCP_OFFER, word_option 54 0xC0A80002]"

definition rogue_packet :: dhcp_packet where
  "rogue_packet = zero_packet\<lparr>pkt_xid := htonl 7, pkt_cookie := htonl MAGIC_COOKIE,
     pkt_options := encode rogue_options @ 0xff # zeros 326\<rparr>"

lemma rogue_offer: "offer_packet 7 rogue_options rogue_packet"
proof -
  have "dhcp_option_tag_to_type (uint (54 :: u8)) = DHCP_OPTION_IP"
    by (simp add: dhcp_option_tag_to_type_def tag_in_def)
  then have w: "opt_canon (word_option 54 0xC0A80002)" "length (encode_option (word_option 54 0xC0A80002)) = 6"
    by (auto intro!: word_option_canon simp: is_number_type_def)
  then have "sendable rogue_options" "length (encode rogue_options) = 9"
    using opt_canon_message_type[of DHCP_OFFER] encode_message_type[of DHCP_OFFER]
    by (simp_all add: sendable_def rogue_options_def encode_def message_type_option_def)
  then show ?thesis
    by (simp add: offer_packet_def rogue_packet_def wf_packet_def zero_packet_def)
      (simp add: rogue_options_def dhcp_option_retrieve_def message_type_option_def)
qed

definition quiet_host :: "turn list \<Rightarrow> scan_env" where
  "quiet_host turns = \<lparr>scan_pick = (\<lambda>h. if h 0 = None then 0 else 1), scan_socket = True, scan_send = (\<lambda>_. True),
     scan_rand = 7, scan_stack = zeros 6, scan_start = 3, scan_turns = turns\<rparr>"

theorem scan_verdict_witness:
  "listen_to_offers (quiet_host [(4, Some rogue_packet), (13, None)]) [0xC0A80001] [] 7 Map.empty = Inl Null_deref"
proof -
  have "dhcp_option_retrieve rogue_options DHCP_OPTION_SERVER_IDENTIFIER = Some (word_option 54 0xC0A80002)"
    "dhcp_option_retrieve rogue_options DHCP_OPTION_HOST_NAME = None"
    by (simp_all add: rogue_options_def dhcp_option_retrieve_def message_type_option_def)
  moreover have "ip (word_option 54 0xC0A80002) = 0xC0A80002" by simp
  ultimately show ?thesis
    using scan_verdict[OF rogue_offer, of _ "quiet_host [(4, Some rogue_packet), (13, None)]" 4 "[13]" "[0xC0A80001]" Map.empty]
    by (simp add: quiet_host_def elapsed_def)
qed

text \<open>
  The scan broadcasts a DHCPDISCOVER under the given hardware address: whatever buffer
  receives it parses the type, the broadcast flag, the transaction id that the scan then
  waits for, and the six bytes of the address.
\<close>

theorem scan_broadcasts_discover:
  assumes "\<And>p. scan_send env p" "length mac = 6" "uint8_array_to_mac mac = Inr text_mac" "6 \<le> length (scan_stack env)"
    and "wf_message b" "g (dhcp_options b) = Some old"
  shows "\<exists>s' p b' g'. snoop_send_dhcp_discover env s (Some text_mac) buf = Inr (0, scan_rand env, s') \<and>
     xid_used_in_scan s' = scan_rand env \<and> scan_sent s' = scan_sent s @ [(0xffffffff, p)] \<and>
     dhcp_packet_parse pick (b\<lparr>packet := p\<rparr>) g = Inr (0, b', g') \<and> msg_type b' = DHCP_DISCOVER \<and>
     xid b' = scan_rand env \<and> flags b' = 0x8000 \<and> take 6 (chaddr b') = mac \<and>
     g' (dhcp_options b') = Some [message_type_option DHCP_DISCOVER]"
proof -
  let ?r = "scan_pick env (scan_heap s)" and ?os = "[message_type_option DHCP_DISCOVER]"
  let ?d = "(zero_message ?r)\<lparr>opcode := BOOTREQUEST, htype := ETHERNET, hlen := 6, hops := 0,
     xid := scan_rand env, secs := htons 65535, ciaddr := 0, yiaddr := 0, siaddr := 0,
     flags := 32768, giaddr := 0, cookie := MAGIC_COOKIE, msg_type := DHCP_DISCOVER, chaddr := mac @ zeros 12\<rparr>"
  have mac: "mac_to_uint8_array text_mac (scan_stack env) = Inr (mac @ drop 6 (scan_stack env))"
    using mac_text_inverse[of mac "scan_stack env"] assms(2-4) by simp
  have opt: "dhcp_option_new_values 53 1 [ucast (DHCP_DISCOVER :: u32)] = Inr (message_type_option DHCP_DISCOVER)"
    using new_message_type_option[of DHCP_DISCOVER] by simp
  have r: "dhcp_options ?d = ?r" by (simp add: zero_message_def)
  have wf: "wf_message ?d" using wf_zero_message[of ?r] assms(2) by (simp add: wf_message_def zeros_def)
  obtain m where m: "dhcp_packet_build ?d ((scan_heap s)(?r \<mapsto> ?os)) = Inr (0, m)"
    and p: "xid m = scan_rand env" "pkt_xid (packet m) = htonl (scan_rand env)" "pkt_flags (packet m) = htons 32768"
      "pkt_chaddr (packet m) = take 16 (mac @ zeros 12)" "pkt_cookie (packet m) = htonl MAGIC_COOKIE"
      "pkt_options (packet m) = encode ?os @ 0xff # drop (Suc (length (encode ?os))) (pkt_options (packet ?d))" "wf_packet (packet m)"
    using packet_build_eq[OF wf, of "(scan_heap s)(?r \<mapsto> ?os)" ?os] r sendable_message_type[of DHCP_DISCOVER] assms(2) wf
    by (simp add: wf_message_def wf_packet_def zero_message_def zero_packet_def zeros_def sendable_def)
  have "wf_message (b\<lparr>packet := packet m\<rparr>)" using assms(5) p(7) by (simp add: wf_message_def)
  from packet_parse_eq[OF this, of g old ?os _ "message_type_option DHCP_DISCOVER" _ pick] p(5,6) assms(6)
  obtain b' g' where b': "dhcp_packet_parse pick (b\<lparr>packet := packet m\<rparr>) g = Inr (0, b', g')"
     "msg_type b' = DHCP_DISCOVER" "xid b' = scan_rand env" "flags b' = 0x8000" "take 6 (chaddr b') = mac"
     "g' (dhcp_options b') = Some ?os"
    using assms(2) by (auto simp: p(2-4) sendable_message_type dhcp_option_retrieve_def number_message_type)
      (simp add: message_type_option_def)+
  have "snoop_send_dhcp_discover env s (Some text_mac) buf = Inr (0, scan_rand env,
      s\<lparr>scan_heap := (scan_heap s)(?r \<mapsto> ?os), xid_used_in_scan := scan_rand env, scan_sent := scan_sent s @ [(0xffffffff, packet m)]\<rparr>)"
    using assms(1,2) m p(1) r
    by (simp add: snoop_send_dhcp_discover_def dhcp_message_new_def heap_new_def mac memcpy_def opt[simplified] snoop_get_dhcp_options_def
        dhcp_option_add_def dhcp_option_retrieve_def discover_send_def Let_def zeros_def zero_message_def)
  with b' show ?thesis by auto
qed

theorem scan_broadcasts_discover_witness:
  "\<exists>s' p. snoop_send_dhcp_discover (quiet_host []) \<lparr>xid_used_in_scan = 0, scan_heap = Map.empty, scan_sent = []\<rparr>
     (Some ''02:42:ac:11:00:0f'') 0 = Inr (0, 7, s') \<and> scan_sent s' = [(0xffffffff, p)]"
proof -
  have "uint8_array_to_mac [0x02, 0x42, 0xac, 0x11, 0, 0x0f] = Inr ''02:42:ac:11:00:0f''"
    by (simp add: uint8_array_to_mac_def hex2_def digit_char_def) code_simp
  with scan_broadcasts_discover[of "quiet_host []" "[0x02, 0x42, 0xac, 0x11, 0, 0x0f]" "''02:42:ac:11:00:0f''"
      "zero_message 1" "[1 \<mapsto> []]" "[]" "\<lparr>xid_used_in_scan = 0, scan_heap = Map.empty, scan_sent = []\<rparr>" 0 "\<lambda>_. 1"]
    wf_zero_message[of 1]
  show ?thesis by (auto simp: quiet_host_def zeros_def zero_message_def)
qed

end
