(* ===== verification/Commands.thy ===== *)
theory Commands
  imports Lease Snoop
begin

text \<open>
  The control socket (\<open>unix_server.c\<close>), the commands it serves (\<open>commands.c\<close>) and their
  registration (\<open>init.c\<close>). What happens on the socket is a parameter of a call; the model
  keeps what is sent back, how many accepted connections were not closed, and whether the
  server was asked to stop.
\<close>

section \<open>The commands\<close>

datatype command_func = Command_echo | Command_stop | Command_rogue_scan | Command_pool_status

record command_t =
  cmd_name :: string
  cmd_func :: command_func

text \<open>The texts \<open>["..."]\<close>.\<close>

definition json_line :: "string \<Rightarrow> string" where
  "json_line s = ''['' @ [CHR 0x22] @ s @ [CHR 0x22] @ '']''"

text \<open>
  The environment: the cJSON functions and, when the server is built with the snooping
  module, the host on which a scan runs.
\<close>

record 'j ctl_env =
  ctl_json :: "'j cjson"
  ctl_scan :: "scan_env option"

record unix_server =
  commands :: "command_t list"
  open_clients :: nat
  replies :: "string list"
  stop_requested :: bool
  scan :: scan_state

definition command_echo :: "'j ctl_env \<Rightarrow> 'j \<Rightarrow> string" where
  "command_echo env params = cj_unformatted (ctl_json env) params"

definition command_stop :: "unix_server \<Rightarrow> string \<times> unix_server" where
  "command_stop us = (json_line ''Stopping server'', us\<lparr>stop_requested := True\<rparr>)"

text \<open>\<open>strtok\<close>: the non-empty pieces between the separators.\<close>

fun split_on :: "char \<Rightarrow> string \<Rightarrow> string list" where
  "split_on sep [] = [[]]"
| "split_on sep (c # cs) =
     (if c = sep then [] # split_on sep cs
      else case split_on sep cs of [] \<Rightarrow> [[c]] | p # ps \<Rightarrow> (c # p) # ps)"

definition tokens :: "char \<Rightarrow> string \<Rightarrow> string list" where
  "tokens sep s = filter (\<lambda>p. p \<noteq> []) (split_on sep s)"

fun whitelist_of :: "'j cjson \<Rightarrow> 'j list \<Rightarrow> u32 list c" where
  "whitelist_of api [] = Inr []"
| "whitelist_of api (e # es) =
     (case cj_string api e of None \<Rightarrow> Inl Null_deref
      | Some s \<Rightarrow> cbind (whitelist_of api es) (\<lambda>ws. Inr (ipv4_address_to_uint32 s # ws)))"

text \<open>The variable \<open>mac\<close> is only set by the first parameter.\<close>

definition command_rogue_scan :: "'j ctl_env \<Rightarrow> 'j \<Rightarrow> unix_server \<Rightarrow> (string \<times> unix_server) c" where
  "command_rogue_scan env params us =
     (let api = ctl_json env in
      case ctl_scan env of
        None \<Rightarrow> Inr (json_line ''DHCP snooping is not supported. Please read the manual.'', us)
      | Some host \<Rightarrow>
          (case cj_items api params of
             [] \<Rightarrow> Inl Uninitialised
           | mac # es \<Rightarrow>
               cbind (whitelist_of api es) (\<lambda>ll.
               cbind (dhcp_snooper_perform_scan host (scan us) (cj_string api mac) ll) (\<lambda>(rv, res, s).
                 let us = us\<lparr>scan := s\<rparr> in
                 if rv < 0 then Inr (json_line ''Error'', us)
                 else Inr (cj_unformatted api (cj_array api (map (cj_of_string api) (tokens (CHR '','') res))), us)))))"

text \<open>\<open>snprintf\<close> into \<open>BUFSIZ\<close> characters.\<close>

definition pool_line :: "address_pool \<Rightarrow> string" where
  "pool_line p = take 8191 (pool_name p @ '' ('' @ uint32_to_ipv4_address (start_address p) @ '' to '' @
     uint32_to_ipv4_address (end_address p) @ ''): '' @ dec (unat (available_addresses p)) @ '' available leases'')"

definition command_pool_status :: "'j ctl_env \<Rightarrow> allocator \<Rightarrow> string" where
  "command_pool_status env a =
     (let api = ctl_json env in
      cj_unformatted api (cj_array api (map (\<lambda>p. cj_of_string api (pool_line p)) (address_pools a))))"

definition call_command ::
    "'j ctl_env \<Rightarrow> allocator \<Rightarrow> command_func \<Rightarrow> 'j \<Rightarrow> unix_server \<Rightarrow> (string \<times> unix_server) c" where
  "call_command env a f params us =
     (case f of
        Command_echo \<Rightarrow> Inr (command_echo env params, us)
      | Command_stop \<Rightarrow> Inr (command_stop us)
      | Command_rogue_scan \<Rightarrow> command_rogue_scan env params us
      | Command_pool_status \<Rightarrow> Inr (command_pool_status env a, us))"

section \<open>Registration\<close>

definition register_command :: "unix_server \<Rightarrow> string \<Rightarrow> command_func \<Rightarrow> int \<times> unix_server" where
  "register_command us name f = (0, us\<lparr>commands := commands us @ [\<lparr>cmd_name = name, cmd_func = f\<rparr>]\<rparr>)"

fun register_all :: "(string \<times> command_func) list \<Rightarrow> unix_server \<Rightarrow> int \<times> unix_server" where
  "register_all [] us = (0, us)"
| "register_all ((name, f) # cs) us =
     (case register_command us name f of (rv, us) \<Rightarrow> if rv \<noteq> 0 then (-1, us) else register_all cs us)"

definition init_unix_commands :: "unix_server \<Rightarrow> int \<times> unix_server" where
  "init_unix_commands us = register_all [(''echo'', Command_echo), (''stop-server'', Command_stop),
     (''rogue-scan'', Command_rogue_scan), (''pool-status'', Command_pool_status)] (us\<lparr>commands := []\<rparr>)"

section \<open>A request\<close>

text \<open>\<open>None\<close> is the response NULL.\<close>

definition handle_command ::
    "'j ctl_env \<Rightarrow> allocator \<Rightarrow> 'j \<Rightarrow> unix_server \<Rightarrow> (string option \<times> unix_server) c" where
  "handle_command env a json us =
     (let api = ctl_json env in
      case Option.bind (cj_get api json ''command'') (cj_string api) of
        None \<Rightarrow> Inr (None, us)
      | Some command \<Rightarrow>
          (case cj_get api json ''parameters'' of
             None \<Rightarrow> Inr (None, us)
           | Some params \<Rightarrow>
               (case List.find (\<lambda>cmd. cmd_name cmd = command) (commands us) of
                  None \<Rightarrow> Inr (Some (json_line ''ERROR: Unknown command''), us)
                | Some cmd \<Rightarrow> cbind (call_command env a (cmd_func cmd) params us) (\<lambda>(r, us). Inr (Some r, us)))))"

text \<open>
  What the socket does: no client waits, \<open>accept\<close> fails, or a client is there; then \<open>recv\<close>
  fails (\<open>None\<close>) or returns bytes, and \<open>send\<close> works or not.
\<close>

datatype client = No_client | Accept_fails | Client "string option" bool

abbreviation (input) UNIX_STATUS_ERROR :: int where "UNIX_STATUS_ERROR \<equiv> -1"
abbreviation (input) UNIX_STATUS_OK :: int where "UNIX_STATUS_OK \<equiv> 0"

text \<open>
  The label \<open>error_respond\<close>: \<open>bytes\<close> bytes of a literal that has ten; the connection stays
  open.
\<close>

definition error_respond :: "nat \<Rightarrow> bool \<Rightarrow> unix_server \<Rightarrow> (int \<times> unix_server) c" where
  "error_respond bytes can_send us =
     (if length (json_line ''ERROR'') + 1 < bytes then Inl Out_of_bounds
      else Inr (UNIX_STATUS_OK,
        if can_send then us\<lparr>replies := replies us @ [take bytes (json_line ''ERROR'' @ [CHR 0x00])]\<rparr> else us))"

definition unix_server_handle ::
    "'j ctl_env \<Rightarrow> client \<Rightarrow> allocator \<Rightarrow> unix_server \<Rightarrow> (int \<times> unix_server) c" where
  "unix_server_handle env cl a us =
     (case cl of
        No_client \<Rightarrow> Inr (UNIX_STATUS_OK, us)
      | Accept_fails \<Rightarrow> Inr (-1, us)
      | Client received can_send \<Rightarrow>
          let us = us\<lparr>open_clients := open_clients us + 1\<rparr> in
          case received of
            None \<Rightarrow> Inr (UNIX_STATUS_ERROR, us)
          | Some buffer \<Rightarrow>
              let bytes = length buffer; request = takeWhile (\<lambda>c. c \<noteq> CHR 0x00) buffer in
              if 8192 \<le> length request then Inl Out_of_bounds
              else case cj_parse (ctl_json env) request of
                None \<Rightarrow> error_respond bytes can_send us
              | Some json \<Rightarrow>
                  cbind (handle_command env a json us) (\<lambda>(response, us).
                    case response of
                      None \<Rightarrow> error_respond bytes can_send us
                    | Some r \<Rightarrow>
                        if \<not> can_send then Inr (UNIX_STATUS_ERROR, us)
                        else Inr (UNIX_STATUS_OK, us\<lparr>replies := replies us @ [r], open_clients := open_clients us - 1\<rparr>)))"

section \<open>Lemmas\<close>

text \<open>
  What the commands rely on of cJSON: printing without format is inverted by parsing, an
  array has the elements put into it, strings are kept.
\<close>

definition cjson_prints :: "'j cjson \<Rightarrow> bool" where
  "cjson_prints api \<longleftrightarrow> (\<forall>j. cj_parse api (cj_unformatted api j) = Some j) \<and>
     (\<forall>js. cj_items api (cj_array api js) = js) \<and> (\<forall>s. cj_string api (cj_of_string api s) = Some s)"

lemma plain_json_prints: "cjson_prints plain_json"
  using read_write[of _ "[]"] by (simp add: cjson_prints_def plain_json_def del: write_list.simps)

definition idle_unix_server :: unix_server where
  "idle_unix_server = \<lparr>commands = [], open_clients = 0, replies = [], stop_requested = False,
     scan = \<lparr>xid_used_in_scan = 0, scan_heap = Map.empty, scan_sent = []\<rparr>\<rparr>"

lemma init_find:
  assumes "init_unix_commands us0 = (0, us)"
  shows "List.find (\<lambda>cmd. cmd_name cmd = ''echo'') (commands us) = Some \<lparr>cmd_name = ''echo'', cmd_func = Command_echo\<rparr>"
    "List.find (\<lambda>cmd. cmd_name cmd = ''pool-status'') (commands us) = Some \<lparr>cmd_name = ''pool-status'', cmd_func = Command_pool_status\<rparr>"
  using assms by (auto simp: init_unix_commands_def register_command_def)

lemma pool_lines:
  assumes "wf_allocator a"
  shows "map pool_line (address_pools a) =
      map (\<lambda>p. take 8191 (pool_name p @ '' ('' @ uint32_to_ipv4_address (start_address p) @ '' to '' @
         uint32_to_ipv4_address (end_address p) @ ''): '' @ dec (card (pool_dom p - pool_used p)) @ '' available leases''))
         (address_pools a)"
proof -
  have "unat (available_addresses p) = card (pool_dom p - pool_used p)" if "p \<in> set (address_pools a)" for p
    using assms that by (simp add: wf_allocator_def wf_pool_def)
  then show ?thesis by (simp add: pool_line_def)
qed

text \<open>A request for a command that only computes an answer.\<close>

lemma request_answered:
  assumes "cj_parse (ctl_json env) request = Some json" "CHR 0x00 \<notin> set request" "length request < 8192"
    and "cj_get (ctl_json env) json ''command'' = Some c" "cj_string (ctl_json env) c = Some name"
    and "cj_get (ctl_json env) json ''parameters'' = Some params"
    and "List.find (\<lambda>cmd. cmd_name cmd = name) (commands us) = Some cmd" "\<And>us. call_command env a (cmd_func cmd) params us = Inr (r, us)"
  shows "unix_server_handle env (Client (Some request) True) a us = Inr (UNIX_STATUS_OK, us\<lparr>replies := replies us @ [r]\<rparr>)"
proof -
  have req: "takeWhile (\<lambda>c. c \<noteq> CHR 0x00) request = request"
    using assms(2) by (auto simp: takeWhile_eq_all_conv)
  define us1 where "us1 = us\<lparr>open_clients := open_clients us + 1\<rparr>"
  have "handle_command env a json us1 = Inr (Some r, us1)"
    using assms(4-8) by (simp add: handle_command_def us1_def)
  then show ?thesis
    unfolding unix_server_handle_def Let_def client.case option.case req us1_def[symmetric]
    using assms(1,3) by simp (simp add: us1_def)
qed

section \<open>Properties\<close>

text \<open>
  The request \<open>pool-status\<close> on the started control socket is answered by an array with one
  line per pool, in order; the number in the line is the number of addresses of the pool that
  are not in use. The connection is closed again.
\<close>

theorem pool_status_reports_free:
  assumes "cjson_prints (ctl_json env)" "wf_allocator a" "init_unix_commands us0 = (0, us)"
    and "cj_parse (ctl_json env) request = Some json" "CHR 0x00 \<notin> set request" "length request < 8192"
    and "cj_get (ctl_json env) json ''command'' = Some c" "cj_string (ctl_json env) c = Some ''pool-status''"
    and "cj_get (ctl_json env) json ''parameters'' = Some params"
  shows "\<exists>r us' j. unix_server_handle env (Client (Some request) True) a us = Inr (UNIX_STATUS_OK, us') \<and>
     replies us' = replies us @ [r] \<and> open_clients us' = open_clients us \<and>
     cj_parse (ctl_json env) r = Some j \<and>
     map (cj_string (ctl_json env)) (cj_items (ctl_json env) j) =
       map (\<lambda>p. Some (take 8191 (pool_name p @ '' ('' @ uint32_to_ipv4_address (start_address p) @ '' to '' @
         uint32_to_ipv4_address (end_address p) @ ''): '' @ dec (card (pool_dom p - pool_used p)) @ '' available leases'')))
         (address_pools a)"
proof -
  have "unix_server_handle env (Client (Some request) True) a us =
      Inr (UNIX_STATUS_OK, us\<lparr>replies := replies us @ [command_pool_status env a]\<rparr>)"
    by (rule request_answered[OF assms(4-9) init_find(2)[OF assms(3)]]) (simp add: call_command_def)
  with assms(1) pool_lines[OF assms(2)] show ?thesis
    by (auto simp: command_pool_status_def cjson_prints_def Let_def comp_def intro!: exI)
qed

theorem pool_status_reports_free_witness:
  "\<exists>r us'. unix_server_handle \<lparr>ctl_json = plain_json, ctl_scan = None\<rparr> (Client (Some (cj_print plain_json
       (cj_object plain_json [(''command'', ''pool-status''), (''parameters'', [])]))) True) lan_allocator
       (snd (init_unix_commands idle_unix_server)) = Inr (UNIX_STATUS_OK, us') \<and> replies us' = [r]"
proof -
  let ?req = "cj_print plain_json (cj_object plain_json [(''command'', ''pool-status''), (''parameters'', [])])"
  have "CHR 0x00 \<notin> set ?req" "length ?req < 8192" by (simp_all add: plain_json_def)
  moreover have "init_unix_commands idle_unix_server = (0, snd (init_unix_commands idle_unix_server))"
    "replies (snd (init_unix_commands idle_unix_server)) = []"
    by (simp_all add: init_unix_commands_def register_command_def idle_unix_server_def)
  ultimately show ?thesis
    using pool_status_reports_free[of "\<lparr>ctl_json = plain_json, ctl_scan = None\<rparr>" lan_allocator idle_unix_server
        "snd (init_unix_commands idle_unix_server)" ?req _ "''pool-status''" "[]"] plain_json_prints lan_allocator_wf(1)
    by auto
qed

text \<open>
  A request that is not valid JSON, or names no command or no parameters, is answered with as
  many bytes of a ten byte literal as the request had: one of more than ten bytes reads beyond
  the literal. A shorter one is answered, but its connection is never closed.
\<close>

theorem bad_request_response:
  assumes "cj_parse (ctl_json env) request = None \<or> (\<exists>j. cj_parse (ctl_json env) request = Some j \<and>
      (cj_get (ctl_json env) j ''command'' = None \<or> cj_get (ctl_json env) j ''parameters'' = None))"
    and "CHR 0x00 \<notin> set request" "length request < 8192"
  shows "unix_server_handle env (Client (Some request) True) a us =
     (if 10 < length request then Inl Out_of_bounds
      else Inr (UNIX_STATUS_OK, us\<lparr>open_clients := open_clients us + 1,
        replies := replies us @ [take (length request) (json_line ''ERROR'' @ [CHR 0x00])]\<rparr>))"
proof -
  have req: "takeWhile (\<lambda>c. c \<noteq> CHR 0x00) request = request"
    using assms(2) by (auto simp: takeWhile_eq_all_conv)
  have "handle_command env a j us1 = Inr (None, us1)"
    if "cj_get (ctl_json env) j ''command'' = None \<or> cj_get (ctl_json env) j ''parameters'' = None" for j us1
    using that by (auto simp: handle_command_def Let_def split: option.splits)
  with assms(1,3) show ?thesis
    unfolding unix_server_handle_def Let_def client.case option.case req
    by (auto simp: error_respond_def json_line_def)
qed

theorem bad_request_response_witness:
  "unix_server_handle \<lparr>ctl_json = plain_json, ctl_scan = None\<rparr> (Client (Some ''{{{{{{{{{{{{'') True) lan_allocator idle_unix_server =
     Inl Out_of_bounds"
proof -
  have "cj_parse plain_json ''{{{{{{{{{{{{'' = None" by (simp add: plain_json_def)
  with bad_request_response[of "\<lparr>ctl_json = plain_json, ctl_scan = None\<rparr>" "''{{{{{{{{{{{{''" lan_allocator idle_unix_server]
  show ?thesis by simp
qed

end
