(* ===== verification/Server.thy ===== *)
theory Server
  imports Dialogue Commands
begin

text \<open>
  The server loop (\<open>dhcp_server.c\<close>): the timers of the transactions and of the leases, and
  what happens with a received packet and with a request on the control socket. The receive
  buffer is one message that is parsed over and over again.
\<close>

section \<open>Expired leases\<close>

text \<open>\<open>for (a = start; a < end; a++)\<close>.\<close>

definition checked_addresses :: "address_pool \<Rightarrow> u32 list" where
  "checked_addresses pool = map word_of_nat [unat (start_address pool)..<unat (end_address pool)]"

text \<open>The loop of \<open>check_lease\<close>; \<open>l\<close> is its local \<open>lease\<close>, \<open>n\<close> the count of released leases.\<close>

fun check_lease_loop ::
    "'j env \<Rightarrow> u32 \<Rightarrow> string \<Rightarrow> u32 list \<Rightarrow> lease \<Rightarrow> int \<Rightarrow> dhcp_server \<Rightarrow> (int \<times> dhcp_server) c" where
  "check_lease_loop env current_time pool [] l n srv = Inr (n, srv)"
| "check_lease_loop env current_time pool (a # as) l n srv =
     cbind (allocator_is_address_available (srv_allocator srv) a) (\<lambda>available.
       if available then check_lease_loop env current_time pool as l n srv
       else cbind (lease_retrieve (env_json env) (env_open env) (srv_files srv) l a (Some pool)) (\<lambda>(rv, l, fs).
         let srv = srv\<lparr>srv_files := fs\<rparr> in
         if rv < 0 then check_lease_loop env current_time pool as l n srv
         else if lease_expire l > current_time then check_lease_loop env current_time pool as l n srv
         else cbind (lease_remove (env_json env) (env_open env) (srv_files srv) l) (\<lambda>(rv, fs).
           let srv = srv\<lparr>srv_files := fs\<rparr> in
           if rv < 0 then check_lease_loop env current_time pool as l n srv
           else cbind (allocator_release_address (srv_allocator srv) a) (\<lambda>(_, al).
             check_lease_loop env current_time pool as l (n + 1) (srv\<lparr>srv_allocator := al\<rparr>)))))"

text \<open>The local lease is not initialised: \<open>l0\<close> stands for what is in it.\<close>

definition check_lease ::
    "'j env \<Rightarrow> u32 \<Rightarrow> lease \<Rightarrow> address_pool \<Rightarrow> dhcp_server \<Rightarrow> (int \<times> dhcp_server) c" where
  "check_lease env current_time l0 pool srv =
     check_lease_loop env current_time (pool_name pool) (checked_addresses pool) l0 0 srv"

fun check_pools :: "'j env \<Rightarrow> u32 \<Rightarrow> lease \<Rightarrow> address_pool list \<Rightarrow> int \<Rightarrow> dhcp_server \<Rightarrow> (int \<times> dhcp_server) c" where
  "check_pools env check_time l0 [] n srv = Inr (n, srv)"
| "check_pools env check_time l0 (pool # pools) n srv =
     cbind (check_lease env check_time l0 pool srv) (\<lambda>(k, srv). check_pools env check_time l0 pools (n + k) srv)"

definition check_lease_expirations :: "'j env \<Rightarrow> u32 \<Rightarrow> lease \<Rightarrow> dhcp_server \<Rightarrow> (int \<times> dhcp_server) c" where
  "check_lease_expirations env check_time l0 srv =
     check_pools env check_time l0 (address_pools (srv_allocator srv)) 0 srv"

definition init_dhcp_server_timers :: "'j env \<Rightarrow> u32 \<Rightarrow> dhcp_server \<Rightarrow> int \<times> dhcp_server" where
  "init_dhcp_server_timers env period srv =
     (0, srv\<lparr>lease_expiration_check :=
           timer_new (env_now env) TIMER_REPEAT period True (Some Check_lease_expirations)\<rparr>)"

section \<open>The timers\<close>

fun update_trans_timers :: "'j env \<Rightarrow> nat list \<Rightarrow> dhcp_server \<Rightarrow> dhcp_server c" where
  "update_trans_timers env [] srv = Inr srv"
| "update_trans_timers env (i # is) srv =
     cbind (array_get (trans_cache srv) i) (\<lambda>tr.
       if is_running (trans_timer tr)
       then cbind (trans_update_timer (env_now env) (trans_cache srv) i (srv_allocator srv)) (\<lambda>(_, cache, a).
              update_trans_timers env is (srv\<lparr>trans_cache := cache, srv_allocator := a\<rparr>))
       else update_trans_timers env is srv)"

definition update_timers :: "'j env \<Rightarrow> lease \<Rightarrow> dhcp_server \<Rightarrow> dhcp_server c" where
  "update_timers env l0 srv =
     cbind (update_trans_timers env [0..<length (trans_cache srv)] srv) (\<lambda>srv.
       case timer_update (env_now env) (lease_expiration_check srv) of
         (Returns _, t) \<Rightarrow> Inr (srv\<lparr>lease_expiration_check := t\<rparr>)
       | (Calls _ check_time, t) \<Rightarrow>
           cbind (check_lease_expirations env check_time l0 (srv\<lparr>lease_expiration_check := t\<rparr>))
             (\<lambda>(_, srv). Inr srv))"

section \<open>A received packet\<close>

definition dispatch :: "'j env \<Rightarrow> dhcp_server \<Rightarrow> dhcp_message \<Rightarrow> (int \<times> dhcp_server) c" where
  "dispatch env srv m =
     (if msg_type m = DHCP_DISCOVER then message_dhcpdiscover_handle env srv m
      else if msg_type m = DHCP_REQUEST then message_dhcprequest_handle env srv m
      else if msg_type m = DHCP_DECLINE then message_dhcpdecline_handle env srv m
      else if msg_type m = DHCP_INFORM then message_dhcpinform_handle env srv m
      else if msg_type m = DHCP_RELEASE then message_dhcprelease_handle env srv m
      else Inr (0, srv))"

text \<open>
  The body of the loop of \<open>dhcp_server_serve\<close> after \<open>recv\<close> put \<open>p\<close> into the buffer. The
  result is the buffer and the state with which the loop goes on. \<open>snoop\<close> is the state of the
  rogue server scan in the build that has it: the server does not answer its own scan.
\<close>

definition serve_packet ::
    "'j env \<Rightarrow> scan_state option \<Rightarrow> dhcp_packet \<Rightarrow> dhcp_message \<Rightarrow> dhcp_server \<Rightarrow>
     (dhcp_message \<times> dhcp_server) c" where
  "serve_packet env snoop p buf srv =
     cbind (dhcp_packet_parse (env_pick env) (buf\<lparr>packet := p\<rparr>) (srv_heap srv)) (\<lambda>(rv, m, h).
       let srv = srv\<lparr>srv_heap := h\<rparr> in
       if rv < 0 then Inr (m, srv)
       else if (case snoop of None \<Rightarrow> False | Some s \<Rightarrow> dhcp_snooper_check_xid s (xid m)) then Inr (m, srv)
       else cbind (ACL_check_client (srv_acl srv) (chaddr m)) (\<lambda>acl.
         if acl \<noteq> ACL_ALLOW then Inr (m, srv)
         else cbind (dynamic_ACL_check (srv_dacl srv) (chaddr m) (trans_cache srv)) (\<lambda>(acl, dacl).
           let srv = srv\<lparr>srv_dacl := dacl\<rparr> in
           if acl \<noteq> ACL_ALLOW then Inr (m, srv)
           else if msg_type m = DHCP_OFFER \<or> msg_type m = DHCP_ACK \<or> msg_type m = DHCP_NAK then Inr (m, srv)
           else (case trans_cache_add_message (env_now env) (trans_cache srv) m of
                   (rv, cache, m) \<Rightarrow>
                     let srv = srv\<lparr>trans_cache := cache\<rparr> in
                     if rv < 0 then Inr (m, srv)
                     else cbind (store_database env srv m) (\<lambda>srv.
                       cbind (dispatch env srv m) (\<lambda>(_, srv). Inr (m, srv)))))))"

section \<open>The loop\<close>

text \<open>
  What the outside does during one turn of the loop: clock, heap, socket and files
  (\<open>cyc_env\<close>), the host of a scan (\<open>cyc_scan\<close>, present in the build with the snooping module),
  the uninitialised lease of the lease check, the client on the control socket and the packet
  \<open>recv\<close> returns, if any.
\<close>

record 'j cycle =
  cyc_env :: "'j env"
  cyc_scan :: "scan_env option"
  cyc_lease :: lease
  cyc_client :: client
  cyc_packet :: "dhcp_packet option"

type_synonym serving = "dhcp_message \<times> dhcp_server \<times> unix_server"

definition ctl_of :: "'j cycle \<Rightarrow> 'j ctl_env" where
  "ctl_of cy = \<lparr>ctl_json = env_json (cyc_env cy), ctl_scan = cyc_scan cy\<rparr>"

definition snoop_of :: "'j cycle \<Rightarrow> unix_server \<Rightarrow> scan_state option" where
  "snoop_of cy us = (if cyc_scan cy = None then None else Some (scan us))"

definition serve_turn :: "'j cycle \<Rightarrow> serving \<Rightarrow> serving c" where
  "serve_turn cy = (\<lambda>(buf, srv, us).
     cbind (update_timers (cyc_env cy) (cyc_lease cy) srv) (\<lambda>srv.
     cbind (unix_server_handle (ctl_of cy) (cyc_client cy) (srv_allocator srv) us) (\<lambda>(_, us).
       case cyc_packet cy of
         None \<Rightarrow> Inr (buf, srv, us)
       | Some p \<Rightarrow> cbind (serve_packet (cyc_env cy) (snoop_of cy us) p buf srv) (\<lambda>(buf, srv). Inr (buf, srv, us)))))"

text \<open>
  The loop over the turns the outside gives it: \<open>True\<close> when it ended because the server was
  asked to stop, \<open>False\<close> when it is still running after the last turn.
\<close>

fun serve_loop :: "'j cycle list \<Rightarrow> serving \<Rightarrow> (bool \<times> serving) c" where
  "serve_loop [] s = Inr (False, s)"
| "serve_loop (cy # cycles) s =
     cbind (serve_turn cy s) (\<lambda>s. if stop_requested (snd (snd s)) then Inr (True, s) else serve_loop cycles s)"

definition dhcp_server_serve ::
    "(heap \<Rightarrow> ref) \<Rightarrow> 'j cycle list \<Rightarrow> dhcp_server \<Rightarrow> unix_server \<Rightarrow> (bool \<times> serving) c" where
  "dhcp_server_serve pick cycles srv us =
     (case dhcp_message_new pick (srv_heap srv) of (buf, h) \<Rightarrow> serve_loop cycles (buf, srv\<lparr>srv_heap := h\<rparr>, us))"

section \<open>Lemmas: the timers\<close>

text \<open>A step that only gives addresses back.\<close>

definition shrinks :: "dhcp_server \<Rightarrow> dhcp_server \<Rightarrow> bool" where
  "shrinks srv srv' \<longleftrightarrow> wf_server srv' \<and> same_config (srv_allocator srv) (srv_allocator srv') \<and>
     alloc_used (srv_allocator srv') \<subseteq> alloc_used (srv_allocator srv) \<and>
     lease_acks (trans_cache srv') \<subseteq> lease_acks (trans_cache srv)"

lemma shrinks_trans: "shrinks a b \<Longrightarrow> shrinks b c \<Longrightarrow> shrinks a c"
  by (auto simp: shrinks_def intro: same_config_trans)

lemma shrinks_refl: "wf_server srv \<Longrightarrow> shrinks srv srv"
  by (simp add: shrinks_def)

lemma shrinks_files: "wf_server srv \<Longrightarrow> shrinks srv (srv\<lparr>srv_files := fs\<rparr>)"
  by (simp add: shrinks_def wf_server_def)

lemma trans_update_timer_shrinks:
  assumes wf: "wf_server srv" and i: "i < length (trans_cache srv)"
  shows "\<exists>rv cache a. trans_update_timer now (trans_cache srv) i (srv_allocator srv) = Inr (rv, cache, a) \<and>
     length cache = length (trans_cache srv) \<and> shrinks srv (srv\<lparr>trans_cache := cache, srv_allocator := a\<rparr>)"
proof -
  let ?c = "trans_cache srv" and ?a = "srv_allocator srv"
  have wfc: "wf_cache ?c" "wf_allocator ?a" using wf by (simp_all add: wf_server_def)
  obtain rv cache a where t: "trans_update_timer now ?c i ?a = Inr (rv, cache, a)" "wf_cache cache" "wf_allocator a"
    "alloc_used a \<subseteq> alloc_used ?a"
    using timer_step[OF wfc i, of now] by (auto split: if_splits)
  note cfg = update_timer_effect(1)[OF i t(1)]
  obtain tr where tr: "cache = ?c[i := tr]" "set (messages_ll tr) \<subseteq> set (messages_ll (?c ! i))"
    using update_timer_effect(2)[OF i t(1)] by blast
  have "lease_acks cache \<subseteq> lease_acks ?c"
    unfolding tr(1) using tr(2) nth_mem[OF i] by (intro lease_acks_upd) (auto simp: lease_acks_def)
  moreover have "length cache = length ?c" by (simp add: tr(1))
  ultimately show ?thesis using t cfg wf same_config_facts(1,3)[OF cfg] by (simp add: shrinks_def wf_server_def)
qed

lemma update_trans_timers_shrinks:
  "wf_server srv \<Longrightarrow> \<forall>i \<in> set is. i < length (trans_cache srv) \<Longrightarrow>
   \<exists>srv'. update_trans_timers env is srv = Inr srv' \<and> shrinks srv srv'"
proof (induction "is" arbitrary: srv)
  case (Cons i "is")
  show ?case
  proof (cases "is_running (trans_timer (trans_cache srv ! i))")
    case True
    have i: "i < length (trans_cache srv)" using Cons.prems(2) by simp
    obtain rv cache a where t: "trans_update_timer (env_now env) (trans_cache srv) i (srv_allocator srv) = Inr (rv, cache, a)"
      "length cache = length (trans_cache srv)" "shrinks srv (srv\<lparr>trans_cache := cache, srv_allocator := a\<rparr>)"
      using trans_update_timer_shrinks[OF Cons.prems(1) i] by blast
    let ?s = "srv\<lparr>trans_cache := cache, srv_allocator := a\<rparr>"
    have "wf_server ?s" using t(3) by (simp add: shrinks_def)
    then obtain srv' where "update_trans_timers env is ?s = Inr srv'" "shrinks ?s srv'"
      using Cons.IH[of ?s] Cons.prems(2) t(2) by auto
    with True i t shrinks_trans[OF t(3)] show ?thesis by auto
  next
    case False
    with Cons show ?thesis by simp
  qed
qed (simp add: shrinks_refl)

section \<open>Lemmas: expired leases\<close>

lemma release_shrinks:
  assumes wf: "wf_server srv" and r: "allocator_release_address (srv_allocator srv) x = Inr (rv, a)"
  shows "shrinks srv (srv\<lparr>srv_allocator := a\<rparr>)" "alloc_used a = alloc_used (srv_allocator srv) - {x}"
proof -
  have wfa: "wf_allocator (srv_allocator srv)" using wf by (simp add: wf_server_def)
  show u: "alloc_used a = alloc_used (srv_allocator srv) - {x}" using release_used[OF wfa, of x] r by auto
  have "wf_allocator a" using release_used[OF wfa, of x] r by auto
  with u wf release_same_config[OF r] same_config_facts(1,3)[OF release_same_config[OF r]]
  show "shrinks srv (srv\<lparr>srv_allocator := a\<rparr>)" by (auto simp: shrinks_def wf_server_def)
qed

lemma check_lease_loop_shrinks:
  assumes "wf_server srv" "check_lease_loop env t pool as l n srv = Inr (k, srv')"
  shows "shrinks srv srv' \<and> alloc_used (srv_allocator srv) - alloc_used (srv_allocator srv') \<subseteq> set as"
  using assms
proof (induction as arbitrary: l n srv)
  case (Cons a as)
  let ?ok = "\<lambda>s. shrinks s srv' \<and> alloc_used (srv_allocator s) - alloc_used (srv_allocator srv') \<subseteq> set as"
  have keep: "shrinks srv srv' \<and> alloc_used (srv_allocator srv) - alloc_used (srv_allocator srv') \<subseteq> set (a # as)"
    if "shrinks srv s" "alloc_used (srv_allocator srv) - {a} \<subseteq> alloc_used (srv_allocator s)" "?ok s" for s
    using that shrinks_trans[of srv s srv'] by auto
  have IH: "?ok s" if "wf_server s" "check_lease_loop env t pool as l1 n1 s = Inr (k, srv')" for s l1 n1
    using Cons.IH that by blast
  have wff: "wf_server (srv\<lparr>srv_files := fs\<rparr>)" for fs using Cons.prems(1) by (simp add: wf_server_def)
  have skip: ?case if "check_lease_loop env t pool as l1 n1 (srv\<lparr>srv_files := fs\<rparr>) = Inr (k, srv')" for fs l1 n1
    using keep[OF shrinks_files[OF Cons.prems(1), of fs]] IH[OF wff that] by auto
  have rel: ?case
    if "allocator_release_address (srv_allocator srv) a = Inr (r, al)"
      "check_lease_loop env t pool as l1 n1 (srv\<lparr>srv_files := fs, srv_allocator := al\<rparr>) = Inr (k, srv')" for r al fs l1 n1
  proof -
    note sh = release_shrinks[OF wff[of fs], simplified, OF that(1)]
    have sh1: "shrinks srv (srv\<lparr>srv_files := fs, srv_allocator := al\<rparr>)"
      using shrinks_trans[OF shrinks_files[OF Cons.prems(1), of fs] sh(1)] .
    then have "wf_server (srv\<lparr>srv_files := fs, srv_allocator := al\<rparr>)" by (simp add: shrinks_def)
    from keep[OF sh1 _ IH[OF this that(2)]] sh(2) show ?thesis by simp
  qed
  define G where "G \<longleftrightarrow> ?case"
  note sk = skip[folded G_def] and rl = rel[folded G_def]
  have same: "check_lease_loop env t pool as l n srv = Inr (k, srv') \<Longrightarrow> G"
    using sk[of l n "srv_files srv"] by simp
  from Cons.prems(2) have G
    unfolding check_lease_loop.simps Let_def split_def
    by (elim cbindE if_cases) (auto intro: sk rl same)
  then show ?case by (simp only: G_def)
qed (simp add: shrinks_refl)

lemma check_pools_shrinks:
  assumes "wf_server srv" "check_pools env t l0 pools n srv = Inr (k, srv')"
  shows "shrinks srv srv'"
  using assms
proof (induction pools arbitrary: n srv)
  case (Cons pool pools)
  then obtain k1 s where s: "check_lease env t l0 pool srv = Inr (k1, s)" "check_pools env t l0 pools (n + k1) s = Inr (k, srv')"
    by auto
  then have "shrinks srv s"
    using check_lease_loop_shrinks[OF Cons.prems(1), of env t "pool_name pool" "checked_addresses pool" l0 0 k1 s]
    by (simp add: check_lease_def)
  moreover from this have "shrinks s srv'" using Cons.IH[OF _ s(2)] by (simp add: shrinks_def)
  ultimately show ?case by (rule shrinks_trans)
qed (simp add: shrinks_refl)

lemma update_timers_shrinks:
  assumes "wf_server srv" "update_timers env l0 srv = Inr srv'"
  shows "shrinks srv srv'"
proof -
  obtain s where s: "update_trans_timers env [0..<length (trans_cache srv)] srv = Inr s" "shrinks srv s"
    using update_trans_timers_shrinks[OF assms(1), of "[0..<length (trans_cache srv)]" env] by auto
  obtain r t where t: "timer_update (env_now env) (lease_expiration_check s) = (r, t)" by fastforce
  let ?s = "s\<lparr>lease_expiration_check := t\<rparr>"
  have st: "shrinks s ?s" using s(2) by (simp add: shrinks_def wf_server_def)
  then have wf: "wf_server ?s" by (simp add: shrinks_def)
  have "shrinks ?s srv'"
  proof (cases r)
    case (Returns rv)
    with assms(2) s(1) t shrinks_refl[OF wf] show ?thesis by (simp add: update_timers_def)
  next
    case (Calls c now)
    with assms(2) s(1) t obtain k where "check_lease_expirations env now l0 ?s = Inr (k, srv')"
      by (auto simp: update_timers_def)
    then show ?thesis using check_pools_shrinks[OF wf] by (simp add: check_lease_expirations_def)
  qed
  then show ?thesis using s(2) st shrinks_trans by blast
qed

section \<open>Lemmas: a received packet\<close>

text \<open>What every step of the server keeps.\<close>

definition keeps :: "dhcp_server \<Rightarrow> dhcp_server \<Rightarrow> bool" where
  "keeps srv srv' \<longleftrightarrow> wf_server srv' \<and> same_config (srv_allocator srv) (srv_allocator srv') \<and>
     lease_acks (trans_cache srv') \<subseteq> lease_acks (trans_cache srv)"

lemma keeps_trans: "keeps a b \<Longrightarrow> keeps b c \<Longrightarrow> keeps a c"
  by (auto simp: keeps_def intro: same_config_trans)

lemma shrinks_keeps: "shrinks srv srv' \<Longrightarrow> keeps srv srv'"
  by (simp add: shrinks_def keeps_def)

lemma quiet_keeps: "wf_server srv \<Longrightarrow> quiet srv srv' \<Longrightarrow> keeps srv srv'"
  by (simp add: quiet_def keeps_def wf_server_def)

lemma discover_handle_acks:
  assumes "wf_server srv" "message_dhcpdiscover_handle env srv m = Inr (rv, srv')"
  shows "lease_acks (trans_cache srv') \<subseteq> lease_acks (trans_cache srv)"
proof -
  obtain os where os: "srv_heap srv (dhcp_options m) = Some os" using assms(2) by (rule discover_handle_live)
  obtain x a where "discover_address srv m = Inr (x, srv\<lparr>srv_allocator := a\<rparr>)"
    using discover_address_eq[OF assms(1) os] by blast
  then have "answers (srv\<lparr>srv_allocator := a\<rparr>) srv'"
    using assms(2) by (auto simp: discover_handle_eq if_failed_Inr split: if_splits dest: builders_answer(1))
  then show ?thesis by (simp add: answers_def)
qed

lemma release_handle_cache:
  assumes "message_dhcprelease_handle env srv m = Inr (rv, srv')"
  shows "trans_cache srv' = trans_cache srv"
  using assms unfolding message_dhcprelease_handle_def Let_def split_def by (elim cbindE if_cases) auto

lemma dispatch_keeps:
  assumes wf: "wf_server srv" and run: "dispatch env srv m = Inr (rv, srv')"
  shows "keeps srv srv'"
proof -
  have "keeps srv srv'" if "message_dhcpdiscover_handle env srv m = Inr (rv, srv')"
    using discover_handle_wf[OF wf that] discover_handle_acks[OF wf that] by (simp add: keeps_def)
  moreover have "keeps srv srv'" if "message_dhcprequest_handle env srv m = Inr (rv, srv')"
    using quiet_keeps[OF wf request_handle_quiet[OF that]] .
  moreover have "keeps srv srv'" if "message_dhcpinform_handle env srv m = Inr (rv, srv')"
    using quiet_keeps[OF wf inform_handle_quiet[OF that]] .
  moreover have "keeps srv srv'" if "message_dhcpdecline_handle env srv m = Inr (rv, srv')"
    using that decline_handle_wf[OF wf that] by (cases rule: decline_handle_cases) (simp_all add: keeps_def)
  moreover have "keeps srv srv'" if "message_dhcprelease_handle env srv m = Inr (rv, srv')"
    using release_handle_wf[OF wf that] release_handle_cache[OF that] by (auto simp: keeps_def)
  moreover have "keeps srv srv" using wf by (simp add: keeps_def)
  ultimately show ?thesis using run by (auto simp: dispatch_def split: if_splits)
qed

lemma keeps_refl: "wf_server srv \<Longrightarrow> keeps srv srv"
  by (simp add: keeps_def)

lemma keeps_db: "keeps srv s \<Longrightarrow> keeps srv (s\<lparr>srv_db := db\<rparr>)"
  by (simp add: keeps_def wf_server_def)

lemma serve_packet_keeps:
  assumes wf: "wf_server srv" and run: "serve_packet env snoop p buf srv = Inr (buf', srv')"
  shows "keeps srv srv'"
proof -
  have k0: "keeps srv (srv\<lparr>srv_heap := h\<rparr>)" "keeps srv (srv\<lparr>srv_heap := h, srv_dacl := d\<rparr>)" for h d
    using wf by (simp_all add: keeps_def wf_server_def)
  have add: "keeps srv (srv\<lparr>srv_heap := h, srv_dacl := d,
      trans_cache := fst (snd (trans_cache_add_message now (trans_cache srv) m))\<rparr>)" if "msg_type m \<noteq> DHCP_ACK" for h d now m
    using wf that wf_cache_add[of "trans_cache srv" now m] lease_acks_add[of m now "trans_cache srv"]
    by (simp add: keeps_def wf_server_def)
  have disp: "keeps srv srv'"
    if "keeps srv s" "dispatch env s m = Inr (rv, srv')" for s m rv
    using keeps_trans[OF that(1) dispatch_keeps[OF _ that(2)]] that(1) by (simp add: keeps_def)
  from run show ?thesis
    unfolding serve_packet_def Let_def split_def
    by (elim cbindE if_cases) (auto intro: k0 add disp[OF keeps_db[OF add]] elim!: store_database_cases)
qed

section \<open>The server as a state machine\<close>

text \<open>
  The loop of \<open>dhcp_server_serve\<close> as steps on the receive buffer, the server and the control
  socket: the timers are updated, a client of the control socket is served, or a packet is
  received. Clock, heap, socket and file system may behave differently in every step; the
  cJSON functions \<open>J\<close> are fixed. Every turn of the loop is made of these steps.
\<close>

inductive server_step ::
    "'j cjson \<Rightarrow> serving \<Rightarrow> serving \<Rightarrow> bool" for J where
  tick: "env_json env = J \<Longrightarrow> update_timers env l0 srv = Inr srv' \<Longrightarrow> server_step J (buf, srv, us) (buf, srv', us)"
| control: "ctl_json ctl = J \<Longrightarrow> unix_server_handle ctl cl (srv_allocator srv) us = Inr (rv, us') \<Longrightarrow>
    server_step J (buf, srv, us) (buf, srv, us')"
| receive: "env_json env = J \<Longrightarrow> serve_packet env snoop p buf srv = Inr (buf', srv') \<Longrightarrow>
    server_step J (buf, srv, us) (buf', srv', us)"

inductive server_run ::
    "'j cjson \<Rightarrow> serving \<Rightarrow> serving \<Rightarrow> bool" for J s where
  start: "server_run J s s"
| step: "server_run J s t \<Longrightarrow> server_step J t u \<Longrightarrow> server_run J s u"

inductive_cases server_stepE: "server_step J (buf, srv, us) (buf', srv', us')"

lemma server_step_keeps:
  assumes "server_step J (buf, srv, us) (buf', srv', us')" "wf_server srv"
  shows "keeps srv srv'"
  using assms by (elim server_stepE) (auto intro: keeps_refl shrinks_keeps update_timers_shrinks serve_packet_keeps)

lemma server_run_keeps:
  assumes "server_run J s t" "wf_server (fst (snd s))"
  shows "keeps (fst (snd s)) (fst (snd t))"
  using assms
proof (induction rule: server_run.induct)
  case start
  then show ?case by (simp add: keeps_def)
next
  case (step t u)
  then have k: "keeps (fst (snd s)) (fst (snd t))" by blast
  then have "keeps (fst (snd t)) (fst (snd u))"
    using step.hyps(2) server_step_keeps[of J "fst t" "fst (snd t)" "snd (snd t)" "fst u" "fst (snd u)" "snd (snd u)"]
    by (simp add: keeps_def)
  with k show ?case by (rule keeps_trans)
qed

text \<open>A turn of the loop, and so the whole loop, is a run of these steps.\<close>

lemma server_run_trans: "server_run J t u \<Longrightarrow> server_run J s t \<Longrightarrow> server_run J s u"
  by (induction rule: server_run.induct) (auto intro: server_run.intros)

lemma serve_turn_run:
  assumes "serve_turn cy s = Inr s'" "env_json (cyc_env cy) = J"
  shows "server_run J s s'"
proof -
  obtain buf srv us where s: "s = (buf, srv, us)" by (rule prod_cases3)
  from assms(1) obtain srv1 rv us1 where
    t: "update_timers (cyc_env cy) (cyc_lease cy) srv = Inr srv1"
      "unix_server_handle (ctl_of cy) (cyc_client cy) (srv_allocator srv1) us = Inr (rv, us1)"
    and rest: "case cyc_packet cy of None \<Rightarrow> s' = (buf, srv1, us1)
      | Some p \<Rightarrow> \<exists>b srv2. serve_packet (cyc_env cy) (snoop_of cy us1) p buf srv1 = Inr (b, srv2) \<and> s' = (b, srv2, us1)"
    by (auto simp: serve_turn_def s split: option.splits)
  have run: "server_run J s (buf, srv1, us1)"
    unfolding s using t assms(2)
    by (intro server_run.step[OF server_run.step[OF server_run.start]])
      (blast intro: server_step.tick, auto simp: ctl_of_def intro: server_step.control[of "ctl_of cy", unfolded ctl_of_def])
  show ?thesis
  proof (cases "cyc_packet cy")
    case None
    with rest run show ?thesis by simp
  next
    case (Some p)
    with rest obtain b srv2 where "serve_packet (cyc_env cy) (snoop_of cy us1) p buf srv1 = Inr (b, srv2)" "s' = (b, srv2, us1)"
      by auto
    with assms(2) show ?thesis using server_run.step[OF run server_step.receive] by blast
  qed
qed

lemma serve_loop_run:
  "serve_loop cycles s = Inr (stopped, s') \<Longrightarrow> \<forall>cy \<in> set cycles. env_json (cyc_env cy) = J \<Longrightarrow> server_run J s s'"
proof (induction cycles arbitrary: s)
  case Nil
  then show ?case by (auto intro: server_run.start)
next
  case (Cons cy cycles)
  then obtain s1 where s1: "serve_turn cy s = Inr s1" "s1 = s' \<or> serve_loop cycles s1 = Inr (stopped, s')"
    by (auto split: if_splits)
  have "server_run J s s1" using serve_turn_run[OF s1(1)] Cons.prems(2) by simp
  moreover have "server_run J s1 s'" using s1(2) Cons.IH[of s1] Cons.prems(2) by (auto intro: server_run.start)
  ultimately show ?case by (rule server_run_trans[rotated])
qed

text \<open>
  C1. However the server runs, its tables stay well-formed: the bitmap and the counter of
  every pool agree, pools stay disjoint, a transaction's timer runs exactly while it holds
  messages, no two transactions share an id; and the configuration (pools, ranges, options)
  is the one it was started with.
\<close>

theorem server_run_wf:
  assumes "server_run J (buf0, srv0, us0) (buf, srv, us)" "wf_server srv0"
  shows "wf_server srv \<and> same_config (srv_allocator srv0) (srv_allocator srv)"
  using server_run_keeps[OF assms(1)] assms(2) by (simp add: keeps_def)

text \<open>A request without a server identifier: it is parsed, stored and left unanswered.\<close>

lemma lan_receive:
  assumes wf: "wf_server srv" and s: "srv_heap srv = [0 \<mapsto> os]" "srv_acl srv = ACL_new" "srv_dacl srv = ACL_new"
  shows "\<exists>buf srv'. server_run plain_json (zero_message 0, srv, us) (buf, srv', us) \<and> xid buf = 7"
proof -
  let ?pick = "env_pick lan_env"
  have p0: "?pick Map.empty = 0" by (simp add: lan_env_def)
  obtain m where m: "dhcp_packet_parse ?pick ((zero_message 0)\<lparr>packet := request_packet\<rparr>) (srv_heap srv) =
      Inr (0, m, [0 \<mapsto> [message_type_option 3]])" "xid m = 7" "msg_type m = 3" "dhcp_options m = 0" "ciaddr m = 0"
      "length (chaddr m) = 18"
    using request_packet_parses[of ?pick os] unfolding s(1) p0 by auto
  have wfc: "wf_cache (trans_cache srv)" using wf by (simp add: wf_server_def)
  obtain r cache where add: "trans_cache_add_message 10 (trans_cache srv) m = (r, cache, m\<lparr>msg_time := 10\<rparr>)" "r = 0 \<or> r = -1"
    using wfc by (cases rule: cache_add_message[OF wfc, of 10 m]) auto
  have "ACL_check_client (srv_acl srv) (chaddr m) = Inr ACL_ALLOW"
    using check_client_eq[of "chaddr m" "srv_acl srv"] m(6) s(2) by (simp add: ACL_new_def)
  moreover have "dynamic_ACL_check (srv_dacl srv) (chaddr m) (trans_cache srv) = Inr (ACL_ALLOW, srv_dacl srv)"
    by (simp add: dynamic_ACL_check_def s(3) ACL_new_def)
  ultimately have "\<exists>srv'. serve_packet lan_env None request_packet (zero_message 0) srv = Inr (m\<lparr>msg_time := 10\<rparr>, srv')"
    using m add by (auto simp: serve_packet_def dispatch_def message_dhcprequest_handle_def retrieve_option_def
        options_of_def dhcp_option_retrieve_def message_type_option_def lan_env_def store_database_eq Let_def)
  then obtain srv' where "serve_packet lan_env None request_packet (zero_message 0) srv = Inr (m\<lparr>msg_time := 10\<rparr>, srv')" by blast
  moreover have "env_json lan_env = plain_json" by (simp add: lan_env_def)
  ultimately have "server_run plain_json (zero_message 0, srv, us) (m\<lparr>msg_time := 10\<rparr>, srv', us)"
    by (blast intro: server_run.intros server_step.receive)
  with m(2) show ?thesis by (intro exI[of _ "m\<lparr>msg_time := 10\<rparr>"] exI[of _ srv']) simp
qed

theorem server_run_wf_witness:
  "\<exists>buf srv. server_run plain_json (zero_message 0, lan_server lan_options [], idle_unix_server) (buf, srv, idle_unix_server) \<and> xid buf = 7 \<and> wf_server srv"
proof -
  have "srv_heap (lan_server lan_options []) = [0 \<mapsto> []]" "srv_acl (lan_server lan_options []) = ACL_new"
    "srv_dacl (lan_server lan_options []) = ACL_new" by (simp_all add: lan_server_def)
  from lan_receive[OF lan_server_wf(1) this] obtain buf srv where
    r: "server_run plain_json (zero_message 0, lan_server lan_options [], idle_unix_server) (buf, srv, idle_unix_server)" "xid buf = 7" by blast
  with server_run_wf[OF r(1) lan_server_wf(1)] show ?thesis by blast
qed

text \<open>
  C29. The server never honours a DHCPDECLINE: started with an empty cache, no reachable state
  holds an acknowledgement of a lease, so the handler of a DHCPDECLINE always fails and the
  declined address is not marked.
\<close>

theorem decline_never_succeeds:
  assumes "server_run J (buf0, srv0, us0) (buf, srv, us)" "wf_server srv0" "trans_cache srv0 = trans_cache_new now sz time"
  shows "message_dhcpdecline_handle env srv m = Inr (-1, srv)"
proof -
  have "lease_acks (trans_cache srv0) = {}" by (auto simp: assms(3) lease_acks_def trans_cache_new_def trans_new_def)
  then have none: "lease_acks (trans_cache srv) = {}" using server_run_keeps[OF assms(1)] assms(2) by (auto simp: keeps_def)
  have "yiaddr ack = 0"
    if last: "trans_cache_retrieve_message_last (trans_cache srv) (xid m) DHCP_ACK = Some ack" for ack
  proof -
    obtain i where i: "i < length (trans_cache srv)" "trans_search_for_last (trans_cache srv ! i) DHCP_ACK = Some ack"
      using last by (auto simp: trans_cache_retrieve_message_last_def split: option.splits dest: retrieve_transaction_Some)
    have "ack \<in> set (messages_ll (trans_cache srv ! i))" "msg_type ack = DHCP_ACK"
      using search_for_last_Some[OF i(2)] by simp_all
    with none i(1) show ?thesis by (auto simp: lease_acks_def)
  qed
  then show ?thesis by (auto simp: message_dhcpdecline_handle_def split: option.splits)
qed

theorem decline_never_succeeds_witness:
  "\<exists>buf srv. server_run plain_json (zero_message 0, (lan_server lan_options [])\<lparr>trans_cache := trans_cache_new 9 2 60\<rparr>, idle_unix_server) (buf, srv, idle_unix_server) \<and>
     xid buf = 7 \<and> message_dhcpdecline_handle lan_env srv discover_message = Inr (-1, srv)"
proof -
  let ?s = "(lan_server lan_options [])\<lparr>trans_cache := trans_cache_new 9 2 60\<rparr>"
  have s: "wf_server ?s" "srv_heap ?s = [0 \<mapsto> []]" "srv_acl ?s = ACL_new" "srv_dacl ?s = ACL_new"
    using lan_server_wf(1)[of lan_options "[]"] wf_cache_new by (simp_all add: wf_server_def lan_server_def)
  from lan_receive[OF s] obtain buf srv where r: "server_run plain_json (zero_message 0, ?s, idle_unix_server) (buf, srv, idle_unix_server)" "xid buf = 7" by blast
  have "trans_cache ?s = trans_cache_new 9 2 60" by simp
  with decline_never_succeeds[OF r(1) s(1)] r show ?thesis by blast
qed

section \<open>Stopping\<close>

text \<open>The client sends a well-formed request with the command \<open>stop-server\<close>.\<close>

definition asks_to_stop :: "'j cjson \<Rightarrow> client \<Rightarrow> bool" where
  "asks_to_stop api cl =
     (case cl of
        Client (Some buffer) _ \<Rightarrow>
          (case cj_parse api (takeWhile (\<lambda>c. c \<noteq> CHR 0x00) buffer) of
             None \<Rightarrow> False
           | Some j \<Rightarrow> Option.bind (cj_get api j ''command'') (cj_string api) = Some ''stop-server'' \<and>
                       cj_get api j ''parameters'' \<noteq> None)
      | _ \<Rightarrow> False)"

lemma commands_initialised:
  "init_unix_commands us0 = (0, us) \<Longrightarrow> commands us = commands (snd (init_unix_commands idle_unix_server)) \<and>
     stop_requested us = stop_requested us0"
  by (auto simp: init_unix_commands_def register_command_def)

lemma rogue_scan_other:
  "command_rogue_scan env params us = Inr (r, us') \<Longrightarrow> commands us' = commands us \<and> stop_requested us' = stop_requested us"
  by (auto simp: command_rogue_scan_def Let_def split: option.splits list.splits if_splits)

lemma call_command_stop:
  "call_command env a f params us = Inr (r, us') \<Longrightarrow>
   commands us' = commands us \<and> (stop_requested us' \<longleftrightarrow> stop_requested us \<or> f = Command_stop)"
  by (cases f) (auto simp: call_command_def command_stop_def dest: rogue_scan_other)

lemma find_command:
  "case List.find (\<lambda>cmd. cmd_name cmd = c) (commands (snd (init_unix_commands idle_unix_server))) of
     None \<Rightarrow> c \<noteq> ''stop-server'' | Some cmd \<Rightarrow> cmd_func cmd = Command_stop \<longleftrightarrow> c = ''stop-server''"
  by (auto simp: init_unix_commands_def register_command_def)

lemma handle_command_stop:
  assumes run: "handle_command env a json us = Inr (r, us')" and cmds: "commands us = commands (snd (init_unix_commands idle_unix_server))"
  shows "commands us' = commands us \<and> (stop_requested us' \<longleftrightarrow> stop_requested us \<or>
     Option.bind (cj_get (ctl_json env) json ''command'') (cj_string (ctl_json env)) = Some ''stop-server'' \<and>
     cj_get (ctl_json env) json ''parameters'' \<noteq> None)"
proof (cases "Option.bind (cj_get (ctl_json env) json ''command'') (cj_string (ctl_json env))")
  case None
  with run show ?thesis by (simp add: handle_command_def Let_def)
next
  case c: (Some c)
  show ?thesis
  proof (cases "cj_get (ctl_json env) json ''parameters''")
    case None
    with c run show ?thesis by (simp add: handle_command_def Let_def)
  next
    case params: (Some params)
    show ?thesis
    proof (cases "List.find (\<lambda>cmd. cmd_name cmd = c) (commands us)")
      case None
      with c params run find_command[of c] show ?thesis by (simp add: handle_command_def Let_def cmds)
    next
      case (Some cmd)
      with c params run obtain r1 where "call_command env a (cmd_func cmd) params us = Inr (r1, us')"
        by (auto simp: handle_command_def Let_def)
      with call_command_stop[OF this] Some find_command[of c] c params show ?thesis by (simp add: cmds)
    qed
  qed
qed

lemma unix_server_handle_stop:
  assumes "unix_server_handle env cl a us = Inr (rv, us')" "commands us = commands (snd (init_unix_commands idle_unix_server))"
  shows "commands us' = commands us \<and> (stop_requested us' \<longleftrightarrow> stop_requested us \<or> asks_to_stop (ctl_json env) cl)"
proof -
  have err: "error_respond bytes can_send us1 = Inr (rv, us') \<Longrightarrow> commands us' = commands us1 \<and> stop_requested us' = stop_requested us1"
    for bytes can_send us1 by (auto simp: error_respond_def split: if_splits)
  have cmd: "commands us1 = commands us \<and> (stop_requested us1 \<longleftrightarrow> stop_requested us \<or>
     Option.bind (cj_get (ctl_json env) json ''command'') (cj_string (ctl_json env)) = Some ''stop-server'' \<and>
     cj_get (ctl_json env) json ''parameters'' \<noteq> None)"
    if "handle_command env a json (us\<lparr>open_clients := n\<rparr>) = Inr (r, us1)" for json n r us1
    using handle_command_stop[OF that] assms(2) by simp
  show ?thesis
  proof (cases cl)
    case (Client received can_send)
    show ?thesis
    proof (cases received)
      case (Some buffer)
      with Client assms(1) show ?thesis
        by (cases "cj_parse (ctl_json env) (takeWhile (\<lambda>c. c \<noteq> CHR 0x00) buffer)")
          (auto simp: unix_server_handle_def asks_to_stop_def Let_def split: if_splits option.splits dest!: err cmd)
    qed (use Client assms(1) in \<open>auto simp: unix_server_handle_def asks_to_stop_def\<close>)
  qed (use assms(1) in \<open>auto simp: unix_server_handle_def asks_to_stop_def\<close>)
qed

lemma serve_turn_stop:
  assumes "serve_turn cy (buf, srv, us) = Inr (buf', srv', us')" "commands us = commands (snd (init_unix_commands idle_unix_server))"
  shows "commands us' = commands us \<and>
     (stop_requested us' \<longleftrightarrow> stop_requested us \<or> asks_to_stop (env_json (cyc_env cy)) (cyc_client cy))"
  using assms(1) by (auto simp: serve_turn_def ctl_of_def split: option.splits dest!: unix_server_handle_stop[OF _ assms(2)])

lemma serve_loop_stop:
  "serve_loop cycles (buf, srv, us) = Inr (stopped, s') \<Longrightarrow> commands us = commands (snd (init_unix_commands idle_unix_server)) \<Longrightarrow>
   \<not> stop_requested us \<Longrightarrow>
   stopped \<longleftrightarrow> (\<exists>cy \<in> set cycles. asks_to_stop (env_json (cyc_env cy)) (cyc_client cy))"
proof (induction cycles arbitrary: buf srv us)
  case (Cons cy cycles)
  from Cons.prems(1) obtain b srv1 us1 where t: "serve_turn cy (buf, srv, us) = Inr (b, srv1, us1)"
    "if stop_requested us1 then stopped else serve_loop cycles (b, srv1, us1) = Inr (stopped, s')"
    by (auto split: if_splits)
  note us1 = serve_turn_stop[OF t(1) Cons.prems(2)]
  show ?case
  proof (cases "stop_requested us1")
    case True
    with us1 t(2) Cons.prems(3) show ?thesis by simp
  next
    case False
    with us1 t(2) Cons.IH[of b srv1 us1] Cons.prems show ?thesis by simp
  qed
qed simp


definition stop_cycle :: "string cycle" where
  "stop_cycle = \<lparr>cyc_env = lan_env, cyc_scan = None, cyc_lease = lease_new,
     cyc_client = Client (Some (cj_print plain_json (cj_object plain_json [(''command'', ''stop-server''), (''parameters'', [])]))) True,
     cyc_packet = None\<rparr>"

abbreviation (input) stop_request :: string where
  "stop_request \<equiv> cj_print plain_json (cj_object plain_json [(''command'', ''stop-server''), (''parameters'', [])])"

lemma stop_request_text: "takeWhile (\<lambda>c. c \<noteq> CHR 0x00) stop_request = stop_request" "length stop_request < 8192"
  by (simp_all add: plain_json_def)

lemma stop_cycle_asks: "asks_to_stop (env_json (cyc_env stop_cycle)) (cyc_client stop_cycle)"
  unfolding asks_to_stop_def stop_cycle_def lan_env_def cycle.simps env.simps client.case option.case stop_request_text(1)
  by simp

lemma stop_cycle_fields:
  "cyc_env stop_cycle = lan_env" "cyc_lease stop_cycle = lease_new" "cyc_packet stop_cycle = None"
  by (simp_all add: stop_cycle_def)

lemma stop_cycle_handled:
  "\<exists>rv us'. unix_server_handle (ctl_of stop_cycle) (cyc_client stop_cycle) a (snd (init_unix_commands idle_unix_server)) = Inr (rv, us')"
  unfolding unix_server_handle_def ctl_of_def stop_cycle_def lan_env_def cycle.simps env.simps client.case option.case Let_def
    stop_request_text(1)
  using stop_request_text(2)
  by (simp add: handle_command_def init_unix_commands_def register_command_def call_command_def command_stop_def)


section \<open>What the lease check gives back\<close>

lemma remove_nth_filter:
  assumes "distinct (map f xs)" "find_index (\<lambda>x. f x = a) xs = Some i"
  shows "remove_nth i xs = filter (\<lambda>x. f x \<noteq> a) xs"
proof -
  note i = find_index_Some[OF assms(2)]
  have xs: "xs = take i xs @ xs ! i # drop (Suc i) xs" using i by (simp add: id_take_nth_drop)
  have d: "distinct (map f (take i xs @ xs ! i # drop (Suc i) xs))" using assms(1) xs by simp
  have "\<forall>x \<in> set (take i xs). f x \<noteq> a" "\<forall>x \<in> set (drop (Suc i) xs). f x \<noteq> a"
    using d i by (auto simp: image_iff)
  then have "filter (\<lambda>x. f x \<noteq> a) (take i xs @ xs ! i # drop (Suc i) xs) = take i xs @ drop (Suc i) xs"
    using i by simp
  then show ?thesis using xs by (simp add: remove_nth_def)
qed

text \<open>A lease among the checked addresses that is due at time \<open>t\<close>.\<close>

definition due :: "u32 \<Rightarrow> u32 set \<Rightarrow> u32 set \<Rightarrow> lease \<Rightarrow> bool" where
  "due t A used l \<longleftrightarrow> lease_address l \<in> A \<and> lease_address l \<in> used \<and> lease_expire l \<le> t"

text \<open>One address of the loop: it is passed over, or its lease is due and is taken out.\<close>

lemma check_lease_address:
  assumes ok: "cjson_ok (env_json env)" and co: "env_open env (lease_path pool)"
    and wf: "wf_server srv" and dom: "a \<in> alloc_dom (srv_allocator srv)"
    and h: "holds (env_json env) (srv_files srv) pool ls" and dis: "distinct (map lease_address ls)"
    and u: "u = alloc_used (srv_allocator srv)"
  obtains (passed) l1 fs where
      "check_lease_loop env t pool (a # as) l n srv = check_lease_loop env t pool as l1 n (srv\<lparr>srv_files := fs\<rparr>)"
      "holds (env_json env) fs pool ls" "\<forall>x \<in> set ls. \<not> due t {a} u x"
    | (taken_out) l1 fs al where
      "check_lease_loop env t pool (a # as) l n srv =
         check_lease_loop env t pool as l1 (n + 1) (srv\<lparr>srv_files := fs, srv_allocator := al\<rparr>)"
      "l1 \<in> set ls" "due t {a} u l1" "holds (env_json env) fs pool (filter (\<lambda>x. lease_address x \<noteq> a) ls)"
      "shrinks srv (srv\<lparr>srv_files := fs, srv_allocator := al\<rparr>)" "alloc_used al = u - {a}"
proof -
  have wfa: "wf_allocator (srv_allocator srv)" using wf by (simp add: wf_server_def)
  have avail: "allocator_is_address_available (srv_allocator srv) a = Inr (a \<notin> u)"
    using is_available_eq[OF wfa, of a] dom u by auto
  obtain fs where fs: "lease_retrieve (env_json env) (env_open env) (srv_files srv) l a (Some pool) =
       (case List.find (\<lambda>x. lease_address x = a) ls of
          None \<Rightarrow> Inr (LEASE_DOESNT_EXITS, l\<lparr>lease_pool_name := Some pool\<rparr>, fs)
        | Some x \<Rightarrow> Inr (LEASE_OK, x, fs))" "holds (env_json env) fs pool ls"
    using lease_retrieve_eq[where can_open = "env_open env", OF ok h co, of l a] by blast
  consider "a \<notin> u" | "a \<in> u" "\<forall>x \<in> set ls. lease_address x \<noteq> a"
    | i where "a \<in> u" "find_index (\<lambda>x. lease_address x = a) ls = Some i"
    by (cases "find_index (\<lambda>x. lease_address x = a) ls") (auto simp: find_index_None)
  then show thesis
  proof cases
    case 1
    with avail h show thesis by (intro passed[of l "srv_files srv"]) (auto simp: due_def)
  next
    case 2
    then have "List.find (\<lambda>x. lease_address x = a) ls = None" by (simp add: find_None_iff)
    with 2 avail fs show thesis by (intro passed[of "l\<lparr>lease_pool_name := Some pool\<rparr>" fs]) (auto simp: due_def)
  next
    case (3 i)
    note i = find_index_Some[OF 3(2)]
    then have f: "List.find (\<lambda>x. lease_address x = a) ls = Some (ls ! i)" unfolding find_Some_iff by blast
    have only: "x = ls ! i" if "x \<in> set ls" "lease_address x = a" for x
      using that i dis by (auto simp: distinct_map inj_on_def)
    show thesis
    proof (cases "lease_expire (ls ! i) > t")
      case True
      with 3 avail fs f show thesis by (intro passed[of "ls ! i" fs]) (auto simp: due_def dest: only)
    next
      case False
      have "lease_pool_name (ls ! i) = Some pool" using h i by (auto simp: holds_def wf_lease_def)
      moreover have "\<exists>x \<in> set ls. lease_address x = lease_address (ls ! i)" using i nth_mem by blast
      ultimately obtain fs1 where fs1: "lease_remove (env_json env) (env_open env) fs (ls ! i) = Inr (LEASE_OK, fs1)"
        "holds (env_json env) fs1 pool (remove_nth i ls)"
        using lease_remove_eq[where can_open = "env_open env", OF ok fs(2) co, of "ls ! i"] i 3(2) by auto
      have wf1: "wf_server (srv\<lparr>srv_files := fs1\<rparr>)" using wf by (simp add: wf_server_def)
      obtain rv al where al: "allocator_release_address (srv_allocator srv) a = Inr (rv, al)"
        using release_used[OF wfa, of a] by blast
      note sh = release_shrinks[OF wf1, simplified, OF al]
      have "check_lease_loop env t pool (a # as) l n srv =
          check_lease_loop env t pool as (ls ! i) (n + 1) (srv\<lparr>srv_files := fs1, srv_allocator := al\<rparr>)"
        using 3(1) avail fs(1) f False fs1(1) al by simp
      then show thesis
        using 3(1) i False u sh(2) fs1(2) remove_nth_filter[OF dis 3(2)]
          shrinks_trans[OF shrinks_files[OF wf] sh(1)]
        by (intro taken_out[of "ls ! i" al fs1]) (auto simp: due_def)
    qed
  qed
qed

lemma check_lease_loop_eq:
  assumes ok: "cjson_ok (env_json env)" and co: "env_open env (lease_path pool)"
  shows "wf_server srv \<Longrightarrow> distinct as \<Longrightarrow> set as \<subseteq> alloc_dom (srv_allocator srv) \<Longrightarrow>
     holds (env_json env) (srv_files srv) pool ls \<Longrightarrow> distinct (map lease_address ls) \<Longrightarrow>
     u = alloc_used (srv_allocator srv) \<Longrightarrow>
     \<exists>srv' k. check_lease_loop env t pool as l n srv = Inr (k, srv') \<and>
       alloc_used (srv_allocator srv') = u - lease_address ` {x \<in> set ls. due t (set as) u x} \<and>
       holds (env_json env) (srv_files srv') pool (filter (\<lambda>x. \<not> due t (set as) u x) ls)"
proof (induction as arbitrary: l n srv ls u)
  case (Cons a as)
  have a: "a \<in> alloc_dom (srv_allocator srv)" "a \<notin> set as" "distinct as" using Cons.prems(2,3) by simp_all
  show ?case
    using ok co Cons.prems(1) a(1) Cons.prems(4-6)
  proof (cases rule: check_lease_address[where t = t and as = as and l = l and n = n])
    case (passed l1 fs)
    have d: "due t (insert a (set as)) u x = due t (set as) u x" if "x \<in> set ls" for x
      using that passed(3) by (auto simp: due_def)
    have "wf_server (srv\<lparr>srv_files := fs\<rparr>)" using Cons.prems(1) by (simp add: wf_server_def)
    moreover have "{x \<in> set ls. due t (insert a (set as)) u x} = {x \<in> set ls. due t (set as) u x}"
      "filter (\<lambda>x. \<not> due t (insert a (set as)) u x) ls = filter (\<lambda>x. \<not> due t (set as) u x) ls"
      using d by (auto intro: filter_cong)
    ultimately show ?thesis
      unfolding passed(1) list.set(2)
      using Cons.IH[of "srv\<lparr>srv_files := fs\<rparr>" ls u l1 n] Cons.prems passed(2) by simp
  next
    case (taken_out l1 fs al)
    let ?s = "srv\<lparr>srv_files := fs, srv_allocator := al\<rparr>" and ?ls = "filter (\<lambda>x. lease_address x \<noteq> a) ls"
    have cfg: "same_config (srv_allocator srv) al" "wf_server ?s" using taken_out(5) by (simp_all add: shrinks_def)
    have only: "x = l1" if "x \<in> set ls" "lease_address x = a" for x
      using that taken_out(2,3) Cons.prems(5) by (auto simp: distinct_map inj_on_def due_def)
    have d: "due t (insert a (set as)) u x \<longleftrightarrow> lease_address x = a \<or> due t (set as) (u - {a}) x" if "x \<in> set ls" for x
      using that taken_out(3) only a(2) by (auto simp: due_def)
    have keep: "filter (\<lambda>x. \<not> due t (insert a (set as)) u x) ls = filter (\<lambda>x. \<not> due t (set as) (u - {a}) x) ?ls"
      unfolding filter_filter by (rule filter_cong) (auto simp: d)
    have gone: "lease_address ` {x \<in> set ls. due t (insert a (set as)) u x} =
        insert a (lease_address ` {x \<in> set ?ls. due t (set as) (u - {a}) x})"
      using d taken_out(2,3) by (auto simp: image_iff due_def intro!: bexI[of _ l1])
    have "\<exists>srv' k. check_lease_loop env t pool as l1 (n + 1) ?s = Inr (k, srv') \<and>
        alloc_used (srv_allocator srv') = (u - {a}) - lease_address ` {x \<in> set ?ls. due t (set as) (u - {a}) x} \<and>
        holds (env_json env) (srv_files srv') pool (filter (\<lambda>x. \<not> due t (set as) (u - {a}) x) ?ls)"
      using Cons.IH[OF cfg(2) a(3), of ?ls "u - {a}" l1 "n + 1"] Cons.prems(3,5) taken_out(4,6)
        same_config_facts(1)[OF cfg(1)] by (simp add: distinct_map_filter)
    then show ?thesis unfolding taken_out(1) list.set(2) keep gone by auto
  qed
qed (simp add: due_def)

lemma set_checked_addresses:
  "set (checked_addresses pool) = {start_address pool..<end_address pool}" "distinct (checked_addresses pool)"
proof -
  let ?s = "start_address pool" and ?e = "end_address pool"
  have u: "unat (word_of_nat k :: u32) = k" if "k < unat ?e" for k
    using that unat_u32[of ?e] by (simp add: unsigned_of_nat take_bit_nat_eq_self)
  show "set (checked_addresses pool) = {?s..<?e}"
  proof (intro equalityI subsetI)
    fix x assume "x \<in> {?s..<?e}"
    then have "unat x \<in> {unat ?s..<unat ?e}" by (simp add: word_le_nat_alt word_less_nat_alt)
    then show "x \<in> set (checked_addresses pool)"
      unfolding checked_addresses_def by (auto intro!: image_eqI[of _ _ "unat x"])
  qed (auto simp: checked_addresses_def word_le_nat_alt word_less_nat_alt u)
  show "distinct (checked_addresses pool)"
    unfolding checked_addresses_def distinct_map using u by (auto simp: inj_on_def) (metis u)
qed



end
