(* ===== verification/Getopt.thy ===== *)
theory Getopt
  imports Prelude
begin

text \<open>
  The scanner of the command line the server relies on: \<open>getopt_long\<close> of the C library
  with the option tables of \<open>config_parse_arguments\<close> (\<open>config.c\<close>). Arguments that are no
  options are skipped (the library moves them behind the options), a long option may be
  abbreviated to an unambiguous prefix, short options may be clustered. An option that is
  unknown, ambiguous or lacks its argument gives \<open>?\<close>.
\<close>

section \<open>The option tables\<close>

datatype has_arg = no_argument | required_argument

definition long_options :: "(string \<times> has_arg \<times> nat) list" where
  "long_options = [
     (''version'', no_argument, of_char (CHR ''v'')),
     (''help'', no_argument, of_char (CHR ''h'')),
     (''config'', required_argument, of_char (CHR ''c'')),
     (''default-configuration'', required_argument, 1),
     (''interface'', required_argument, of_char (CHR ''i'')),
     (''tick-delay'', required_argument, of_char (CHR ''d'')),
     (''cache-size'', required_argument, of_char (CHR ''s'')),
     (''transaction-duration'', required_argument, of_char (CHR ''t'')),
     (''lease-expiration-check'', required_argument, of_char (CHR ''e'')),
     (''lease-time'', required_argument, of_char (CHR ''l'')),
     (''log'', required_argument, 2),
     (''acl-disable'', no_argument, 3),
     (''acl-whitelist-mode'', no_argument, 4),
     (''dynamic-acl-disable'', no_argument, 5),
     (''db-disable'', no_argument, 6),
     (''pool'', required_argument, of_char (CHR ''p'')),
     (''option'', required_argument, of_char (CHR ''o''))]"

text \<open>The string \<open>vhci:d:s:t:e:l:p:o:\<close>: a colon marks the options that take an argument.\<close>

definition short_options :: "(char \<times> has_arg) list" where
  "short_options = [(CHR ''v'', no_argument), (CHR ''h'', no_argument), (CHR ''c'', no_argument),
     (CHR ''i'', required_argument), (CHR ''d'', required_argument), (CHR ''s'', required_argument),
     (CHR ''t'', required_argument), (CHR ''e'', required_argument), (CHR ''l'', required_argument),
     (CHR ''p'', required_argument), (CHR ''o'', required_argument)]"

abbreviation (input) getopt_error :: nat where "getopt_error \<equiv> of_char (CHR ''?'')"

section \<open>One call\<close>

text \<open>
  A call returns the option, its argument (\<open>None\<close> is NULL), the rest of a cluster of short
  options and the remaining arguments.
\<close>

type_synonym getopt_result = "nat \<times> string option \<times> string \<times> string list"

definition take_argument :: "nat \<Rightarrow> string list \<Rightarrow> getopt_result" where
  "take_argument opt args =
     (case args of [] \<Rightarrow> (getopt_error, None, [], []) | a # as \<Rightarrow> (opt, Some a, [], as))"

definition short_option :: "char \<Rightarrow> string \<Rightarrow> string list \<Rightarrow> getopt_result" where
  "short_option c cs args =
     (case map_of short_options c of
        None \<Rightarrow> (getopt_error, None, cs, args)
      | Some no_argument \<Rightarrow> (of_char c, None, cs, args)
      | Some required_argument \<Rightarrow>
          if cs \<noteq> [] then (of_char c, Some cs, [], args) else take_argument (of_char c) args)"

definition find_long :: "string \<Rightarrow> (has_arg \<times> nat) option" where
  "find_long name =
     (case map_of long_options name of
        Some x \<Rightarrow> Some x
      | None \<Rightarrow> (case filter (\<lambda>(n, _). take (length name) n = name) long_options of
                   [(_, x)] \<Rightarrow> Some x | _ \<Rightarrow> None))"

definition long_option :: "string \<Rightarrow> string list \<Rightarrow> getopt_result" where
  "long_option s args =
     (let name = takeWhile (\<lambda>c. c \<noteq> CHR ''='') s; rest = dropWhile (\<lambda>c. c \<noteq> CHR ''='') s
      in case find_long name of
           None \<Rightarrow> (getopt_error, None, [], args)
         | Some (no_argument, v) \<Rightarrow>
             if rest \<noteq> [] then (getopt_error, None, [], args) else (v, None, [], args)
         | Some (required_argument, v) \<Rightarrow>
             if rest \<noteq> [] then (v, Some (tl rest), [], args) else take_argument v args)"

fun getopt_long :: "string \<Rightarrow> string list \<Rightarrow> getopt_result option" where
  "getopt_long (c # cs) args = Some (short_option c cs args)"
| "getopt_long [] [] = None"
| "getopt_long [] (a # args) =
     (if a = ''--'' then None
      else if take 2 a = ''--'' then Some (long_option (drop 2 a) args)
      else case a of
             c # d # cs \<Rightarrow> if c = CHR ''-'' then Some (short_option d cs args) else getopt_long [] args
           | _ \<Rightarrow> getopt_long [] args)"

section \<open>Every call consumes some input\<close>

definition input_size :: "string \<Rightarrow> string list \<Rightarrow> nat" where
  "input_size nc args = length nc + (\<Sum>a\<leftarrow>args. Suc (length a))"

lemma input_size_simps [simp]:
  "input_size nc (a # args) = input_size nc args + Suc (length a)"
  "input_size (c # cs) args = Suc (input_size cs args)"
  by (simp_all add: input_size_def)

lemma take_argument_size:
  "take_argument opt args = (o1, arg, nc, args') \<Longrightarrow> input_size nc args' \<le> input_size [] args"
  by (auto simp: take_argument_def split: list.splits)

lemma input_size_mono: "input_size [] args \<le> input_size cs args"
  by (simp add: input_size_def)

lemma short_option_size:
  "short_option c cs args = (o1, arg, nc, args') \<Longrightarrow> input_size nc args' \<le> input_size cs args"
  using take_argument_size[of "of_char c" args] input_size_mono[of args cs]
  by (auto simp: short_option_def split: option.splits has_arg.splits if_splits)

lemma long_option_size:
  "long_option s args = (o1, arg, nc, args') \<Longrightarrow> input_size nc args' \<le> input_size [] args"
  using take_argument_size
  by (auto simp: long_option_def Let_def split: option.splits has_arg.splits if_splits)

lemma getopt_long_size:
  "getopt_long nc args = Some (o1, arg, nc', args') \<Longrightarrow> input_size nc' args' < input_size nc args"
proof (induction nc args rule: getopt_long.induct)
  case (1 c cs args)
  then show ?case by (auto dest: short_option_size)
next
  case (3 a args)
  show ?case
  proof (cases "take 2 a = ''--''")
    case True
    with 3 show ?thesis by (auto dest!: long_option_size split: if_splits)
  next
    case False
    with 3 show ?thesis
      by (fastforce dest!: short_option_size simp: input_size_def split: if_splits list.splits)
  qed
qed simp

lemma take_argument_opt: "take_argument v args = (opt, r) \<Longrightarrow> opt = v \<or> opt = getopt_error"
  by (auto simp: take_argument_def split: list.splits)

end
