(* ===== verification/Config.thy ===== *)
theory Config
  imports Lease Dhcp_packet Getopt
begin

text \<open>
  The configuration (\<open>config.c\<close>): settings come from the command line, then from the JSON
  file, then from built-in defaults; pools and DHCP options go into the allocator. The
  environment gives the cJSON functions, the files and the network interfaces of the host.
  Messages to the user are not part of the state.
\<close>

section \<open>The settings\<close>

abbreviation (input) CONFIG_EXIT_PROGRAM :: int where "CONFIG_EXIT_PROGRAM \<equiv> 1"
abbreviation (input) CONFIG_UNTOUCHED :: u8 where "CONFIG_UNTOUCHED \<equiv> 2"
abbreviation (input) CONFIG_BOOL_FALSE :: u8 where "CONFIG_BOOL_FALSE \<equiv> 0"
abbreviation (input) CONFIG_BOOL_TRUE :: u8 where "CONFIG_BOOL_TRUE \<equiv> 1"
abbreviation (input) CONFIG_DEFAULT_PATH :: string where "CONFIG_DEFAULT_PATH \<equiv> ''/etc/dhcp/config.json''"
abbreviation (input) CONFIG_DEFAULT_TICK_DELAY :: u32 where "CONFIG_DEFAULT_TICK_DELAY \<equiv> 1000"
abbreviation (input) CONFIG_DEFAULT_CACHE_SIZE :: u32 where "CONFIG_DEFAULT_CACHE_SIZE \<equiv> 25"
abbreviation (input) CONFIG_DEFAULT_TRANS_DURATION :: u32 where "CONFIG_DEFAULT_TRANS_DURATION \<equiv> 60"
abbreviation (input) CONFIG_DEFAULT_LEASE_EXPIRATION_CHECK :: u32 where
  "CONFIG_DEFAULT_LEASE_EXPIRATION_CHECK \<equiv> 60"
abbreviation (input) CONFIG_DEFAULT_LOG_VERBOSITY :: u8 where "CONFIG_DEFAULT_LOG_VERBOSITY \<equiv> 4"
abbreviation (input) CONFIG_DEFAULT_LEASE_TIME :: u32 where "CONFIG_DEFAULT_LEASE_TIME \<equiv> 43200"
abbreviation (input) CONFIG_DEFAULT_POOL_NAME :: string where "CONFIG_DEFAULT_POOL_NAME \<equiv> ''Pool''"
abbreviation (input) CONFIG_DEFAULT_POOL_START :: string where "CONFIG_DEFAULT_POOL_START \<equiv> ''192.168.1.1''"
abbreviation (input) CONFIG_DEFAULT_POOL_END :: string where "CONFIG_DEFAULT_POOL_END \<equiv> ''192.168.1.100''"
abbreviation (input) CONFIG_DEFAULT_POOL_MASK :: string where "CONFIG_DEFAULT_POOL_MASK \<equiv> ''255.255.255.0''"
abbreviation (input) CONFIG_DEFAULT_ACL_ENABLE :: u8 where "CONFIG_DEFAULT_ACL_ENABLE \<equiv> CONFIG_BOOL_TRUE"
abbreviation (input) CONFIG_DEFAULT_ACL_BLACKLIST :: u8 where "CONFIG_DEFAULT_ACL_BLACKLIST \<equiv> CONFIG_BOOL_TRUE"
abbreviation (input) CONFIG_DEFAULT_DB_ENABLE :: u8 where "CONFIG_DEFAULT_DB_ENABLE \<equiv> CONFIG_BOOL_TRUE"
abbreviation (input) CONFIG_DEFAULT_DACL :: u8 where "CONFIG_DEFAULT_DACL \<equiv> CONFIG_BOOL_TRUE"
abbreviation (input) PATH_MAX :: nat where "PATH_MAX \<equiv> 4096"

record config =
  config_path :: string
  interface :: string
  conf_bound_ip :: u32
  conf_broadcast_addr :: u32
  tick_delay :: u32
  cache_size :: u32
  trans_duration :: u32
  conf_lease_check :: u32
  lease_time :: u32
  log_verbosity :: u8
  acl_enable :: u8
  dynamic_acl_enable :: u8
  acl_blacklist :: u8
  db_enable :: u8

text \<open>The parts of \<open>dhcp_server_t\<close> the configuration fills in.\<close>

record boot =
  boot_config :: config
  boot_allocator :: allocator

text \<open>What \<open>getifaddrs\<close> reports: name, address and, for AF_INET, broadcast address.\<close>

datatype sockaddr = AF_INET u32 | AF_OTHER

record ifaddr =
  ifa_name :: string
  ifa_addr :: "sockaddr option"
  ifa_broadaddr :: "u32 option"

record 'j conf_env =
  ce_json :: "'j cjson"
  ce_open :: "string \<Rightarrow> bool"
  ce_files :: files
  ce_ifaddrs :: "ifaddr list option"

text \<open>
  A fixed array of \<open>n\<close> characters holds the characters before its first NUL; \<open>strncpy\<close> with
  the size of the array may fill it completely, and reading it as a string then leaves it.
\<close>

definition c_string :: "nat \<Rightarrow> string \<Rightarrow> string c" where
  "c_string n s = (if length s < n then Inr s else Inl Out_of_bounds)"

section \<open>The interface\<close>

fun interface_loop :: "string \<Rightarrow> ifaddr list \<Rightarrow> config \<Rightarrow> config" where
  "interface_loop name [] cfg = cfg"
| "interface_loop name (ifa # ifs) cfg =
     (if ifa_name ifa \<noteq> name then interface_loop name ifs cfg
      else case ifa_addr ifa of
        None \<Rightarrow> interface_loop name ifs cfg
      | Some addr \<Rightarrow>
          let cfg = (case addr of AF_INET a \<Rightarrow> cfg\<lparr>conf_bound_ip := ntohl a\<rparr> | AF_OTHER \<Rightarrow> cfg);
              cfg = (case (ifa_broadaddr ifa, addr) of
                       (Some b, AF_INET _) \<Rightarrow> cfg\<lparr>conf_broadcast_addr := ntohl b\<rparr> | _ \<Rightarrow> cfg)
          in if conf_bound_ip cfg \<noteq> 0 \<and> conf_broadcast_addr cfg \<noteq> 0 then cfg
             else interface_loop name ifs cfg)"

text \<open>After a failure of \<open>getifaddrs\<close> the loop runs over a pointer that was never set.\<close>

definition config_get_interface_info :: "'j conf_env \<Rightarrow> boot \<Rightarrow> (int \<times> boot) c" where
  "config_get_interface_info env b =
     (case ce_ifaddrs env of
        None \<Rightarrow> Inl Uninitialised
      | Some ifs \<Rightarrow> cbind (c_string 256 (interface (boot_config b))) (\<lambda>name.
          let cfg = interface_loop name ifs (boot_config b); b = b\<lparr>boot_config := cfg\<rparr>
          in if conf_bound_ip cfg = 0 \<or> conf_broadcast_addr cfg = 0 then Inr (-1, b) else Inr (0, b)))"

section \<open>The configuration file\<close>

definition config_load_json_file :: "'j conf_env \<Rightarrow> string \<Rightarrow> 'j option" where
  "config_load_json_file env path =
     (case ce_files env path of None \<Rightarrow> None
      | Some s \<Rightarrow> if ce_open env path then cj_parse (ce_json env) s else None)"

text \<open>\<open>cJSON_GetObjectItem\<close> on an object that may be NULL.\<close>

definition member :: "'j cjson \<Rightarrow> 'j option \<Rightarrow> string \<Rightarrow> 'j option" where
  "member api section key = (case section of None \<Rightarrow> None | Some j \<Rightarrow> cj_get api j key)"

text \<open>A flag that the command line left untouched, and a number that it left 0.\<close>

definition flag_setting :: "'j cjson \<Rightarrow> 'j option \<Rightarrow> string \<Rightarrow> u8 \<Rightarrow> u8 \<Rightarrow> u8" where
  "flag_setting api section key dflt v =
     (if v = CONFIG_UNTOUCHED
      then (case member api section key of None \<Rightarrow> dflt | Some j \<Rightarrow> if cj_is_true api j then 1 else 0)
      else v)"

definition number_setting :: "'j cjson \<Rightarrow> 'j option \<Rightarrow> string \<Rightarrow> u32 \<Rightarrow> u32 \<Rightarrow> u32" where
  "number_setting api section key dflt v =
     (if v = 0 then (case member api section key of None \<Rightarrow> dflt | Some j \<Rightarrow> cj_u32 api (Some j)) else v)"

definition verbosity_setting :: "'j cjson \<Rightarrow> 'j option \<Rightarrow> string \<Rightarrow> u8 \<Rightarrow> u8 \<Rightarrow> u8" where
  "verbosity_setting api section key dflt v =
     (if v = 0 then (case member api section key of None \<Rightarrow> dflt | Some j \<Rightarrow> cj_u8 api (Some j)) else v)"

definition config_load_security_config :: "'j conf_env \<Rightarrow> 'j option \<Rightarrow> boot \<Rightarrow> int \<times> boot" where
  "config_load_security_config env security_config b =
     (let cfg = boot_config b; flag = flag_setting (ce_json env) security_config in
      (0, b\<lparr>boot_config := cfg\<lparr>
         acl_enable := flag ''acl_enable'' CONFIG_DEFAULT_ACL_ENABLE (acl_enable cfg),
         acl_blacklist := flag ''acl_blacklist'' CONFIG_DEFAULT_ACL_BLACKLIST (acl_blacklist cfg),
         dynamic_acl_enable := flag ''dynamic_acl'' CONFIG_DEFAULT_DACL (dynamic_acl_enable cfg)\<rparr>\<rparr>))"

text \<open>The interface of the file is looked up only when the command line gives none.\<close>

definition load_interface :: "'j conf_env \<Rightarrow> 'j option \<Rightarrow> boot \<Rightarrow> (int \<times> boot) c" where
  "load_interface env server_config b =
     cbind (c_string 256 (interface (boot_config b))) (\<lambda>name.
       if name \<noteq> [] then Inr (0, b)
       else case member (ce_json env) server_config ''interface'' of
          None \<Rightarrow> Inr (-1, b)
        | Some j \<Rightarrow> (case cj_string (ce_json env) j of
             None \<Rightarrow> Inl Null_deref
           | Some s \<Rightarrow> config_get_interface_info env
               (b\<lparr>boot_config := (boot_config b)\<lparr>interface := take 255 s\<rparr>\<rparr>)))"

definition load_settings :: "'j conf_env \<Rightarrow> 'j option \<Rightarrow> config \<Rightarrow> config" where
  "load_settings env server_config cfg =
     (let num = number_setting (ce_json env) server_config in
      cfg\<lparr>tick_delay := num ''tick_delay'' CONFIG_DEFAULT_TICK_DELAY (tick_delay cfg),
          cache_size := num ''cache_size'' CONFIG_DEFAULT_CACHE_SIZE (cache_size cfg),
          trans_duration := num ''trans_duration'' CONFIG_DEFAULT_TRANS_DURATION (trans_duration cfg),
          conf_lease_check := num ''lease_expiration_check''
            CONFIG_DEFAULT_LEASE_EXPIRATION_CHECK (conf_lease_check cfg),
          log_verbosity := verbosity_setting (ce_json env) server_config ''log_verbosity''
            CONFIG_DEFAULT_LOG_VERBOSITY (log_verbosity cfg),
          lease_time := num ''lease_time'' CONFIG_DEFAULT_LEASE_TIME (lease_time cfg),
          db_enable := flag_setting (ce_json env) server_config ''db_enable''
            CONFIG_DEFAULT_DB_ENABLE (db_enable cfg)\<rparr>)"

definition config_load_server_config :: "'j conf_env \<Rightarrow> 'j option \<Rightarrow> boot \<Rightarrow> (int \<times> boot) c" where
  "config_load_server_config env server_config b =
     cbind (load_interface env server_config b) (\<lambda>(rv, b).
       if rv < 0 then Inr (-1, b)
       else Inr (0, b\<lparr>boot_config := load_settings env server_config (boot_config b)\<rparr>))"

section \<open>Options and pools of the file\<close>

definition string_bytes :: "string \<Rightarrow> u8 list" where
  "string_bytes s = map of_char s"

text \<open>
  The value of one option of the file: \<open>Inr None\<close> where the code gives up the whole list.
  \<open>dhcp_option_new_values\<close> copies \<open>len\<close> bytes from the variable or the string.
\<close>

definition option_of_json :: "'j cjson \<Rightarrow> u8 \<Rightarrow> u8 \<Rightarrow> 'j \<Rightarrow> dhcp_option option c" where
  "option_of_json api tag lenght value =
     (let new = (\<lambda>bytes. cbind (dhcp_option_new_values (uint tag) (uint lenght) bytes) (\<lambda>o1. Inr (Some o1)))
      in case dhcp_option_tag_to_type (uint tag) of
        DHCP_OPTION_IP \<Rightarrow>
          if \<not> cj_is_string api value then Inr None
          else (case cj_string api value of None \<Rightarrow> Inl Null_deref
                | Some s \<Rightarrow> let val_num = ipv4_address_to_uint32 s
                            in if val_num = 0 then Inr None else new (le_bytes val_num))
      | DHCP_OPTION_NUMERIC \<Rightarrow>
          if \<not> cj_is_number api value then Inr None else new (le_bytes (cj_u32 api (Some value)))
      | DHCP_OPTION_BOOL \<Rightarrow>
          if \<not> cj_is_bool api value then Inr None else new [if cj_is_true api value then 1 else 0]
      | _ \<Rightarrow>
          if \<not> cj_is_string api value then Inr None
          else (case cj_string api value of None \<Rightarrow> Inr None | Some s \<Rightarrow> new (string_bytes s @ [0])))"

fun load_options_loop :: "'j cjson \<Rightarrow> 'j list \<Rightarrow> dhcp_option list \<Rightarrow> (int \<times> dhcp_option list) c" where
  "load_options_loop api [] dest = Inr (0, dest)"
| "load_options_loop api (opt # opts) dest =
     (let tag = cj_u8 api (cj_get api opt ''tag''); lenght = cj_u8 api (cj_get api opt ''lenght'')
      in case cj_get api opt ''value'' of
           None \<Rightarrow> load_options_loop api opts dest
         | Some value \<Rightarrow>
             if tag = 0 \<or> lenght = 0 then load_options_loop api opts dest
             else cbind (option_of_json api tag lenght value) (\<lambda>new_opt.
               case new_opt of None \<Rightarrow> Inr (-1, dest)
               | Some o1 \<Rightarrow> load_options_loop api opts (snd (dhcp_option_add dest (Some o1)))))"

definition config_load_dhcp_options ::
    "'j cjson \<Rightarrow> dhcp_option list \<Rightarrow> 'j option \<Rightarrow> (int \<times> dhcp_option list) c" where
  "config_load_dhcp_options api dest options =
     (case options of None \<Rightarrow> Inr (0, dest) | Some j \<Rightarrow> load_options_loop api (cj_items api j) dest)"

text \<open>An address attribute of a pool; without it the variable keeps its value.\<close>

definition pool_attribute :: "'j cjson \<Rightarrow> 'j \<Rightarrow> string \<Rightarrow> u32 \<Rightarrow> u32 c" where
  "pool_attribute api pool key v =
     (case cj_get api pool key of None \<Rightarrow> Inr v
      | Some j \<Rightarrow> (case cj_string api j of None \<Rightarrow> Inl Null_deref | Some s \<Rightarrow> Inr (ipv4_address_to_uint32 s)))"

text \<open>The variables \<open>pool_name\<close>, \<open>pool_start\<close>, \<open>pool_end\<close> and \<open>pool_mask\<close> live across the loop.\<close>

type_synonym pool_vars = "string option \<times> u32 \<times> u32 \<times> u32"

text \<open>A created pool gets its options and goes into the allocator.\<close>

definition add_loaded_pool :: "'j cjson \<Rightarrow> 'j \<Rightarrow> address_pool option \<Rightarrow> allocator \<Rightarrow> allocator c" where
  "add_loaded_pool api pool new_pool a =
     (case new_pool of None \<Rightarrow> Inr a
      | Some np \<Rightarrow>
          cbind (config_load_dhcp_options api (dhcp_option_override np) (cj_get api pool ''options'')) (\<lambda>(rv, os).
            if rv < 0 then Inr a
            else Inr (snd (allocator_add_pool a (Some (np\<lparr>dhcp_option_override := os\<rparr>))))))"

definition load_pool :: "'j cjson \<Rightarrow> 'j \<Rightarrow> pool_vars \<Rightarrow> allocator \<Rightarrow> (pool_vars \<times> allocator) c" where
  "load_pool api pool vars a =
     (case vars of (name, pstart, pend, pmask) \<Rightarrow>
      let name = (case cj_get api pool ''name'' of None \<Rightarrow> name | Some j \<Rightarrow> cj_string api j) in
      if name = None then Inr ((name, pstart, pend, pmask), a)
      else cbind (pool_attribute api pool ''start'' pstart) (\<lambda>pstart.
        if pstart = 0 then Inr ((name, pstart, pend, pmask), a)
        else cbind (pool_attribute api pool ''end'' pend) (\<lambda>pend.
          if pend = 0 then Inr ((name, pstart, pend, pmask), a)
          else cbind (pool_attribute api pool ''subnet'' pmask) (\<lambda>pmask.
            if pmask = 0 then Inr ((name, pstart, pend, pmask), a)
            else cbind (add_loaded_pool api pool (address_pool_new name pstart pend pmask) a) (\<lambda>a.
              Inr ((name, pstart, pend, pmask), a))))))"

fun load_pools_loop :: "'j cjson \<Rightarrow> 'j list \<Rightarrow> pool_vars \<Rightarrow> allocator \<Rightarrow> allocator c" where
  "load_pools_loop api [] vars a = Inr a"
| "load_pools_loop api (pool # pools) vars a =
     cbind (load_pool api pool vars a) (\<lambda>(vars, a). load_pools_loop api pools vars a)"

definition config_load_pools_config :: "'j conf_env \<Rightarrow> 'j option \<Rightarrow> boot \<Rightarrow> (int \<times> boot) c" where
  "config_load_pools_config env pools_config b =
     (case pools_config of None \<Rightarrow> Inr (0, b)
      | Some j \<Rightarrow>
          cbind (load_pools_loop (ce_json env) (cj_items (ce_json env) j) (None, 0, 0, 0) (boot_allocator b))
            (\<lambda>a. Inr (0, b\<lparr>boot_allocator := a\<rparr>)))"

text \<open>The four sections of the file; \<open>config\<close> is \<open>None\<close> without a readable file.\<close>

definition load_sections :: "'j conf_env \<Rightarrow> 'j option \<Rightarrow> boot \<Rightarrow> (int \<times> boot) c" where
  "load_sections env config b =
     (let api = ce_json env in
      cbind (config_load_server_config env (member api config ''server'') b) (\<lambda>(rv, b).
        if rv < 0 then Inr (-1, b)
        else cbind (config_load_pools_config env (member api config ''pools'') b) (\<lambda>(rv, b).
          if rv < 0 then Inr (-1, b)
          else cbind (config_load_dhcp_options api (default_options (boot_allocator b))
                        (member api config ''options'')) (\<lambda>(rv, os).
            let b = b\<lparr>boot_allocator := (boot_allocator b)\<lparr>default_options := os\<rparr>\<rparr> in
            if rv < 0 then Inr (-1, b)
            else case config_load_security_config env (member api config ''security'') b of
              (rv, b) \<Rightarrow> if rv < 0 then Inr (-1, b) else Inr (0, b)))))"

definition config_load_configuration :: "'j conf_env \<Rightarrow> boot \<Rightarrow> (int \<times> boot) c" where
  "config_load_configuration env b =
     cbind (c_string PATH_MAX (config_path (boot_config b))) (\<lambda>path.
       case config_load_json_file env (if path \<noteq> [] then path else CONFIG_DEFAULT_PATH) of
         None \<Rightarrow> cbind (c_string 256 (interface (boot_config b))) (\<lambda>name.
                   if name = [] then Inr (-1, b) else load_sections env None b)
       | Some config \<Rightarrow> load_sections env (Some config) b)"

section \<open>The command line\<close>

definition config_load_defaults :: "'j conf_env \<Rightarrow> string \<Rightarrow> boot \<Rightarrow> (int \<times> boot) c" where
  "config_load_defaults env optarg b =
     (if 256 \<le> length optarg then Inl Out_of_bounds
      else
        let b = b\<lparr>boot_config := (boot_config b)\<lparr>config_path := CONFIG_DEFAULT_PATH, interface := optarg,
              tick_delay := CONFIG_DEFAULT_TICK_DELAY, cache_size := CONFIG_DEFAULT_CACHE_SIZE,
              trans_duration := CONFIG_DEFAULT_TRANS_DURATION,
              conf_lease_check := CONFIG_DEFAULT_LEASE_EXPIRATION_CHECK,
              log_verbosity := CONFIG_DEFAULT_LOG_VERBOSITY, lease_time := CONFIG_DEFAULT_LEASE_TIME,
              acl_enable := CONFIG_BOOL_FALSE, acl_blacklist := CONFIG_BOOL_FALSE,
              db_enable := CONFIG_DEFAULT_DB_ENABLE, dynamic_acl_enable := CONFIG_DEFAULT_DACL\<rparr>\<rparr>
        in cbind (dhcp_option_new_values 51 4 (le_bytes CONFIG_DEFAULT_LEASE_TIME)) (\<lambda>o1.
           case dhcp_option_add (default_options (boot_allocator b)) (Some o1) of (rv, os) \<Rightarrow>
             let b = b\<lparr>boot_allocator := (boot_allocator b)\<lparr>default_options := os\<rparr>\<rparr> in
             if rv < 0 then Inr (-1, b)
             else case allocator_add_pool (boot_allocator b) (address_pool_new_str (Some CONFIG_DEFAULT_POOL_NAME)
                         CONFIG_DEFAULT_POOL_START CONFIG_DEFAULT_POOL_END CONFIG_DEFAULT_POOL_MASK) of
               (rv, a) \<Rightarrow>
                 let b = b\<lparr>boot_allocator := a\<rparr> in
                 if rv \<noteq> ALLOCATOR_OK then Inr (-1, b)
                 else cbind (config_get_interface_info env b) (\<lambda>(rv, b).
                   if rv < 0 then Inr (-1, b) else Inr (0, b))))"

text \<open>
  \<open>%hhu\<close> stores the low byte of the number; \<open>%w[...]\<close> takes at most \<open>w\<close> characters of a set
  and has to find one; \<open>%ws\<close> skips white space first.
\<close>

definition scan_hhu :: "string \<Rightarrow> (u8 \<times> string) option" where
  "scan_hhu s = map_option (\<lambda>(n, r). (ucast n, r)) (scan_u s)"

definition scan_set :: "nat \<Rightarrow> (char \<Rightarrow> bool) \<Rightarrow> string \<Rightarrow> (string \<times> string) option" where
  "scan_set w P s = (let t = takeWhile P (take w s) in if t = [] then None else Some (t, drop (length t) s))"

definition scan_s :: "nat \<Rightarrow> string \<Rightarrow> (string \<times> string) option" where
  "scan_s w s = scan_set w (\<lambda>c. \<not> is_space c) (dropWhile is_space s)"

text \<open>\<open>sscanf(optarg, "%hhu:%hhu:%[^\n]", ...)\<close>\<close>

definition scan_option :: "string \<Rightarrow> (u8 \<times> u8 \<times> string) option" where
  "scan_option s = do {
     (tag, s) \<leftarrow> scan_hhu s; s \<leftarrow> scan_lit (CHR '':'') s;
     (lenght, s) \<leftarrow> scan_hhu s; s \<leftarrow> scan_lit (CHR '':'') s;
     (value, s) \<leftarrow> scan_set (length s) (\<lambda>c. c \<noteq> CHR 0x0A) s;
     Some (tag, lenght, value) }"

text \<open>The value of the option, \<open>None\<close> where the code rejects it; the union holds 256 bytes.\<close>

definition option_of_text :: "u8 \<Rightarrow> string \<Rightarrow> u8 list option" where
  "option_of_text tag value =
     (case dhcp_option_tag_to_type (uint tag) of
        DHCP_OPTION_NUMERIC \<Rightarrow> (case scan_u value of None \<Rightarrow> None | Some (n, _) \<Rightarrow> Some (le_bytes n))
      | DHCP_OPTION_IP \<Rightarrow>
          let a = ipv4_address_to_uint32 value in if a = 0 then None else Some (le_bytes a)
      | DHCP_OPTION_BOOL \<Rightarrow>
          (case scan_hhu value of None \<Rightarrow> None | Some (v, _) \<Rightarrow> if v \<noteq> 0 \<and> v \<noteq> 1 then None else Some [v])
      | DHCP_OPTION_STRING \<Rightarrow> Some (string_bytes value)
      | DHCP_OPTION_BIN \<Rightarrow> None)"

definition config_add_dhcp_option :: "string \<Rightarrow> boot \<Rightarrow> (int \<times> boot) c" where
  "config_add_dhcp_option optarg b =
     (if optarg = [] then Inr (-1, b)
      else case scan_option optarg of
        None \<Rightarrow> Inr (-1, b)
      | Some (tag, lenght, value) \<Rightarrow>
          if 256 \<le> length value then Inl Out_of_bounds
          else case option_of_text tag value of
            None \<Rightarrow> Inr (-1, b)
          | Some bytes \<Rightarrow>
              let o1 = \<lparr>opt_type = dhcp_option_tag_to_type (uint tag), opt_tag = tag, opt_lenght = lenght,
                        opt_value = bytes @ zeros (union_size - length bytes)\<rparr>
              in case dhcp_option_add (default_options (boot_allocator b)) (Some o1) of
                (rv, os) \<Rightarrow>
                  let b = b\<lparr>boot_allocator := (boot_allocator b)\<lparr>default_options := os\<rparr>\<rparr> in
                  if rv < 0 then Inr (-1, b) else Inr (0, b))"

text \<open>\<open>sscanf(optarg, "%15[^:]:%15[^:]:%15s", ...)\<close>\<close>

definition scan_pool :: "string \<Rightarrow> (string \<times> string \<times> string) option" where
  "scan_pool s = do {
     (pstart, s) \<leftarrow> scan_set 15 (\<lambda>c. c \<noteq> CHR '':'') s; s \<leftarrow> scan_lit (CHR '':'') s;
     (pend, s) \<leftarrow> scan_set 15 (\<lambda>c. c \<noteq> CHR '':'') s; s \<leftarrow> scan_lit (CHR '':'') s;
     (pmask, s) \<leftarrow> scan_s 15 s;
     Some (pstart, pend, pmask) }"

definition config_add_pool :: "string \<Rightarrow> boot \<Rightarrow> int \<times> boot" where
  "config_add_pool optarg b =
     (if optarg = [] then (-1, b)
      else case scan_pool optarg of
        None \<Rightarrow> (-1, b)
      | Some (pstart, pend, pmask) \<Rightarrow>
          case address_pool_new_str (Some ''pool'') pstart pend pmask of
            None \<Rightarrow> (-1, b)
          | Some pool \<Rightarrow>
              case allocator_add_pool (boot_allocator b) (Some pool) of
                (rv, a) \<Rightarrow> if rv \<noteq> ALLOCATOR_OK then (rv, b\<lparr>boot_allocator := a\<rparr>)
                           else (0, b\<lparr>boot_allocator := a\<rparr>))"

text \<open>A use of \<open>optarg\<close>, which is NULL for an option without argument.\<close>

definition with_arg :: "string option \<Rightarrow> (string \<Rightarrow> 'a c) \<Rightarrow> 'a c" where
  "with_arg optarg f = (case optarg of None \<Rightarrow> Inl Null_deref | Some s \<Rightarrow> f s)"

text \<open>\<open>sscanf(optarg, "%u", &field) != 1\<close> leaves the field alone and gives \<open>-1\<close>.\<close>

definition set_u32 :: "string option \<Rightarrow> (u32 \<Rightarrow> config \<Rightarrow> config) \<Rightarrow> boot \<Rightarrow> (bool \<times> int \<times> boot) c" where
  "set_u32 optarg upd b = with_arg optarg (\<lambda>s.
     case scan_u s of None \<Rightarrow> Inr (False, -1, b)
     | Some (n, _) \<Rightarrow> Inr (False, 0, b\<lparr>boot_config := upd n (boot_config b)\<rparr>))"

definition set_config :: "(config \<Rightarrow> config) \<Rightarrow> boot \<Rightarrow> (bool \<times> int \<times> boot) c" where
  "set_config upd b = Inr (False, 0, b\<lparr>boot_config := upd (boot_config b)\<rparr>)"

text \<open>The body of the loop; the first result says whether it jumps to the exit.\<close>

definition handle_option ::
    "'j conf_env \<Rightarrow> nat \<Rightarrow> nat \<Rightarrow> string option \<Rightarrow> boot \<Rightarrow> (bool \<times> int \<times> boot) c" where
  "handle_option env argc opt optarg b =
     (if opt = of_char (CHR ''v'') then Inr (True, CONFIG_EXIT_PROGRAM, b)
      else if opt = of_char (CHR ''h'') then Inr (True, CONFIG_EXIT_PROGRAM, b)
      else if opt = of_char (CHR ''c'') then
        with_arg optarg (\<lambda>s. set_config (\<lambda>cfg. cfg\<lparr>config_path := take PATH_MAX s\<rparr>) b)
      else if opt = of_char (CHR ''i'') then
        with_arg optarg (\<lambda>s. set_config (\<lambda>cfg. cfg\<lparr>interface := take 256 s\<rparr>) b)
      else if opt = of_char (CHR ''d'') then set_u32 optarg (\<lambda>n cfg. cfg\<lparr>tick_delay := n\<rparr>) b
      else if opt = of_char (CHR ''s'') then set_u32 optarg (\<lambda>n cfg. cfg\<lparr>cache_size := n\<rparr>) b
      else if opt = of_char (CHR ''t'') then set_u32 optarg (\<lambda>n cfg. cfg\<lparr>trans_duration := n\<rparr>) b
      else if opt = of_char (CHR ''e'') then set_u32 optarg (\<lambda>n cfg. cfg\<lparr>conf_lease_check := n\<rparr>) b
      else if opt = of_char (CHR ''l'') then set_u32 optarg (\<lambda>n cfg. cfg\<lparr>lease_time := n\<rparr>) b
      else if opt = of_char (CHR ''p'') then
        with_arg optarg (\<lambda>s. case config_add_pool s b of (rv, b) \<Rightarrow> Inr (False, rv, b))
      else if opt = of_char (CHR ''o'') then
        with_arg optarg (\<lambda>s. cbind (config_add_dhcp_option s b) (\<lambda>(rv, b). Inr (False, rv, b)))
      else if opt = 1 then
        (if argc \<noteq> 3 then Inr (True, -1, b)
         else with_arg optarg (\<lambda>s. cbind (config_load_defaults env s b) (\<lambda>(_, b). Inr (False, 0, b))))
      else if opt = 2 then
        with_arg optarg (\<lambda>s. case scan_hhu s of None \<Rightarrow> Inr (False, -1, b)
          | Some (n, _) \<Rightarrow> set_config (\<lambda>cfg. cfg\<lparr>log_verbosity := n\<rparr>) b)
      else if opt = 3 then set_config (\<lambda>cfg. cfg\<lparr>acl_enable := CONFIG_BOOL_FALSE\<rparr>) b
      else if opt = 4 then set_config (\<lambda>cfg. cfg\<lparr>acl_blacklist := CONFIG_BOOL_FALSE\<rparr>) b
      else if opt = 5 then set_config (\<lambda>cfg. cfg\<lparr>dynamic_acl_enable := CONFIG_BOOL_FALSE\<rparr>) b
      else if opt = 6 then set_config (\<lambda>cfg. cfg\<lparr>db_enable := CONFIG_BOOL_FALSE\<rparr>) b
      else Inr (False, -1, b))"

function parse_arguments_loop ::
    "'j conf_env \<Rightarrow> nat \<Rightarrow> string \<Rightarrow> string list \<Rightarrow> int \<Rightarrow> boot \<Rightarrow> (int \<times> boot) c" where
  "parse_arguments_loop env argc nc args rv b =
     (case getopt_long nc args of
        None \<Rightarrow> Inr (rv, b)
      | Some (opt, optarg, nc', args') \<Rightarrow>
          if rv \<noteq> 0 then Inr (rv, b)
          else cbind (handle_option env argc opt optarg b) (\<lambda>(stop, rv, b).
            if stop then Inr (rv, b) else parse_arguments_loop env argc nc' args' rv b))"
  by pat_completeness auto
termination
  by (relation "measure (\<lambda>(env, argc, nc, args, rv, b). input_size nc args)") (auto dest: getopt_long_size)

declare parse_arguments_loop.simps [simp del]

text \<open>\<open>args\<close> is \<open>argv\<close> without the program name.\<close>

definition config_parse_arguments :: "'j conf_env \<Rightarrow> string list \<Rightarrow> boot \<Rightarrow> (int \<times> boot) c" where
  "config_parse_arguments env args b =
     (let b = b\<lparr>boot_config := (boot_config b)\<lparr>acl_enable := CONFIG_UNTOUCHED,
            acl_blacklist := CONFIG_UNTOUCHED, db_enable := CONFIG_UNTOUCHED,
            dynamic_acl_enable := CONFIG_UNTOUCHED\<rparr>\<rparr>
      in parse_arguments_loop env (Suc (length args)) [] args 0 b)"

end
