(* ===== verification/Configuration.thy ===== *)
theory Configuration
  imports Config
begin

text \<open>
  Lemmas and properties of the configuration: the pools and options it leaves in the
  allocator are fresh and unique whatever the command line and the file say, which
  settings it resolves, and the command lines and files on which it goes wrong.
\<close>

section \<open>What the configuration builds\<close>

definition small_pool :: "address_pool \<Rightarrow> bool" where
  "small_pool p \<longleftrightarrow> end_address p - start_address p < 0xFFFFFFF8"

text \<open>A pool as \<open>address_pool_new\<close> makes it, perhaps with more options.\<close>

definition fresh_pool :: "address_pool \<Rightarrow> bool" where
  "fresh_pool p \<longleftrightarrow> (\<exists>p0. address_pool_new (Some (pool_name p)) (start_address p) (end_address p) (pool_mask p) =
       Some p0 \<and> p = p0\<lparr>dhcp_option_override := dhcp_option_override p\<rparr>) \<and>
     (\<exists>os. dhcp_option_override p = subnet_mask_option (pool_mask p) # os) \<and>
     distinct (map opt_tag (dhcp_option_override p))"

definition fresh_allocator :: "allocator \<Rightarrow> bool" where
  "fresh_allocator a \<longleftrightarrow> (\<forall>p \<in> set (address_pools a). fresh_pool p) \<and>
     distinct (map pool_name (address_pools a)) \<and> distinct (map opt_tag (default_options a))"

lemma override_irrelevant [simp]:
  "pool_dom (p\<lparr>dhcp_option_override := os\<rparr>) = pool_dom p"
  "pool_used (p\<lparr>dhcp_option_override := os\<rparr>) = pool_used p"
  "wf_pool (p\<lparr>dhcp_option_override := os\<rparr>) = wf_pool p"
  by (simp_all add: pool_dom_def pool_used_def in_use_def slot_def wf_pool_def)

lemma fresh_pool_wf:
  assumes "fresh_pool p" "small_pool p"
  shows "wf_pool p \<and> pool_used p = {}"
proof -
  from assms(1) obtain p0 where new: "address_pool_new (Some (pool_name p)) (start_address p) (end_address p) (pool_mask p) =
      Some p0" and p: "p = p0\<lparr>dhcp_option_override := dhcp_option_override p\<rparr>"
    by (auto simp: fresh_pool_def)
  from wf_pool_new[OF new] assms(2) have "wf_pool p0 \<and> pool_used p0 = {}" by (simp add: small_pool_def)
  then show ?thesis by (subst (1 2) p) simp
qed

lemma new_pool_positive:
  assumes "address_pool_new name s e m = Some p"
  shows "0 \<notin> pool_dom p"
proof -
  have s: "(s AND m) + 1 \<le> s" "s < e"
    using assms by (auto simp: address_pool_new_def can_range_be_on_subnet_def Let_def split: option.splits if_splits)
  have "s \<noteq> 0"
  proof
    assume "s = 0"
    with s(1) show False by simp
  qed
  then show ?thesis using address_pool_new_Some(7)[OF assms] by auto
qed

lemma fresh_pool_positive: "fresh_pool p \<Longrightarrow> 0 \<notin> pool_dom p"
proof -
  assume "fresh_pool p"
  then obtain p0 where new: "address_pool_new (Some (pool_name p)) (start_address p) (end_address p) (pool_mask p) =
      Some p0" and p: "p = p0\<lparr>dhcp_option_override := dhcp_option_override p\<rparr>"
    by (auto simp: fresh_pool_def)
  show ?thesis using new_pool_positive[OF new] by (subst p) simp
qed

lemma fresh_pool_new:
  assumes "address_pool_new name s e m = Some p" "dhcp_option_override p' = dhcp_option_override p @ os"
    "distinct (map opt_tag (dhcp_option_override p'))" "p' = p\<lparr>dhcp_option_override := dhcp_option_override p'\<rparr>"
  shows "fresh_pool p'"
proof -
  note facts = address_pool_new_Some[OF assms(1)]
  have "pool_name p' = pool_name p" "start_address p' = s" "end_address p' = e" "pool_mask p' = m"
    by (subst assms(4), simp add: facts)+
  then show ?thesis using assms facts by (auto simp: fresh_pool_def)
qed

lemma fresh_allocator_add_pool:
  assumes "fresh_allocator a" "fresh_pool p"
  shows "fresh_allocator (snd (allocator_add_pool a (Some p)))"
  using assms by (auto simp: fresh_allocator_def allocator_add_pool_def allocator_get_pool_by_name_def
      find_index_None image_iff)

lemma fresh_allocator_new: "fresh_allocator address_allocator_new"
  by (simp add: fresh_allocator_def address_allocator_new_def)

section \<open>The file\<close>

lemma dhcp_option_add_extends: "\<exists>xs. snd (dhcp_option_add os o1) = os @ xs"
  by (simp add: dhcp_option_add_def split: option.split)

lemma load_options_loop_extends:
  "load_options_loop api js os = Inr (rv, os') \<Longrightarrow>
     (\<exists>xs. os' = os @ xs) \<and> (distinct (map opt_tag os) \<longrightarrow> distinct (map opt_tag os'))"
proof (induction api js os rule: load_options_loop.induct)
  case (2 api opt opts dest)
  show ?case
  proof (cases "\<exists>value o1. cj_get api opt ''value'' = Some value \<and> cj_u8 api (cj_get api opt ''tag'') \<noteq> 0 \<and>
      cj_u8 api (cj_get api opt ''lenght'') \<noteq> 0 \<and>
      option_of_json api (cj_u8 api (cj_get api opt ''tag'')) (cj_u8 api (cj_get api opt ''lenght'')) value = Inr (Some o1)")
    case True
    then obtain val o1 where v: "cj_get api opt ''value'' = Some val" "cj_u8 api (cj_get api opt ''tag'') \<noteq> 0"
        "cj_u8 api (cj_get api opt ''lenght'') \<noteq> 0"
        "option_of_json api (cj_u8 api (cj_get api opt ''tag'')) (cj_u8 api (cj_get api opt ''lenght'')) val = Inr (Some o1)"
      by blast
    with 2 have "(\<exists>xs. os' = snd (dhcp_option_add dest (Some o1)) @ xs) \<and>
        (distinct (map opt_tag (snd (dhcp_option_add dest (Some o1)))) \<longrightarrow> distinct (map opt_tag os'))"
      by (auto simp: Let_def)
    with dhcp_option_add_extends[of dest "Some o1"] dhcp_option_add_distinct[of dest "Some o1"]
    show ?thesis by fastforce
  next
    case False
    with 2 show ?thesis by (auto simp: Let_def split: option.splits if_splits)
  qed
qed simp

lemma config_load_dhcp_options_extends:
  "config_load_dhcp_options api os j = Inr (rv, os') \<Longrightarrow>
     (\<exists>xs. os' = os @ xs) \<and> (distinct (map opt_tag os) \<longrightarrow> distinct (map opt_tag os'))"
  by (auto simp: config_load_dhcp_options_def split: option.splits dest: load_options_loop_extends)

lemma load_pool_fresh:
  assumes "load_pool api pool vars a = Inr (vars', a')" "fresh_allocator a"
  shows "fresh_allocator a'"
proof -
  have "fresh_allocator a'" if new: "add_loaded_pool api pool (address_pool_new name s e m) a = Inr a'" for name s e m
  proof (cases "address_pool_new name s e m")
    case None
    with new assms(2) show ?thesis by (simp add: add_loaded_pool_def)
  next
    case (Some np)
    from new Some obtain rv os where opts: "config_load_dhcp_options api (dhcp_option_override np) (cj_get api pool ''options'') =
        Inr (rv, os)" and a': "a' = a \<or> a' = snd (allocator_add_pool a (Some (np\<lparr>dhcp_option_override := os\<rparr>)))"
      by (auto simp: add_loaded_pool_def split: if_splits)
    have d: "distinct (map opt_tag (dhcp_option_override np))"
      using address_pool_new_Some(10)[OF Some] by simp
    with config_load_dhcp_options_extends[OF opts] obtain xs where "os = dhcp_option_override np @ xs" "distinct (map opt_tag os)"
      by auto
    with Some have "fresh_pool (np\<lparr>dhcp_option_override := os\<rparr>)" by (auto intro!: fresh_pool_new)
    with a' assms(2) show ?thesis by (auto intro: fresh_allocator_add_pool)
  qed
  with assms show ?thesis
    by (auto simp: load_pool_def Let_def split: prod.splits if_splits)
qed

lemma load_pools_loop_fresh:
  "load_pools_loop api pools vars a = Inr a' \<Longrightarrow> fresh_allocator a \<Longrightarrow> fresh_allocator a'"
  by (induction pools arbitrary: vars a) (auto dest: load_pool_fresh)

lemma interface_info_allocator:
  "config_get_interface_info env b = Inr (rv, b') \<Longrightarrow> boot_allocator b' = boot_allocator b"
  by (auto simp: config_get_interface_info_def Let_def split: option.splits if_splits)

lemma load_server_allocator:
  "config_load_server_config env j b = Inr (rv, b') \<Longrightarrow> boot_allocator b' = boot_allocator b"
  by (auto simp: config_load_server_config_def load_interface_def dest: interface_info_allocator
      split: option.splits if_splits)

lemma load_options_loop_rv: "load_options_loop api js os = Inr (rv, os') \<Longrightarrow> rv = 0 \<or> rv = -1"
  by (induction js arbitrary: os) (auto simp: Let_def split: option.splits if_splits)

lemma load_dhcp_options_rv: "config_load_dhcp_options api os j = Inr (rv, os') \<Longrightarrow> rv = 0 \<or> rv = -1"
  by (auto simp: config_load_dhcp_options_def split: option.splits dest: load_options_loop_rv)

lemma load_server_rv: "config_load_server_config env j b = Inr (rv, b') \<Longrightarrow> rv = 0 \<or> rv = -1"
  by (auto simp: config_load_server_config_def split: if_splits)

lemma load_pools_cases:
  assumes "config_load_pools_config env j b = Inr (rv, b')"
  obtains a where "rv = 0" "b' = b\<lparr>boot_allocator := a\<rparr>" "fresh_allocator (boot_allocator b) \<Longrightarrow> fresh_allocator a"
proof (cases j)
  case None
  with assms have "rv = 0" "b' = b" by (simp_all add: config_load_pools_config_def)
  then show ?thesis using that[of "boot_allocator b"] by simp
next
  case (Some js)
  with assms obtain a where a: "load_pools_loop (ce_json env) (cj_items (ce_json env) js) (None, 0, 0, 0) (boot_allocator b) = Inr a"
    "rv = 0" "b' = b\<lparr>boot_allocator := a\<rparr>"
    by (auto simp: config_load_pools_config_def)
  then show ?thesis using that[of a] load_pools_loop_fresh[OF a(1)] by blast
qed

text \<open>A configuration file that was loaded successfully, step by step.\<close>

lemma load_configuration_cases:
  assumes "config_load_configuration env b = Inr (0, b')"
  obtains j b1 b2 os where
    "config_load_server_config env (member (ce_json env) j ''server'') b = Inr (0, b1)"
    "config_load_pools_config env (member (ce_json env) j ''pools'') b1 = Inr (0, b2)"
    "config_load_dhcp_options (ce_json env) (default_options (boot_allocator b2)) (member (ce_json env) j ''options'') = Inr (0, os)"
    "b' = snd (config_load_security_config env (member (ce_json env) j ''security'')
       (b2\<lparr>boot_allocator := (boot_allocator b2)\<lparr>default_options := os\<rparr>\<rparr>))"
proof -
  obtain j where "load_sections env j b = Inr (0, b')"
    using assms by (auto simp: config_load_configuration_def split: option.splits if_splits)
  then obtain rv b1 rv2 b2 rv3 os where steps:
    "config_load_server_config env (member (ce_json env) j ''server'') b = Inr (rv, b1)" "\<not> rv < 0"
    "config_load_pools_config env (member (ce_json env) j ''pools'') b1 = Inr (rv2, b2)"
    "config_load_dhcp_options (ce_json env) (default_options (boot_allocator b2)) (member (ce_json env) j ''options'') = Inr (rv3, os)"
    "\<not> rv3 < 0" "b' = snd (config_load_security_config env (member (ce_json env) j ''security'')
       (b2\<lparr>boot_allocator := (boot_allocator b2)\<lparr>default_options := os\<rparr>\<rparr>))"
    by (auto simp: load_sections_def Let_def split_def split: if_splits)
  moreover have "rv = 0" "rv2 = 0" "rv3 = 0"
    using steps load_server_rv[OF steps(1)] load_dhcp_options_rv[OF steps(4)]
    by (auto elim: load_pools_cases)
  ultimately show ?thesis using that by blast
qed

lemma load_configuration_fresh:
  assumes "config_load_configuration env b = Inr (0, b')" "fresh_allocator (boot_allocator b)"
  shows "fresh_allocator (boot_allocator b')"
  using assms(1)
proof (cases rule: load_configuration_cases)
  case (1 j b1 b2 os)
  have "fresh_allocator (boot_allocator b1)" using load_server_allocator[OF 1(1)] assms(2) by simp
  with 1(2) have f: "fresh_allocator (boot_allocator b2)" by (auto elim: load_pools_cases)
  with config_load_dhcp_options_extends[OF 1(3)] 1(4) show ?thesis
    by (auto simp: fresh_allocator_def config_load_security_config_def Let_def)
qed

section \<open>The command line\<close>

text \<open>The arguments that remain are some of those given.\<close>

lemma take_argument_args: "take_argument v args = (opt, arg, nc', args') \<Longrightarrow> set args' \<subseteq> set args"
  by (auto simp: take_argument_def split: list.splits)

lemma short_option_args: "short_option c cs args = (opt, arg, nc', args') \<Longrightarrow> set args' \<subseteq> set args"
  using take_argument_args[of "of_char c" args]
  by (auto simp: short_option_def split: option.splits has_arg.splits if_splits)

lemma long_option_args: "long_option s args = (opt, arg, nc', args') \<Longrightarrow> set args' \<subseteq> set args"
  using take_argument_args[of _ args]
  by (auto simp: long_option_def Let_def split: option.splits has_arg.splits if_splits) blast

lemma getopt_long_args: "getopt_long nc args = Some (opt, arg, nc', args') \<Longrightarrow> set args' \<subseteq> set args"
proof (induction nc args rule: getopt_long.induct)
  case (3 a args)
  then show ?case
    by (fastforce dest: short_option_args long_option_args split: if_splits list.splits)
qed (auto dest: short_option_args)

text \<open>What every option keeps, the whole command line keeps.\<close>

lemma parse_arguments_keeps:
  assumes "parse_arguments_loop env argc nc args rv b = Inr (rv', b')" "P b" "set args \<subseteq> A"
    and "\<And>nc args opt arg nc' args' b stop rv b'. getopt_long nc args = Some (opt, arg, nc', args') \<Longrightarrow>
      set args \<subseteq> A \<Longrightarrow> handle_option env argc opt arg b = Inr (stop, rv, b') \<Longrightarrow> P b \<Longrightarrow> P b'"
  shows "P b'"
  using assms
proof (induction env argc nc args rv b rule: parse_arguments_loop.induct)
  case (1 env argc nc args rv b)
  show ?case
  proof (cases "getopt_long nc args")
    case None
    with "1.prems" show ?thesis by (simp add: parse_arguments_loop.simps)
  next
    case (Some r)
    obtain opt arg nc' args' where r: "r = (opt, arg, nc', args')" by (cases r) auto
    show ?thesis
    proof (cases "rv = 0")
      case False
      with Some r "1.prems"(1,2) show ?thesis by (simp add: parse_arguments_loop.simps)
    next
      case True
      with Some r "1.prems"(1) obtain stop rv2 b2 where h: "handle_option env argc opt arg b = Inr (stop, rv2, b2)"
        and rest: "stop \<and> b' = b2 \<or> \<not> stop \<and> parse_arguments_loop env argc nc' args' rv2 b2 = Inr (rv', b')"
        by (auto simp: parse_arguments_loop.simps[of env argc nc] split: if_splits)
      have b2: "P b2" using "1.prems"(4)[OF Some[unfolded r] "1.prems"(3) h "1.prems"(2)] .
      have sub: "set args' \<subseteq> A" using getopt_long_args[OF Some[unfolded r]] "1.prems"(3) by blast
      have "P b'" if "\<not> stop" "parse_arguments_loop env argc nc' args' rv2 b2 = Inr (rv', b')"
        by (rule "1.IH"[OF Some r[symmetric] refl refl _ h refl refl that b2 sub]) (use True "1.prems"(4) in blast)+
      with rest b2 show ?thesis by blast
    qed
  qed
qed

lemma add_pool_fresh:
  assumes "config_add_pool s b = (rv, b')" "fresh_allocator (boot_allocator b)"
  shows "fresh_allocator (boot_allocator b')"
proof -
  have "fresh_pool p" if "address_pool_new_str name x y z = Some p" for name x y z p
    using that address_pool_new_Some(10) unfolding address_pool_new_str_def
    by (intro fresh_pool_new) auto
  with assms show ?thesis
    by (auto simp: config_add_pool_def split_def fresh_allocator_add_pool split: option.splits if_splits prod.splits)
qed

lemma fresh_default_options:
  "fresh_allocator a \<Longrightarrow> fresh_allocator (a\<lparr>default_options := snd (dhcp_option_add (default_options a) o1)\<rparr>)"
  by (simp add: fresh_allocator_def dhcp_option_add_distinct)

lemma add_option_fresh:
  "config_add_dhcp_option s b = Inr (rv, b') \<Longrightarrow> fresh_allocator (boot_allocator b) \<Longrightarrow> fresh_allocator (boot_allocator b')"
  by (auto simp: config_add_dhcp_option_def Let_def split_def fresh_default_options split: option.splits if_splits prod.splits)

lemma load_defaults_fresh:
  assumes "config_load_defaults env s b = Inr (rv, b')" "fresh_allocator (boot_allocator b)"
  shows "fresh_allocator (boot_allocator b')"
proof -
  have "fresh_pool p" if "address_pool_new_str name x y z = Some p" for name x y z p
    using that address_pool_new_Some(10) unfolding address_pool_new_str_def
    by (intro fresh_pool_new) auto
  then have add: "fresh_allocator (snd (allocator_add_pool a (address_pool_new_str name x y z)))" if "fresh_allocator a" for a name x y z
    using that by (cases "address_pool_new_str name x y z") (auto simp: fresh_allocator_add_pool allocator_add_pool_def[of _ None])
  have info: "boot_allocator b2 = boot_allocator b1" if "config_get_interface_info env b1 = Inr (rv, b2)" for b1 b2 rv
    using that by (rule interface_info_allocator)
  show ?thesis
    using assms unfolding config_load_defaults_def Let_def split_def
    by (elim cbindE if_cases) (auto dest!: info intro!: add fresh_default_options)
qed

lemma handle_option_fresh:
  assumes "handle_option env argc opt arg b = Inr (stop, rv, b')" "fresh_allocator (boot_allocator b)"
  shows "fresh_allocator (boot_allocator b')"
  using assms unfolding handle_option_def set_u32_def set_config_def with_arg_def
  by (elim if_cases)
    (auto split: option.splits prod.splits intro: add_pool_fresh add_option_fresh load_defaults_fresh)

lemma parse_arguments_fresh:
  assumes "config_parse_arguments env args b = Inr (rv, b')" "fresh_allocator (boot_allocator b)"
  shows "fresh_allocator (boot_allocator b')"
  using assms unfolding config_parse_arguments_def Let_def
  by (elim parse_arguments_keeps[where P = "\<lambda>b. fresh_allocator (boot_allocator b)" and A = UNIV])
    (auto intro: handle_option_fresh)

section \<open>The flags\<close>

definition flags_in :: "u8 set \<Rightarrow> config \<Rightarrow> bool" where
  "flags_in S cfg \<longleftrightarrow> {acl_enable cfg, acl_blacklist cfg, db_enable cfg, dynamic_acl_enable cfg} \<subseteq> S"

lemma flags_in_simps [simp]:
  "flags_in S (cfg\<lparr>config_path := s\<rparr>) = flags_in S cfg"
  "flags_in S (cfg\<lparr>interface := s\<rparr>) = flags_in S cfg"
  "flags_in S (cfg\<lparr>tick_delay := w\<rparr>) = flags_in S cfg"
  "flags_in S (cfg\<lparr>cache_size := w\<rparr>) = flags_in S cfg"
  "flags_in S (cfg\<lparr>trans_duration := w\<rparr>) = flags_in S cfg"
  "flags_in S (cfg\<lparr>conf_lease_check := w\<rparr>) = flags_in S cfg"
  "flags_in S (cfg\<lparr>lease_time := w\<rparr>) = flags_in S cfg"
  "flags_in S (cfg\<lparr>log_verbosity := v\<rparr>) = flags_in S cfg"
  "flags_in S (cfg\<lparr>conf_bound_ip := w\<rparr>) = flags_in S cfg"
  "flags_in S (cfg\<lparr>conf_broadcast_addr := w\<rparr>) = flags_in S cfg"
  by (simp_all add: flags_in_def)

lemma interface_loop_flags [simp]: "flags_in S (interface_loop name ifs cfg) = flags_in S cfg"
  by (induction name ifs cfg rule: interface_loop.induct)
    (auto simp: Let_def split: option.splits sockaddr.splits)

lemma interface_info_flags:
  "config_get_interface_info env b = Inr (rv, b') \<Longrightarrow> flags_in S (boot_config b') = flags_in S (boot_config b)"
  by (auto simp: config_get_interface_info_def Let_def split: option.splits if_splits)

lemma add_pool_config: "config_add_pool s b = (rv, b') \<Longrightarrow> boot_config b' = boot_config b"
  by (auto simp: config_add_pool_def split: option.splits if_splits prod.splits)

lemma add_option_config: "config_add_dhcp_option s b = Inr (rv, b') \<Longrightarrow> boot_config b' = boot_config b"
  by (auto simp: config_add_dhcp_option_def Let_def split: option.splits if_splits prod.splits)

lemma load_defaults_flags:
  assumes "config_load_defaults env s b = Inr (rv, b')"
  shows "flags_in {0, 1} (boot_config b')"
  using assms unfolding config_load_defaults_def Let_def split_def
  by (elim cbindE if_cases) (auto dest!: interface_info_flags[where S = "{0, 1}"] simp: flags_in_def)

lemma flags_in_mono: "flags_in S cfg \<Longrightarrow> S \<subseteq> T \<Longrightarrow> flags_in T cfg"
  by (auto simp: flags_in_def)

lemma handle_option_flags:
  assumes "handle_option env argc opt arg b = Inr (stop, rv, b')" "flags_in {0, 1, 2} (boot_config b)"
  shows "flags_in {0, 1, 2} (boot_config b')"
  using assms unfolding handle_option_def set_u32_def set_config_def with_arg_def
  by (elim if_cases)
    (auto split: option.splits prod.splits dest!: add_pool_config add_option_config load_defaults_flags
      intro: flags_in_mono, auto simp: flags_in_def)

lemma parse_arguments_flags:
  assumes "config_parse_arguments env args b = Inr (rv, b')"
  shows "flags_in {0, 1, 2} (boot_config b')"
  using assms unfolding config_parse_arguments_def Let_def
  by (elim parse_arguments_keeps[where P = "\<lambda>b. flags_in {0, 1, 2} (boot_config b)" and A = UNIV])
    (blast intro: handle_option_flags | simp add: flags_in_def)+

lemma flag_setting_resolves: "v \<in> {0, 1, 2} \<Longrightarrow> d \<in> {0, 1} \<Longrightarrow> flag_setting api j key d v \<in> {0, 1}"
  by (auto simp: flag_setting_def split: option.split)

lemma load_interface_flags:
  "load_interface env j b = Inr (rv, b') \<Longrightarrow> flags_in S (boot_config b') = flags_in S (boot_config b)"
  by (auto simp: load_interface_def dest: interface_info_flags[where S = S] split: option.splits if_splits)

lemma load_configuration_flags:
  assumes "config_load_configuration env b = Inr (0, b')" "flags_in {0, 1, 2} (boot_config b)"
  shows "flags_in {0, 1} (boot_config b')"
  using assms(1)
proof (cases rule: load_configuration_cases)
  case (1 j b1 b2 os)
  let ?server = "member (ce_json env) j ''server''" and ?security = "member (ce_json env) j ''security''"
  obtain rv b0 where b0: "load_interface env ?server b = Inr (rv, b0)" "b1 = b0\<lparr>boot_config := load_settings env ?server (boot_config b0)\<rparr>"
    using 1(1) by (auto simp: config_load_server_config_def split: if_splits)
  have f0: "flags_in {0, 1, 2} (boot_config b0)"
    using load_interface_flags[OF b0(1)] assms(2) by blast
  have b2: "boot_config b2 = load_settings env ?server (boot_config b0)"
    using 1(2) b0(2) by (auto elim: load_pools_cases)
  have eqs: "acl_enable (boot_config b') = flag_setting (ce_json env) ?security ''acl_enable'' 1 (acl_enable (boot_config b0))"
    "acl_blacklist (boot_config b') = flag_setting (ce_json env) ?security ''acl_blacklist'' 1 (acl_blacklist (boot_config b0))"
    "dynamic_acl_enable (boot_config b') = flag_setting (ce_json env) ?security ''dynamic_acl'' 1 (dynamic_acl_enable (boot_config b0))"
    "db_enable (boot_config b') = flag_setting (ce_json env) ?server ''db_enable'' 1 (db_enable (boot_config b0))"
    by (simp_all add: 1(4) b2 config_load_security_config_def load_settings_def Let_def)
  from f0 have "acl_enable (boot_config b0) \<in> {0, 1, 2}" "acl_blacklist (boot_config b0) \<in> {0, 1, 2}"
    "dynamic_acl_enable (boot_config b0) \<in> {0, 1, 2}" "db_enable (boot_config b0) \<in> {0, 1, 2}"
    unfolding flags_in_def insert_subset by blast+
  then show ?thesis
    unfolding flags_in_def insert_subset eqs by (intro conjI flag_setting_resolves) auto
qed

section \<open>The interface\<close>

lemma find_long_default:
  assumes "find_long name = Some (x, 1)"
  shows "take 2 name = ''de''"
  supply One_nat_def [simp del]
proof (cases "map_of long_options name")
  case (Some y)
  with assms have "(name, x, 1) \<in> set long_options" by (auto simp: find_long_def dest: map_of_SomeD)
  then show ?thesis by (simp add: long_options_def)
next
  case None
  with assms obtain n where one: "filter (\<lambda>(n, _). take (length name) n = name) long_options = [(n, x, 1)]"
    by (auto simp: find_long_def split: list.splits)
  then have "(n, x, 1) \<in> set (filter (\<lambda>(n, _). take (length name) n = name) long_options)"
    by (simp only: list.set_intros)
  then have "(n, x, 1) \<in> set long_options" "take (length name) n = name" by auto
  then have name: "take (length name) ''default-configuration'' = name" by (auto simp: long_options_def)
  have "\<not> length name < 2"
  proof
    assume "length name < 2"
    then have "length name = 0 \<or> length name = 1" by linarith
    with name have "name = [] \<or> name = ''d''" by (auto simp: One_nat_def)
    with one show False by (auto simp: long_options_def)
  qed
  then have "take 2 (take (length name) ''default-configuration'') = ''de''" by (simp add: min_def)
  with name show ?thesis by simp
qed

lemma take_argument_default: "take_argument v args = (1, r) \<Longrightarrow> v = 1"
  by (auto simp: take_argument_def split: list.splits)

lemma short_option_default: "short_option c cs args \<noteq> (1, r)"
  supply One_nat_def [simp del]
proof
  assume "short_option c cs args = (1, r)"
  then have "of_char c = (1::nat)" "map_of short_options c \<noteq> None"
    by (auto simp: short_option_def dest!: take_argument_default split: option.splits has_arg.splits if_splits)
  then have "(of_char c :: nat) \<in> of_char ` fst ` set short_options" "of_char c = (1::nat)"
    by (auto simp: map_of_eq_None_iff)
  then show False by (simp add: short_options_def)
qed

lemma long_option_default: "long_option s args = (1, r) \<Longrightarrow> take 2 s = ''de''"
  supply One_nat_def [simp del]
proof -
  assume "long_option s args = (1, r)"
  then obtain x where "find_long (takeWhile (\<lambda>c. c \<noteq> CHR ''='') s) = Some (x, 1)"
    by (auto simp: long_option_def Let_def dest!: take_argument_default split: option.splits has_arg.splits if_splits)
  then have "take 2 (takeWhile (\<lambda>c. c \<noteq> CHR ''='') s) = ''de''" by (rule find_long_default)
  then obtain r where "takeWhile (\<lambda>c. c \<noteq> CHR ''='') s = ''de'' @ r" by (metis append_take_drop_id)
  then have "s = ''de'' @ r @ dropWhile (\<lambda>c. c \<noteq> CHR ''='') s" by (metis append_assoc takeWhile_dropWhile_id)
  then show ?thesis by (metis append_Cons append_Nil take0 take_Suc_Cons numeral_2_eq_2)
qed

lemma getopt_default:
  assumes "getopt_long nc args = Some (1, r)"
  shows "\<exists>a \<in> set args. take 4 a = ''--de''"
  supply One_nat_def [simp del]
  using assms
proof (induction nc args rule: getopt_long.induct)
  case (3 a args)
  show ?case
  proof (cases "take 2 a = ''--''")
    case True
    with 3 have "take 2 (drop 2 a) = ''de''" by (auto dest: long_option_default split: if_splits)
    with True have "take 2 a @ take 2 (drop 2 a) = ''--de''" by simp
    then have "take 4 a = ''--de''" by (simp add: take_add[symmetric])
    then show ?thesis by simp
  next
    case False
    with 3 short_option_default show ?thesis by (auto split: if_splits list.splits)
  qed
qed (auto simp: short_option_default)

text \<open>The addresses of the interface stay as they are without \<open>--default-configuration\<close>.\<close>

definition no_address :: "config \<Rightarrow> bool" where
  "no_address cfg \<longleftrightarrow> conf_bound_ip cfg = 0 \<and> conf_broadcast_addr cfg = 0"

lemma handle_option_address:
  assumes "handle_option env argc opt arg b = Inr (stop, rv, b')" "opt \<noteq> 1" "no_address (boot_config b)"
  shows "no_address (boot_config b')"
  using assms unfolding handle_option_def set_u32_def set_config_def with_arg_def
  by (elim if_cases)
    (auto simp: no_address_def split: option.splits prod.splits dest!: add_pool_config add_option_config)

lemma load_configuration_keeps_address:
  assumes "config_load_configuration env b = Inr (0, b')" "interface (boot_config b) \<noteq> []"
  shows "conf_bound_ip (boot_config b') = conf_bound_ip (boot_config b) \<and>
    conf_broadcast_addr (boot_config b') = conf_broadcast_addr (boot_config b)"
  using assms(1)
proof (cases rule: load_configuration_cases)
  case (1 j b1 b2 os)
  have "boot_config b2 = boot_config b1" using 1(2) by (auto elim: load_pools_cases)
  moreover have "conf_bound_ip (boot_config b1) = conf_bound_ip (boot_config b) \<and>
    conf_broadcast_addr (boot_config b1) = conf_broadcast_addr (boot_config b)"
    using 1(1) assms(2)
    by (auto simp: config_load_server_config_def load_interface_def c_string_def load_settings_def Let_def split: if_splits)
  ultimately show ?thesis using 1(4) by (simp add: config_load_security_config_def Let_def)
qed

section \<open>The flag \<open>--pool\<close>\<close>

lemma ipv4_chars:
  assumes "c \<in> set (uint32_to_ipv4_address a)"
  shows "c \<noteq> CHR '':'' \<and> \<not> is_space c"
proof -
  have digit: "digit_char d \<noteq> CHR '':'' \<and> \<not> is_space (digit_char d)" if "d < 10" for d
  proof
    have "of_char (digit_char d) \<noteq> (of_char (CHR '':'') :: nat)" using that by (simp add: of_char_digit)
    then show "digit_char d \<noteq> CHR '':''"
      using arg_cong[of "digit_char d" "CHR '':''" "of_char :: char \<Rightarrow> nat"] by argo
    show "\<not> is_space (digit_char d)" using that by simp
  qed
  have "c \<noteq> CHR '':'' \<and> \<not> is_space c" if "c \<in> set (dec n)" for n
  proof -
    obtain ds where ds: "dec n = map digit_char ds" "\<forall>d \<in> set ds. d < 10" using dec_digits[of n] by blast
    have "\<forall>c \<in> set (map digit_char ds). c \<noteq> CHR '':'' \<and> \<not> is_space c"
      unfolding set_map ball_simps using ds(2) digit by blast
    with that show ?thesis unfolding ds(1) by (rule bspec[rotated])
  qed
  moreover have "\<not> is_space (CHR ''.'')" by (simp add: is_space_def)
  ultimately show ?thesis using assms by (auto simp: ipv4_string_untruncated)
qed

lemma length_ipv4: "length (uint32_to_ipv4_address a) \<le> 15" and ipv4_nonempty: "uint32_to_ipv4_address a \<noteq> []"
  by (simp add: uint32_to_ipv4_address_def) (simp add: ipv4_string_untruncated)

lemma scan_set_word:
  assumes "x \<noteq> []" "length x \<le> w" "\<forall>c \<in> set x. P c" "r = [] \<or> \<not> P (hd r)"
  shows "scan_set w P (x @ r) = Some (x, r)"
proof -
  have "takeWhile P (take w (x @ r)) = x"
    using assms by (cases r) (auto simp: takeWhile_append2 take_Cons')
  with assms(1) show ?thesis by (simp add: scan_set_def)
qed

lemma scan_pool_text:
  "scan_pool (uint32_to_ipv4_address s @ '':'' @ uint32_to_ipv4_address e @ '':'' @ uint32_to_ipv4_address m) =
     Some (uint32_to_ipv4_address s, uint32_to_ipv4_address e, uint32_to_ipv4_address m)"
proof -
  have "scan_set 15 (\<lambda>c. c \<noteq> CHR '':'') (uint32_to_ipv4_address x @ CHR '':'' # r) =
      Some (uint32_to_ipv4_address x, CHR '':'' # r)" for x r
    by (rule scan_set_word) (auto simp: length_ipv4 ipv4_nonempty ipv4_chars)
  moreover have "dropWhile is_space (uint32_to_ipv4_address m) = uint32_to_ipv4_address m"
    using ipv4_chars[of _ m] by (cases "uint32_to_ipv4_address m") auto
  then have "scan_s 15 (uint32_to_ipv4_address m) = Some (uint32_to_ipv4_address m, [])"
    using scan_set_word[of "uint32_to_ipv4_address m" 15 "\<lambda>c. \<not> is_space c" "[]"]
    by (simp add: scan_s_def length_ipv4 ipv4_nonempty ipv4_chars)
  ultimately show ?thesis by (simp add: scan_pool_def scan_lit_def)
qed

section \<open>A host\<close>

text \<open>The state in which \<open>main\<close> begins to read the command line.\<close>

definition initial_config :: config where
  "initial_config = \<lparr>config_path = CONFIG_DEFAULT_PATH, interface = [], conf_bound_ip = 0, conf_broadcast_addr = 0,
     tick_delay = 0, cache_size = 0, trans_duration = 0, conf_lease_check = 0, lease_time = 0, log_verbosity = 0,
     acl_enable = 0, dynamic_acl_enable = 0, acl_blacklist = 0, db_enable = 0\<rparr>"

definition initial_boot :: boot where
  "initial_boot = \<lparr>boot_config = initial_config, boot_allocator = address_allocator_new\<rparr>"

definition host_env :: "files \<Rightarrow> string conf_env" where
  "host_env fs = \<lparr>ce_json = plain_json, ce_open = (\<lambda>_. True), ce_files = fs,
     ce_ifaddrs = Some [\<lparr>ifa_name = ''lo'', ifa_addr = Some (AF_INET 0x0100007F), ifa_broadaddr = None\<rparr>,
       \<lparr>ifa_name = ''eth0'', ifa_addr = Some (AF_INET 0x0101A8C0), ifa_broadaddr = Some 0xFF01A8C0\<rparr>]\<rparr>"

text \<open>A file with one pool.\<close>

definition pool_entry :: "(string \<times> string) list \<Rightarrow> string" where
  "pool_entry kvs = cj_object plain_json kvs"

definition one_pool_file :: string where
  "one_pool_file = cj_print plain_json (cj_object plain_json [(''pools'', write_list [pool_entry
     [(''name'', ''lan''), (''start'', uint32_to_ipv4_address 0xC0A80064),
      (''end'', uint32_to_ipv4_address 0xC0A80068), (''subnet'', uint32_to_ipv4_address 0xFFFFFF00)]])])"

definition host_boot :: boot where
  "host_boot = initial_boot\<lparr>boot_config := initial_config\<lparr>interface := ''eth0'', cache_size := 10,
     acl_enable := 2, acl_blacklist := 2, db_enable := 2, dynamic_acl_enable := 2\<rparr>\<rparr>"

lemma scan_u_10 [simp]: "scan_u ''10'' = Some (10, [])"
  by (simp add: scan_u_def scan_sign_def is_space_def is_dec_def digit_val_def strtoul64_def)

lemma host_parse: "config_parse_arguments (host_env fs) [''-ieth0'', ''--cache'', ''10''] initial_boot = Inr (0, host_boot)"
  by (simp add: config_parse_arguments_def parse_arguments_loop.simps long_option_def find_long_def long_options_def
      short_option_def short_options_def take_argument_def handle_option_def with_arg_def set_config_def set_u32_def
      initial_boot_def initial_config_def host_boot_def Let_def)

lemma host_load:
  "\<exists>b. config_load_configuration (host_env [CONFIG_DEFAULT_PATH \<mapsto> one_pool_file]) host_boot = Inr (0, b) \<and>
     map pool_name (address_pools (boot_allocator b)) = [''lan'']"
  by (simp add: config_load_configuration_def host_boot_def initial_boot_def initial_config_def c_string_def
      config_load_json_file_def host_env_def one_pool_file_def load_sections_def config_load_server_config_def
      load_interface_def member_def config_load_pools_config_def load_pool_def pool_entry_def pool_attribute_def
      add_loaded_pool_def address_pool_new_def can_range_be_on_subnet_def config_load_dhcp_options_def
      config_load_security_config_def allocator_add_pool_def allocator_get_pool_by_name_def address_allocator_new_def Let_def
      ipv4_string_inverse del: write_list.simps)

section \<open>Properties\<close>

text \<open>
  C16. Whatever the command line and the configuration file say, a successful configuration
  leaves only pools in the allocator that were made by \<open>address_pool_new\<close>, with pairwise
  different names, without the address 0 and with the subnet mask of the pool as their first
  option; no list of options has two options of one tag; and every pool that is not almost
  as large as the whole address space satisfies the invariant of pools with no address in use.
\<close>

theorem configuration_builds_fresh_pools:
  assumes "config_parse_arguments env args initial_boot = Inr (0, b1)" "config_load_configuration env b1 = Inr (0, b2)"
  shows "distinct (map pool_name (address_pools (boot_allocator b2))) \<and>
     distinct (map opt_tag (default_options (boot_allocator b2))) \<and>
     (\<forall>p \<in> set (address_pools (boot_allocator b2)). 0 \<notin> pool_dom p \<and>
        distinct (map opt_tag (dhcp_option_override p)) \<and>
        hd (dhcp_option_override p) = subnet_mask_option (pool_mask p) \<and>
        (small_pool p \<longrightarrow> wf_pool p \<and> pool_used p = {}))"
proof -
  have "fresh_allocator (boot_allocator b2)"
    using load_configuration_fresh[OF assms(2)] parse_arguments_fresh[OF assms(1)]
    by (simp add: initial_boot_def fresh_allocator_new)
  then have fresh: "distinct (map pool_name (address_pools (boot_allocator b2)))"
    "distinct (map opt_tag (default_options (boot_allocator b2)))" by (simp_all add: fresh_allocator_def)
  have pools: "fresh_pool p" if "p \<in> set (address_pools (boot_allocator b2))" for p
    using that \<open>fresh_allocator (boot_allocator b2)\<close> by (simp add: fresh_allocator_def)
  have "0 \<notin> pool_dom p \<and> distinct (map opt_tag (dhcp_option_override p)) \<and>
      hd (dhcp_option_override p) = subnet_mask_option (pool_mask p) \<and>
      (small_pool p \<longrightarrow> wf_pool p \<and> pool_used p = {})" if "p \<in> set (address_pools (boot_allocator b2))" for p
    using fresh_pool_wf[OF pools[OF that]] fresh_pool_positive[OF pools[OF that]] pools[OF that]
    unfolding fresh_pool_def by fastforce
  with fresh show ?thesis by blast
qed

theorem configuration_builds_fresh_pools_witness:
  "\<exists>b2. config_load_configuration (host_env [CONFIG_DEFAULT_PATH \<mapsto> one_pool_file]) host_boot = Inr (0, b2) \<and>
     map pool_name (address_pools (boot_allocator b2)) = [''lan''] \<and>
     (\<forall>p \<in> set (address_pools (boot_allocator b2)). 0 \<notin> pool_dom p)"
proof -
  obtain b2 where b2: "config_load_configuration (host_env [CONFIG_DEFAULT_PATH \<mapsto> one_pool_file]) host_boot = Inr (0, b2)"
    "map pool_name (address_pools (boot_allocator b2)) = [''lan'']"
    using host_load by (elim exE conjE)
  have "\<forall>p \<in> set (address_pools (boot_allocator b2)). 0 \<notin> pool_dom p"
    using configuration_builds_fresh_pools[OF host_parse b2(1)] by simp
  with b2 show ?thesis by (intro exI[of _ b2] conjI)
qed

text \<open>
  A successful configuration resolves every flag to 0 or 1, so that the check for flags
  that were never set at the start of the access control can not fail.
\<close>

theorem configuration_resolves_flags:
  assumes "config_parse_arguments env args b = Inr (0, b1)" "config_load_configuration env b1 = Inr (0, b2)"
  shows "{acl_enable (boot_config b2), acl_blacklist (boot_config b2), db_enable (boot_config b2),
     dynamic_acl_enable (boot_config b2)} \<subseteq> {0, 1}"
  using load_configuration_flags[OF assms(2) parse_arguments_flags[OF assms(1)]] by (simp only: flags_in_def)

theorem configuration_resolves_flags_witness:
  "\<exists>b2. config_load_configuration (host_env [CONFIG_DEFAULT_PATH \<mapsto> one_pool_file]) host_boot = Inr (0, b2) \<and>
     acl_enable (boot_config b2) \<in> {0, 1}"
  using host_load configuration_resolves_flags[OF host_parse] by blast

text \<open>
  An interface that is named on the command line is never looked up: without
  \<open>--default-configuration\<close> the server goes on with 0.0.0.0 both as its own address and as
  the broadcast address its answers are sent to.
\<close>

theorem interface_flag_not_looked_up:
  assumes "config_parse_arguments env args initial_boot = Inr (0, b1)" "config_load_configuration env b1 = Inr (0, b2)"
    and "\<forall>a \<in> set args. take 4 a \<noteq> ''--de''" "interface (boot_config b1) \<noteq> []"
  shows "conf_bound_ip (boot_config b2) = 0 \<and> conf_broadcast_addr (boot_config b2) = 0"
proof -
  have "no_address (boot_config b1)"
    using assms(1,3) unfolding config_parse_arguments_def Let_def
    by (elim parse_arguments_keeps[where P = "\<lambda>b. no_address (boot_config b)" and A = "set args"])
      (auto simp: no_address_def initial_boot_def initial_config_def dest!: getopt_default
        intro: handle_option_address[unfolded no_address_def, THEN conjunct1] handle_option_address[unfolded no_address_def, THEN conjunct2])
  with load_configuration_keeps_address[OF assms(2,4)] show ?thesis by (simp add: no_address_def)
qed

theorem interface_flag_not_looked_up_witness:
  "\<exists>b2. config_load_configuration (host_env [CONFIG_DEFAULT_PATH \<mapsto> one_pool_file]) host_boot = Inr (0, b2) \<and>
     conf_bound_ip (boot_config b2) = 0"
  using host_load interface_flag_not_looked_up[OF host_parse] by (auto simp: host_boot_def)

text \<open>
  The argument of \<open>--pool\<close> written from three addresses creates the pool with these
  addresses, as the only change; a range that is no pool, and a second pool (all of them are
  called \<open>pool\<close>), are refused and change nothing.
\<close>

theorem pool_flag_roundtrip:
  "config_add_pool (uint32_to_ipv4_address s @ '':'' @ uint32_to_ipv4_address e @ '':'' @ uint32_to_ipv4_address m) b =
     (case address_pool_new (Some ''pool'') s e m of
        None \<Rightarrow> (-1, b)
      | Some p \<Rightarrow>
          if ''pool'' \<in> set (map pool_name (address_pools (boot_allocator b))) then (ALLOCATOR_POOL_DUPLICITE, b)
          else (0, b\<lparr>boot_allocator := (boot_allocator b)\<lparr>address_pools := address_pools (boot_allocator b) @ [p]\<rparr>\<rparr>))"
proof -
  have name: "pool_name p = ''pool''" if "address_pool_new (Some ''pool'') s e m = Some p" for p
    using address_pool_new_Some(4)[OF that] by simp
  have dup: "(find_index (\<lambda>p. pool_name p = ''pool'') ps = None) = (''pool'' \<notin> set (map pool_name ps))" for ps
    by (auto simp: find_index_None image_iff)
  show ?thesis
    using name ipv4_nonempty[of s] dup[of "address_pools (boot_allocator b)"]
    by (cases "address_pool_new (Some ''pool'') s e m")
      (auto simp: config_add_pool_def scan_pool_text[simplified] address_pool_new_str_def ipv4_string_inverse
        allocator_add_pool_def allocator_get_pool_by_name_def)
qed

text \<open>
  \<open>-c\<close>, documented as the short form of \<open>--config\<close> with a path, is declared without an
  argument; using it copies from a null pointer.
\<close>

theorem short_config_flag_crashes:
  "config_parse_arguments env (''-c'' # args) b = Inl Null_deref"
  by (simp add: config_parse_arguments_def parse_arguments_loop.simps[of _ _ "[]" "''-c'' # args"] short_option_def
      short_options_def handle_option_def with_arg_def Let_def)

text \<open>
  An entry of the file that gives a pool only a name takes its range and mask from the
  entry before it: the two pools cover the same addresses.
\<close>

theorem pool_attributes_carry_over:
  assumes "cj_get api j1 ''name'' = Some a1" "cj_string api a1 = Some n1"
    and "cj_get api j1 ''start'' = Some a2" "cj_string api a2 = Some (uint32_to_ipv4_address s)"
    and "cj_get api j1 ''end'' = Some a3" "cj_string api a3 = Some (uint32_to_ipv4_address e)"
    and "cj_get api j1 ''subnet'' = Some a4" "cj_string api a4 = Some (uint32_to_ipv4_address m)"
    and "cj_get api j2 ''name'' = Some a5" "cj_string api a5 = Some n2" "n1 \<noteq> n2"
    and "cj_get api j2 ''start'' = None" "cj_get api j2 ''end'' = None" "cj_get api j2 ''subnet'' = None"
    and "cj_get api j1 ''options'' = None" "cj_get api j2 ''options'' = None"
    and "address_pool_new (Some n1) s e m = Some p" "m \<noteq> 0"
  shows "\<exists>p2 a. load_pools_loop api [j1, j2] (None, 0, 0, 0) address_allocator_new = Inr a \<and>
     address_pools a = [p, p2] \<and> pool_name p2 = n2 \<and> pool_dom p2 = pool_dom p \<and> pool_dom p \<noteq> {}"
proof -
  note p = address_pool_new_Some[OF assms(17)]
  have nz: "s \<noteq> 0" "e \<noteq> 0" using new_pool_positive[OF assms(17)] p(5) p(7) by auto
  obtain p2 where p2: "address_pool_new (Some n2) s e m = Some p2"
    using assms(17) by (auto simp: address_pool_new_def split: if_splits)
  note facts = address_pool_new_Some[OF p2]
  have "load_pool api j1 (None, 0, 0, 0) address_allocator_new = Inr ((Some n1, s, e, m), \<lparr>default_options = [], address_pools = [p]\<rparr>)"
    using assms nz by (simp add: load_pool_def pool_attribute_def add_loaded_pool_def config_load_dhcp_options_def
        ipv4_string_inverse allocator_add_pool_def allocator_get_pool_by_name_def address_allocator_new_def Let_def)
  moreover have "load_pool api j2 (Some n1, s, e, m) \<lparr>default_options = [], address_pools = [p]\<rparr> =
      Inr ((Some n2, s, e, m), \<lparr>default_options = [], address_pools = [p, p2]\<rparr>)"
    using assms nz p2 p(4) facts(4) by (auto simp: load_pool_def pool_attribute_def add_loaded_pool_def config_load_dhcp_options_def
        allocator_add_pool_def allocator_get_pool_by_name_def Let_def)
  ultimately show ?thesis using p(5,7) facts(4,7) by auto
qed

theorem pool_attributes_carry_over_witness:
  "\<exists>p p2 a. load_pools_loop plain_json [pool_entry [(''name'', ''lan''), (''start'', uint32_to_ipv4_address 0xC0A80064),
       (''end'', uint32_to_ipv4_address 0xC0A80068), (''subnet'', uint32_to_ipv4_address 0xFFFFFF00)],
       pool_entry [(''name'', ''guests'')]] (None, 0, 0, 0) address_allocator_new = Inr a \<and>
     address_pools a = [p, p2] \<and> pool_dom p2 = pool_dom p"
proof -
  obtain p where "address_pool_new (Some ''lan'') 0xC0A80064 0xC0A80068 0xFFFFFF00 = Some p"
    by (simp add: address_pool_new_def can_range_be_on_subnet_def)
  with pool_attributes_carry_over[of plain_json "pool_entry [(''name'', ''lan''), (''start'', uint32_to_ipv4_address 0xC0A80064),
       (''end'', uint32_to_ipv4_address 0xC0A80068), (''subnet'', uint32_to_ipv4_address 0xFFFFFF00)]"
       _ "''lan''" _ "0xC0A80064" _ "0xC0A80068" _ "0xFFFFFF00" "pool_entry [(''name'', ''guests'')]" _ "''guests''" p]
  show ?thesis by (force simp: pool_entry_def)
qed

text \<open>
  An option of the file whose value is an address is stored with the bytes of the address
  when its length is at most 4; a longer one, as for a list of addresses, reads beyond the
  variable that holds the address.
\<close>

theorem file_address_option:
  assumes "cj_items api j = [opt]" "cj_u8 api (cj_get api opt ''tag'') = t" "cj_u8 api (cj_get api opt ''lenght'') = l"
    and "cj_get api opt ''value'' = Some v" "cj_is_string api v" "cj_string api v = Some (uint32_to_ipv4_address w)"
    and "dhcp_option_tag_to_type (uint t) = DHCP_OPTION_IP" "t \<noteq> 0" "l \<noteq> 0" "w \<noteq> 0"
  shows "config_load_dhcp_options api dest (Some j) =
     (if 4 < l then Inl Out_of_bounds
      else Inr (0, if dhcp_option_retrieve dest t \<noteq> None then dest
           else dest @ [\<lparr>opt_type = DHCP_OPTION_IP, opt_tag = t, opt_lenght = l,
                         opt_value = take (unat l) (le_bytes w) @ zeros (union_size - unat l)\<rparr>]))"
proof -
  have "option_of_json api t l v = cbind (dhcp_option_new_values (uint t) (uint l) (le_bytes w)) (\<lambda>o1. Inr (Some o1))"
    using assms by (simp add: option_of_json_def ipv4_string_inverse Let_def)
  moreover have "dhcp_option_new_values (uint t) (uint l) (le_bytes w) =
      (if 4 < l then Inl Out_of_bounds else Inr \<lparr>opt_type = DHCP_OPTION_IP, opt_tag = t, opt_lenght = l,
         opt_value = take (unat l) (le_bytes w) @ zeros (union_size - unat l)\<rparr>)"
    using assms(7) unat_u8[of l]
    by (auto simp: dhcp_option_new_values_def memcpy_def dhcp_option_new_def zeros_def union_size_def word_less_nat_alt
        word_le_nat_alt nat_uint_eq not_less)
  ultimately show ?thesis
    using assms by (simp add: config_load_dhcp_options_def dhcp_option_add_def Let_def)
qed

text \<open>The option 6 (domain name servers) with room for two addresses.\<close>

definition two_servers :: string where
  "two_servers = cj_object plain_json [(''tag'', uint32_to_ipv4_address 6), (''lenght'', uint32_to_ipv4_address 8),
     (''value'', uint32_to_ipv4_address 0xC0A80001)]"

theorem file_address_option_witness:
  "config_load_dhcp_options plain_json [] (Some (write_list [two_servers])) = Inl Out_of_bounds"
proof -
  have "dhcp_option_tag_to_type (uint (6 :: u8)) = DHCP_OPTION_IP" by (simp add: dhcp_option_tag_to_type_def tag_in_def)
  with file_address_option[of plain_json "write_list [two_servers]" two_servers 6 8 _ "0xC0A80001" "[]"] show ?thesis
    by (simp add: two_servers_def ipv4_string_inverse del: write_list.simps)
qed

end
