(* ===== verification/Start.thy ===== *)
theory Start
  imports Server Configuration Commands
begin

text \<open>
  The start of the program (\<open>init.c\<close>, \<open>main.c\<close>): from the command line and the configuration
  file to the state in which the server loop begins. Whether the logger and the two sockets
  can be set up is part of the environment.
\<close>

section \<open>The parts of the server\<close>

record 'j main_env =
  me_conf :: "'j conf_env"
  me_db :: database
  me_now :: u32
  me_logging :: bool
  me_socket :: bool
  me_unix :: bool

definition init_allocator :: "boot \<Rightarrow> int \<times> boot" where
  "init_allocator b = (0, b\<lparr>boot_allocator := address_allocator_new\<rparr>)"

text \<open>
  The server after the configuration: the tables that are not there yet are empty.
\<close>

definition server_of :: "files \<Rightarrow> database \<Rightarrow> boot \<Rightarrow> dhcp_server" where
  "server_of fs db b = \<lparr>srv_allocator = boot_allocator b, trans_cache = [],
     lease_expiration_check = timer_new 0 TIMER_ONCE 0 False None,
     bound_ip = conf_bound_ip (boot_config b), broadcast_addr = conf_broadcast_addr (boot_config b),
     srv_acl = ACL_new, srv_dacl = ACL_new, srv_heap = Map.empty, srv_files = fs,
     srv_db_enable = db_enable (boot_config b), srv_db = db, sent = []\<rparr>"

definition add_default_option :: "u8 \<Rightarrow> u32 \<Rightarrow> dhcp_server \<Rightarrow> (int \<times> dhcp_server) c" where
  "add_default_option tag w srv =
     cbind (dhcp_option_new_values (uint tag) 4 (le_bytes w)) (\<lambda>o1.
       case dhcp_option_add (default_options (srv_allocator srv)) (Some o1) of (rv, os) \<Rightarrow>
         Inr (rv, srv\<lparr>srv_allocator := (srv_allocator srv)\<lparr>default_options := os\<rparr>\<rparr>))"

definition init_dhcp_options :: "config \<Rightarrow> dhcp_server \<Rightarrow> (int \<times> dhcp_server) c" where
  "init_dhcp_options cfg srv =
     if_failed (-1) (add_default_option DHCP_OPTION_IP_ADDRESS_LEASE_TIME (lease_time cfg) srv) (\<lambda>srv.
     if_failed (-1) (add_default_option DHCP_OPTION_SERVER_IDENTIFIER (conf_bound_ip cfg) srv) (\<lambda>srv.
       Inr (0, srv)))"

definition init_cache :: "u32 \<Rightarrow> config \<Rightarrow> dhcp_server \<Rightarrow> int \<times> dhcp_server" where
  "init_cache now cfg srv = (0, srv\<lparr>trans_cache := trans_cache_new now (cache_size cfg) (trans_duration cfg)\<rparr>)"

text \<open>The array \<open>acl_entries\<close> of the configuration file, read anew.\<close>

definition acl_entries_of :: "'j conf_env \<Rightarrow> string \<Rightarrow> string option list option" where
  "acl_entries_of env path =
     (let api = ce_json env in
      case member api (member api (config_load_json_file env path) ''security'') ''acl_entries'' of
        None \<Rightarrow> None
      | Some j \<Rightarrow> Some (map (\<lambda>e. if cj_is_string api e then cj_string api e else None) (cj_items api j)))"

definition init_ACL :: "'j conf_env \<Rightarrow> config \<Rightarrow> dhcp_server \<Rightarrow> int \<times> dhcp_server" where
  "init_ACL env cfg srv =
     (if acl_enable cfg = CONFIG_UNTOUCHED \<or> acl_blacklist cfg = CONFIG_UNTOUCHED then (-1, srv)
      else
        let acl = ACL_new\<lparr>acl_enabled := (acl_enable cfg \<noteq> 0), acl_is_blacklist := (acl_blacklist cfg \<noteq> 0)\<rparr>
        in case ACL_load_acl_entries acl (acl_entries_of env (config_path cfg)) of
          (rv, acl) \<Rightarrow> if rv < 0 then (-1, srv\<lparr>srv_acl := acl\<rparr>) else (0, srv\<lparr>srv_acl := acl\<rparr>))"

definition init_dynamic_ACL :: "dhcp_server \<Rightarrow> int \<times> dhcp_server" where
  "init_dynamic_ACL srv = (0, srv\<lparr>srv_dacl := dynamic_ACL_new\<lparr>acl_enabled := True\<rparr>\<rparr>)"

section \<open>The program\<close>

definition check_for_version_or_usage_flags :: "string list \<Rightarrow> bool" where
  "check_for_version_or_usage_flags argv =
     list_ex (\<lambda>a. a = ''--version'' \<or> a = ''-v'' \<or> a = ''--help'' \<or> a = ''-h'') argv"

text \<open>
  From the configured state to the call of \<open>dhcp_server_serve\<close>; \<open>None\<close> when the program exits
  before it.
\<close>

definition start_server :: "'j main_env \<Rightarrow> boot \<Rightarrow> unix_server \<Rightarrow> (int \<times> (dhcp_server \<times> unix_server) option) c" where
  "start_server env b us =
     (let cfg = boot_config b; conf = me_conf env; srv = server_of (ce_files conf) (me_db env) b;
          run = \<lparr>env_now = me_now env, env_pick = (\<lambda>_. 0), env_send = (\<lambda>_. False), env_open = ce_open conf,
                 env_json = ce_json conf\<rparr>
      in if \<not> me_socket env then Inr (0, None)
         else case init_dhcp_server_timers run (conf_lease_check cfg) srv of (rv, srv) \<Rightarrow>
           if rv \<noteq> 0 then Inr (0, None)
           else if \<not> me_unix env then Inr (0, None)
           else case init_unix_commands us of (rv, us) \<Rightarrow>
             if rv \<noteq> 0 then Inr (0, None)
             else cbind (init_dhcp_options cfg srv) (\<lambda>(rv, srv).
               if rv \<noteq> 0 then Inr (0, None)
               else case init_ACL conf cfg srv of (rv, srv) \<Rightarrow>
                 if rv \<noteq> 0 then Inr (0, None)
                 else case init_cache (me_now env) cfg srv of (rv, srv) \<Rightarrow>
                   if rv \<noteq> 0 then Inr (0, None)
                   else case init_dynamic_ACL srv of (rv, srv) \<Rightarrow>
                     if rv \<noteq> 0 then Inr (0, None)
                     else cbind (init_load_persisten_leases (ce_json conf) (ce_open conf) (me_now env)
                                   (srv_allocator srv) (srv_files srv)) (\<lambda>(rv, a, fs).
                       if rv \<noteq> 0 then Inr (0, None)
                       else Inr (0, Some (srv\<lparr>srv_allocator := a, srv_files := fs\<rparr>, us)))))"

definition main :: "'j main_env \<Rightarrow> string list \<Rightarrow> (int \<times> (dhcp_server \<times> unix_server) option) c" where
  "main env argv =
     (if check_for_version_or_usage_flags argv then Inr (0, None)
      else if \<not> me_logging env then Inr (1, None)
      else case init_allocator initial_boot of (rv, b) \<Rightarrow>
        if rv \<noteq> 0 then Inr (1, None)
        else cbind (config_parse_arguments (me_conf env) (tl argv) b) (\<lambda>(rv, b).
          if rv = CONFIG_EXIT_PROGRAM then Inr (0, None)
          else if rv \<noteq> 0 then Inr (1, None)
          else cbind (config_load_configuration (me_conf env) b) (\<lambda>(rv, b).
            if rv \<noteq> 0 then Inr (0, None)
            else start_server env b idle_unix_server)))"

section \<open>Lemmas\<close>

lemma load_leases_loop_pool:
  "load_leases_loop api can_open now js l p fs = Inr (p', fs') \<Longrightarrow> same_pool p p' \<and> (wf_pool p \<longrightarrow> wf_pool p')"
proof (induction js arbitrary: l p fs)
  case (Cons j js)
  then obtain rv l1 where l1: "json_to_lease api l j (pool_name p) = Inr (rv, l1)" by auto
  show ?case
  proof (cases "lease_expire l1 \<le> now")
    case True
    with Cons l1 show ?thesis by auto
  next
    case False
    with Cons.prems l1 obtain rv p1 where p1: "address_pool_set_address_allocation p (lease_address l1) = Inr (rv, p1)"
      "load_leases_loop api can_open now js l1 p1 fs = Inr (p', fs')" by auto
    have "same_pool p p1" using p1(1) by (auto simp: address_pool_set_address_allocation_def dest: ctl_same_pool)
    moreover have "wf_pool p \<longrightarrow> wf_pool p1" using p1(1) set_allocation_used[of p "lease_address l1"] by force
    ultimately show ?thesis using Cons.IH[OF p1(2)] by (auto simp: same_pool_def)
  qed
qed simp

lemma load_pool_leases_pool:
  "load_pool_leases api can_open now p fs = Inr (rv, p', fs') \<Longrightarrow> same_pool p p' \<and> (wf_pool p \<longrightarrow> wf_pool p')"
  by (auto simp: load_pool_leases_def split: prod.splits option.splits dest: load_leases_loop_pool)

lemma load_each_pool_pools:
  "load_each_pool api can_open now ps fs = Inr (ps', fs') \<Longrightarrow>
     list_all2 (\<lambda>p p'. same_pool p p' \<and> (wf_pool p \<longrightarrow> wf_pool p')) ps ps'"
  by (induction ps arbitrary: ps' fs) (auto dest: load_pool_leases_pool)

lemma init_ACL_other: "\<exists>acl. snd (init_ACL env cfg srv) = srv\<lparr>srv_acl := acl\<rparr>"
  by (cases "ACL_load_acl_entries (ACL_new\<lparr>acl_enabled := (acl_enable cfg \<noteq> 0), acl_is_blacklist := (acl_blacklist cfg \<noteq> 0)\<rparr>)
    (acl_entries_of env (config_path cfg))") (auto simp: init_ACL_def Let_def intro: exI[of _ "srv_acl srv"])

lemma new_word_option: "dhcp_option_new_values (uint t) 4 (le_bytes w) = Inr (word_option t w)"
  by (simp add: dhcp_option_new_values_def memcpy_def dhcp_option_new_def word_option_def union_size_def zeros_def)

lemma add_option_ok: "fst (dhcp_option_add os (Some o1)) = 0"
  by (simp add: dhcp_option_add_def)

lemma add_default_option_eq:
  "add_default_option t w srv = Inr (0, srv\<lparr>srv_allocator := (srv_allocator srv)\<lparr>default_options :=
     snd (dhcp_option_add (default_options (srv_allocator srv)) (Some (word_option t w)))\<rparr>\<rparr>)"
  using add_option_ok[of "default_options (srv_allocator srv)" "word_option t w"]
  by (simp only: add_default_option_def new_word_option cbind_simps split_def)

lemma init_dhcp_options_cases:
  assumes "init_dhcp_options cfg srv = Inr (rv, srv')"
  shows "rv = 0 \<and> srv' = srv\<lparr>srv_allocator := (srv_allocator srv)\<lparr>default_options :=
     snd (dhcp_option_add (snd (dhcp_option_add (default_options (srv_allocator srv)) (Some (word_option 51 (lease_time cfg)))))
       (Some (word_option 54 (conf_bound_ip cfg))))\<rparr>\<rparr>"
  using assms unfolding init_dhcp_options_def if_failed_def add_default_option_eq by (simp add: cbind_def)

text \<open>What a started server consists of.\<close>

lemma start_server_cases:
  assumes "start_server env b us = Inr (rv, Some (srv, us'))"
  obtains srv1 fs where
    "init_dhcp_options (boot_config b) ((server_of (ce_files (me_conf env)) (me_db env) b)\<lparr>lease_expiration_check :=
       timer_new (me_now env) TIMER_REPEAT (conf_lease_check (boot_config b)) True (Some Check_lease_expirations)\<rparr>) = Inr (0, srv1)"
    "fst (init_ACL (me_conf env) (boot_config b) srv1) = 0"
    "load_each_pool (ce_json (me_conf env)) (ce_open (me_conf env)) (me_now env) (address_pools (srv_allocator srv1))
       (srv_files srv1) = Inr (address_pools (srv_allocator srv), fs)"
    "srv = (snd (init_ACL (me_conf env) (boot_config b) srv1))\<lparr>
       trans_cache := trans_cache_new (me_now env) (cache_size (boot_config b)) (trans_duration (boot_config b)),
       srv_dacl := dynamic_ACL_new\<lparr>acl_enabled := True\<rparr>,
       srv_allocator := (srv_allocator srv1)\<lparr>address_pools := address_pools (srv_allocator srv)\<rparr>, srv_files := fs\<rparr>"
proof -
  define conf cfg where "conf = me_conf env" and "cfg = boot_config b"
  define srv0 where "srv0 = (server_of (ce_files conf) (me_db env) b)\<lparr>lease_expiration_check :=
    timer_new (me_now env) TIMER_REPEAT (conf_lease_check cfg) True (Some Check_lease_expirations)\<rparr>"
  have fst0: "fst (init_unix_commands us) = 0" by (simp add: init_unix_commands_def register_command_def)
  from assms obtain srv1 where s1: "init_dhcp_options cfg srv0 = Inr (0, srv1)" and acl: "fst (init_ACL conf cfg srv1) = 0"
    and rest: "cbind (init_load_persisten_leases (ce_json conf) (ce_open conf) (me_now env)
        (srv_allocator (snd (init_ACL conf cfg srv1))) (srv_files (snd (init_ACL conf cfg srv1)))) (\<lambda>(rv, a, fs).
          if rv \<noteq> 0 then Inr (0, None)
          else Inr (0, Some ((snd (init_ACL conf cfg srv1))\<lparr>
            trans_cache := trans_cache_new (me_now env) (cache_size cfg) (trans_duration cfg),
            srv_dacl := dynamic_ACL_new\<lparr>acl_enabled := True\<rparr>, srv_allocator := a, srv_files := fs\<rparr>,
            snd (init_unix_commands us)))) = Inr (rv, Some (srv, us'))"
    using fst0 unfolding start_server_def Let_def split_def init_dhcp_server_timers_def init_cache_def init_dynamic_ACL_def
      conf_def[symmetric] cfg_def[symmetric]
    by (simp add: srv0_def split: if_splits)
  obtain acl2 where acl2: "snd (init_ACL conf cfg srv1) = srv1\<lparr>srv_acl := acl2\<rparr>" using init_ACL_other by blast
  with rest obtain ps fs where load: "load_each_pool (ce_json conf) (ce_open conf) (me_now env) (address_pools (srv_allocator srv1))
      (srv_files srv1) = Inr (ps, fs)"
    and srv: "srv = srv1\<lparr>srv_acl := acl2, trans_cache := trans_cache_new (me_now env) (cache_size cfg) (trans_duration cfg),
      srv_dacl := dynamic_ACL_new\<lparr>acl_enabled := True\<rparr>, srv_allocator := (srv_allocator srv1)\<lparr>address_pools := ps\<rparr>, srv_files := fs\<rparr>"
    by (auto simp: init_load_persisten_leases_def split: if_splits)
  have pools: "address_pools (srv_allocator srv) = ps" by (simp add: srv)
  have "srv = (snd (init_ACL conf cfg srv1))\<lparr>trans_cache := trans_cache_new (me_now env) (cache_size cfg) (trans_duration cfg),
      srv_dacl := dynamic_ACL_new\<lparr>acl_enabled := True\<rparr>,
      srv_allocator := (srv_allocator srv1)\<lparr>address_pools := address_pools (srv_allocator srv)\<rparr>, srv_files := fs\<rparr>"
    unfolding acl2 pools srv by simp
  with that[of srv1 fs] s1 acl load show ?thesis unfolding srv0_def conf_def cfg_def pools by blast
qed

lemma main_cases:
  assumes "main env argv = Inr (rv, Some (srv, us))"
  obtains b1 b2 where "config_parse_arguments (me_conf env) (tl argv) initial_boot = Inr (0, b1)"
    "config_load_configuration (me_conf env) b1 = Inr (0, b2)"
    "start_server env b2 idle_unix_server = Inr (rv, Some (srv, us))"
proof -
  have "init_allocator initial_boot = (0, initial_boot)" by (simp add: init_allocator_def initial_boot_def)
  with assms that show thesis by (auto simp: main_def split: if_splits)
qed

lemma started_pools:
  assumes "start_server env b us = Inr (rv, Some (srv, us'))"
  shows "list_all2 (\<lambda>p p'. same_pool p p' \<and> (wf_pool p \<longrightarrow> wf_pool p')) (address_pools (boot_allocator b)) (address_pools (srv_allocator srv))"
    and "default_options (srv_allocator srv) =
      snd (dhcp_option_add (snd (dhcp_option_add (default_options (boot_allocator b)) (Some (word_option 51 (lease_time (boot_config b))))))
        (Some (word_option 54 (conf_bound_ip (boot_config b)))))"
    and "trans_cache srv = trans_cache_new (me_now env) (cache_size (boot_config b)) (trans_duration (boot_config b))"
    and "bound_ip srv = conf_bound_ip (boot_config b)" "broadcast_addr srv = conf_broadcast_addr (boot_config b)"
    and "srv_dacl srv = dynamic_ACL_new\<lparr>acl_enabled := True\<rparr>"
proof -
  from assms obtain srv1 fs acl where s1: "init_dhcp_options (boot_config b) ((server_of (ce_files (me_conf env)) (me_db env) b)\<lparr>lease_expiration_check :=
       timer_new (me_now env) TIMER_REPEAT (conf_lease_check (boot_config b)) True (Some Check_lease_expirations)\<rparr>) = Inr (0, srv1)"
    and load: "load_each_pool (ce_json (me_conf env)) (ce_open (me_conf env)) (me_now env) (address_pools (srv_allocator srv1))
       (srv_files srv1) = Inr (address_pools (srv_allocator srv), fs)"
    and srv: "srv = srv1\<lparr>srv_acl := acl, trans_cache := trans_cache_new (me_now env) (cache_size (boot_config b)) (trans_duration (boot_config b)),
       srv_dacl := dynamic_ACL_new\<lparr>acl_enabled := True\<rparr>,
       srv_allocator := (srv_allocator srv1)\<lparr>address_pools := address_pools (srv_allocator srv)\<rparr>, srv_files := fs\<rparr>"
    using init_ACL_other[of "me_conf env" "boot_config b"] by (elim start_server_cases) metis
  note srv1 = conjunct2[OF init_dhcp_options_cases[OF s1]]
  have "address_pools (srv_allocator srv1) = address_pools (boot_allocator b)" unfolding srv1 by (simp add: server_of_def)
  with load_each_pool_pools[OF load]
  show "list_all2 (\<lambda>p p'. same_pool p p' \<and> (wf_pool p \<longrightarrow> wf_pool p')) (address_pools (boot_allocator b)) (address_pools (srv_allocator srv))"
    by simp
  have "default_options (srv_allocator srv) = default_options (srv_allocator srv1)" by (subst srv) simp
  then show "default_options (srv_allocator srv) =
      snd (dhcp_option_add (snd (dhcp_option_add (default_options (boot_allocator b)) (Some (word_option 51 (lease_time (boot_config b))))))
        (Some (word_option 54 (conf_bound_ip (boot_config b)))))" unfolding srv1 by (simp add: server_of_def)
  show "trans_cache srv = trans_cache_new (me_now env) (cache_size (boot_config b)) (trans_duration (boot_config b))"
    "srv_dacl srv = dynamic_ACL_new\<lparr>acl_enabled := True\<rparr>"
    by (subst srv, simp)+
  have "bound_ip srv = bound_ip srv1" "broadcast_addr srv = broadcast_addr srv1" by (subst srv, simp)+
  then show "bound_ip srv = conf_bound_ip (boot_config b)" "broadcast_addr srv = conf_broadcast_addr (boot_config b)"
    unfolding srv1 by (simp_all add: server_of_def)
qed

lemma same_pool_facts:
  assumes "same_pool p p'"
  shows "pool_dom p' = pool_dom p" "small_pool p' = small_pool p"
  using assms by (simp_all add: same_pool_def pool_dom_def small_pool_def)

lemma started_wf:
  assumes start: "start_server env b us = Inr (rv, Some (srv, us'))" and fresh: "fresh_allocator (boot_allocator b)"
    and disj: "pools_disjoint (srv_allocator srv)" and small: "\<forall>p \<in> set (address_pools (srv_allocator srv)). small_pool p"
  shows "wf_server srv"
proof -
  note pools = started_pools(1)[OF start]
  have "wf_pool p' \<and> 0 \<notin> pool_dom p'" if "p' \<in> set (address_pools (srv_allocator srv))" for p'
  proof -
    from that obtain i where i: "i < length (address_pools (srv_allocator srv))" "p' = address_pools (srv_allocator srv) ! i"
      by (auto simp: in_set_conv_nth)
    define p where "p = address_pools (boot_allocator b) ! i"
    have p: "p \<in> set (address_pools (boot_allocator b))" "same_pool p p'" "wf_pool p \<longrightarrow> wf_pool p'"
      using list_all2_nthD2[OF pools i(1)] i list_all2_lengthD[OF pools] by (simp_all add: p_def)
    have "fresh_pool p" using p(1) fresh by (simp add: fresh_allocator_def)
    moreover have "small_pool p" using small that same_pool_facts(2)[OF p(2)] by blast
    ultimately show ?thesis
      using fresh_pool_wf[of p] fresh_pool_positive[of p] p(3) same_pool_facts(1)[OF p(2)] by simp
  qed
  then show ?thesis
    using disj started_pools(3)[OF start] wf_cache_new
    by (auto simp: wf_server_def wf_allocator_def alloc_dom_def)
qed

section \<open>The default configuration\<close>

lemma default_addresses:
  "ipv4_address_to_uint32 CONFIG_DEFAULT_POOL_START = 0xC0A80101"
  "ipv4_address_to_uint32 CONFIG_DEFAULT_POOL_END = 0xC0A80164"
  "ipv4_address_to_uint32 CONFIG_DEFAULT_POOL_MASK = 0xFFFFFF00"
  by (simp_all add: ipv4_address_to_uint32_def scan_ipv4_def scan_u_def scan_sign_def is_space_def is_dec_def digit_val_def
      strtoul64_def scan_lit_def)

definition default_pool :: address_pool where
  "default_pool = the (address_pool_new (Some CONFIG_DEFAULT_POOL_NAME) 0xC0A80101 0xC0A80164 0xFFFFFF00)"

lemma default_pool_new: "address_pool_new (Some CONFIG_DEFAULT_POOL_NAME) 0xC0A80101 0xC0A80164 0xFFFFFF00 = Some default_pool"
  by (simp add: default_pool_def address_pool_new_def can_range_be_on_subnet_def)

definition default_config :: "string \<Rightarrow> u32 \<Rightarrow> u32 \<Rightarrow> config" where
  "default_config name ip_addr bcast = \<lparr>config_path = CONFIG_DEFAULT_PATH, interface = name, conf_bound_ip = ip_addr,
     conf_broadcast_addr = bcast, tick_delay = CONFIG_DEFAULT_TICK_DELAY, cache_size = CONFIG_DEFAULT_CACHE_SIZE,
     trans_duration = CONFIG_DEFAULT_TRANS_DURATION, conf_lease_check = CONFIG_DEFAULT_LEASE_EXPIRATION_CHECK,
     lease_time = CONFIG_DEFAULT_LEASE_TIME, log_verbosity = CONFIG_DEFAULT_LOG_VERBOSITY, acl_enable = 0,
     dynamic_acl_enable = 1, acl_blacklist = 0, db_enable = 1\<rparr>"

definition default_boot :: "string \<Rightarrow> u32 \<Rightarrow> u32 \<Rightarrow> boot" where
  "default_boot name ip_addr bcast = \<lparr>boot_config = default_config name ip_addr bcast,
     boot_allocator = \<lparr>default_options = [word_option 51 CONFIG_DEFAULT_LEASE_TIME], address_pools = [default_pool]\<rparr>\<rparr>"

text \<open>A host that has the interface, with its addresses in network byte order.\<close>

definition has_interface :: "'j conf_env \<Rightarrow> string \<Rightarrow> u32 \<Rightarrow> u32 \<Rightarrow> bool" where
  "has_interface env name a bc \<longleftrightarrow> (\<exists>before i after. ce_ifaddrs env = Some (before @ i # after) \<and>
     (\<forall>x \<in> set before. ifa_name x \<noteq> name) \<and> ifa_name i = name \<and> ifa_addr i = Some (AF_INET a) \<and>
     ifa_broadaddr i = Some bc \<and> ntohl a \<noteq> 0 \<and> ntohl bc \<noteq> 0)"

lemma interface_loop_skip:
  "\<forall>x \<in> set before. ifa_name x \<noteq> name \<Longrightarrow> interface_loop name (before @ ifs) cfg = interface_loop name ifs cfg"
  by (induction before) auto

lemma interface_info_found:
  assumes "has_interface env name a bc" "interface (boot_config b) = name" "length name < 256"
  shows "config_get_interface_info env b =
     Inr (0, b\<lparr>boot_config := (boot_config b)\<lparr>conf_bound_ip := ntohl a, conf_broadcast_addr := ntohl bc\<rparr>\<rparr>)"
  using assms by (auto simp: has_interface_def config_get_interface_info_def c_string_def interface_loop_skip Let_def)

lemma default_parse:
  assumes "has_interface env name a bc" "length name < 256"
  shows "config_parse_arguments env [''--default-configuration'', name] initial_boot =
     Inr (0, default_boot name (ntohl a) (ntohl bc))"
proof -
  have opt: "dhcp_option_new_values 51 4 (le_bytes CONFIG_DEFAULT_LEASE_TIME) = Inr (word_option 51 CONFIG_DEFAULT_LEASE_TIME)"
    using new_word_option[of 51 CONFIG_DEFAULT_LEASE_TIME] by simp
  have pool: "address_pool_new_str (Some CONFIG_DEFAULT_POOL_NAME) CONFIG_DEFAULT_POOL_START CONFIG_DEFAULT_POOL_END
      CONFIG_DEFAULT_POOL_MASK = Some default_pool"
    unfolding address_pool_new_str_def default_addresses by (rule default_pool_new)
  define b0 where "b0 = initial_boot\<lparr>boot_config := initial_config\<lparr>acl_enable := 2, acl_blacklist := 2, db_enable := 2,
    dynamic_acl_enable := 2\<rparr>\<rparr>"
  have "config_load_defaults env name b0 = Inr (0, default_boot name (ntohl a) (ntohl bc))"
    using assms
    by (simp add: config_load_defaults_def opt pool dhcp_option_add_def dhcp_option_retrieve_def allocator_add_pool_def
        allocator_get_pool_by_name_def address_allocator_new_def Let_def interface_info_found[OF assms(1)])
      (simp add: b0_def default_boot_def default_config_def initial_boot_def initial_config_def address_allocator_new_def)
  then have h: "handle_option env 3 1 (Some name) b0 = Inr (False, 0, default_boot name (ntohl a) (ntohl bc))"
    by (simp add: handle_option_def with_arg_def)
  have "getopt_long [] [''--default-configuration'', name] = Some (1, Some name, [], [])"
    by (simp add: long_option_def find_long_def long_options_def take_argument_def)
  with h show ?thesis
    by (simp add: config_parse_arguments_def parse_arguments_loop.simps Let_def)
      (auto simp: b0_def initial_boot_def initial_config_def numeral_3_eq_3)
qed

lemma default_load:
  assumes "ce_files env CONFIG_DEFAULT_PATH = None" "name \<noteq> []" "length name < 256"
  shows "config_load_configuration env (default_boot name x y) = Inr (0, default_boot name x y)"
  using assms
  by (simp add: config_load_configuration_def c_string_def config_load_json_file_def load_sections_def member_def
      config_load_server_config_def load_interface_def load_settings_def config_load_pools_config_def
      config_load_dhcp_options_def config_load_security_config_def number_setting_def flag_setting_def verbosity_setting_def
      default_boot_def default_config_def Let_def)

lemma default_pool_facts: "wf_pool default_pool" "pool_used default_pool = {}" "pool_name default_pool = CONFIG_DEFAULT_POOL_NAME"
  "pool_dom default_pool = {0xC0A80101..0xC0A80164}" "small_pool default_pool"
  using wf_pool_new[OF default_pool_new] address_pool_new_Some[OF default_pool_new] by (simp_all add: small_pool_def)

lemma default_start:
  assumes env: "has_interface (me_conf env) name a bc" "ce_files (me_conf env) CONFIG_DEFAULT_PATH = None"
      "ce_files (me_conf env) (lease_path CONFIG_DEFAULT_POOL_NAME) = None" "ce_open (me_conf env) (lease_path CONFIG_DEFAULT_POOL_NAME)"
      "cjson_ok (ce_json (me_conf env))" "me_logging env" "me_socket env" "me_unix env"
    and name: "name \<noteq> []" "length name < 256" "\<not> check_for_version_or_usage_flags [prog, ''--default-configuration'', name]"
  shows "\<exists>srv us p. main env [prog, ''--default-configuration'', name] = Inr (0, Some (srv, us)) \<and>
     bound_ip srv = ntohl a \<and> broadcast_addr srv = ntohl bc \<and>
     srv_allocator srv = \<lparr>default_options = [word_option 51 43200, word_option 54 (ntohl a)], address_pools = [p]\<rparr> \<and>
     pool_dom p = {0xC0A80101..0xC0A80164} \<and> pool_used p = {} \<and> wf_pool p \<and>
     trans_cache srv = trans_cache_new (me_now env) 25 60 \<and> \<not> acl_enabled (srv_acl srv)"
proof -
  let ?b = "default_boot name (ntohl a) (ntohl bc)" and ?api = "ce_json (me_conf env)"
  have "holds ?api (ce_files (me_conf env)) (pool_name default_pool) []"
    using env(3) by (simp add: holds_def default_pool_facts)
  from load_pool_leases_eq[OF env(5) _ this default_pool_facts(1), of "ce_open (me_conf env)" "me_now env"]
  obtain p fs where p: "load_pool_leases ?api (ce_open (me_conf env)) (me_now env) default_pool (ce_files (me_conf env)) = Inr (0, p, fs)"
    "wf_pool p" "pool_used p = {}" "pool_dom p = {0xC0A80101..0xC0A80164}"
    using env(4) default_pool_facts by auto
  have acl: "acl_entries_of (me_conf env) CONFIG_DEFAULT_PATH = None"
    using env(2) by (simp add: acl_entries_of_def config_load_json_file_def member_def)
  define srv0 where "srv0 = (server_of (ce_files (me_conf env)) (me_db env) ?b)\<lparr>lease_expiration_check :=
       timer_new (me_now env) TIMER_REPEAT 60 True (Some Check_lease_expirations)\<rparr>"
  have opts: "init_dhcp_options (boot_config ?b) srv0 = Inr (0, srv0\<lparr>srv_allocator := (srv_allocator srv0)\<lparr>default_options :=
      [word_option 51 43200, word_option 54 (ntohl a)]\<rparr>\<rparr>)"
    by (simp add: init_dhcp_options_def if_failed_def add_default_option_eq dhcp_option_add_def dhcp_option_retrieve_def)
      (simp add: srv0_def server_of_def default_boot_def default_config_def)
  have cmds: "fst (init_unix_commands idle_unix_server) = 0"
    by (simp add: init_unix_commands_def register_command_def)
  have conf: "boot_config ?b = default_config name (ntohl a) (ntohl bc)" "conf_lease_check (default_config name (ntohl a) (ntohl bc)) = 60"
    "cache_size (default_config name (ntohl a) (ntohl bc)) = 25" "trans_duration (default_config name (ntohl a) (ntohl bc)) = 60"
    "acl_enable (default_config name (ntohl a) (ntohl bc)) = 0" "acl_blacklist (default_config name (ntohl a) (ntohl bc)) = 0"
    "config_path (default_config name (ntohl a) (ntohl bc)) = CONFIG_DEFAULT_PATH"
    by (simp_all add: default_boot_def default_config_def)
  have alloc: "address_pools (srv_allocator srv0) = [default_pool]" "srv_files srv0 = ce_files (me_conf env)" "bound_ip srv0 = ntohl a"
    "broadcast_addr srv0 = ntohl bc"
    by (simp_all add: srv0_def server_of_def default_boot_def default_config_def)
  have "start_server env ?b idle_unix_server = Inr (0, Some (srv0\<lparr>srv_acl := ACL_new, trans_cache := trans_cache_new (me_now env) 25 60,
      srv_dacl := dynamic_ACL_new\<lparr>acl_enabled := True\<rparr>, srv_allocator := \<lparr>default_options = [word_option 51 43200, word_option 54 (ntohl a)],
      address_pools = [p]\<rparr>, srv_files := fs\<rparr>, snd (init_unix_commands idle_unix_server)))"
    unfolding start_server_def Let_def init_dhcp_server_timers_def
    using env(7,8) opts[unfolded srv0_def conf] p(1) alloc cmds
    by (simp add: conf split_def init_ACL_def acl ACL_load_acl_entries_def init_cache_def init_dynamic_ACL_def
      init_load_persisten_leases_def srv0_def ACL_new_def)
  moreover have "main env [prog, ''--default-configuration'', name] = start_server env ?b idle_unix_server"
    using name(3) env(6) default_parse[OF env(1) name(2)] default_load[OF env(2) name(1,2)]
    by (simp add: main_def init_allocator_def initial_boot_def)
  ultimately show ?thesis using p alloc(3,4) by (auto simp: ACL_new_def)
qed

text \<open>The host of the examples, with everything working.\<close>

definition host_main :: "string main_env" where
  "host_main = \<lparr>me_conf = host_env Map.empty, me_db = Map.empty, me_now = 9, me_logging = True, me_socket = True, me_unix = True\<rparr>"

abbreviation (input) host_argv :: "string list" where
  "host_argv \<equiv> [''dhcp'', ''--default-configuration'', ''eth0'']"

lemma host_interface: "has_interface (host_env fs) ''eth0'' 0x0101A8C0 0xFF01A8C0"
proof -
  have "ntohl 0x0101A8C0 \<noteq> 0" "ntohl 0xFF01A8C0 \<noteq> 0"
    by (simp_all add: ntohl_def htonl_def le_bytes_def le_word_def)
  then show ?thesis
    unfolding has_interface_def
    by (intro exI[of _ "[\<lparr>ifa_name = ''lo'', ifa_addr = Some (AF_INET 0x0100007F), ifa_broadaddr = None\<rparr>]"] exI[of _ "[]"]
        exI[of _ "\<lparr>ifa_name = ''eth0'', ifa_addr = Some (AF_INET 0x0101A8C0), ifa_broadaddr = Some 0xFF01A8C0\<rparr>"])
      (simp add: host_env_def)
qed

lemma host_start:
  obtains srv us p where "main host_main host_argv = Inr (0, Some (srv, us))"
    "address_pools (srv_allocator srv) = [p]" "wf_pool p" "pool_dom p = {0xC0A80101..0xC0A80164}"
proof -
  have "\<not> check_for_version_or_usage_flags host_argv" by (simp add: check_for_version_or_usage_flags_def)
  with default_start[of host_main "''eth0''" "0x0101A8C0" "0xFF01A8C0" "''dhcp''"] host_interface that plain_json_ok
  show thesis by (auto simp: host_main_def) (auto simp: host_env_def)
qed

section \<open>Properties\<close>

text \<open>
  C2. From the command line to every state the running server can reach: when the program
  starts up on any command line and configuration file, and the configured pools are disjoint
  and not almost as large as the address space, the tables of the server are well-formed in
  every reachable state, the configured pools and options stay, and the options the answers
  need (lease time and server identifier) are there.
\<close>

theorem started_server_keeps_invariant:
  assumes "main env argv = Inr (rv, Some (srv, us))" "pools_disjoint (srv_allocator srv)"
    and "\<forall>p \<in> set (address_pools (srv_allocator srv)). small_pool p"
    and "dhcp_server_serve pick cycles srv us = Inr (stopped, buf', srv', us')"
    and "\<forall>cy \<in> set cycles. env_json (cyc_env cy) = ce_json (me_conf env)"
  shows "wf_server srv' \<and> same_config (srv_allocator srv) (srv_allocator srv') \<and>
     (\<forall>t \<in> {51, 54}. dhcp_option_retrieve (default_options (srv_allocator srv')) t \<noteq> None)"
proof -
  from assms(1) obtain b1 b2 where parse: "config_parse_arguments (me_conf env) (tl argv) initial_boot = Inr (0, b1)"
    and load: "config_load_configuration (me_conf env) b1 = Inr (0, b2)"
    and start: "start_server env b2 idle_unix_server = Inr (rv, Some (srv, us))"
    by (rule main_cases)
  have "fresh_allocator (boot_allocator b2)"
    using load_configuration_fresh[OF load] parse_arguments_fresh[OF parse]
    by (simp add: initial_boot_def fresh_allocator_new)
  then have "wf_server srv" using start assms(2,3) by (intro started_wf)
  moreover obtain buf h where "serve_loop cycles (buf, srv\<lparr>srv_heap := h\<rparr>, us) = Inr (stopped, buf', srv', us')"
    using assms(4) by (auto simp: dhcp_server_serve_def split: prod.splits)
  ultimately have k: "keeps srv srv'"
    using server_run_keeps[OF serve_loop_run[OF _ assms(5)]] by (fastforce simp: keeps_def wf_server_def)
  have "dhcp_option_retrieve (default_options (srv_allocator srv)) t \<noteq> None" if "t \<in> {51, 54}" for t
    unfolding started_pools(2)[OF start] using that by (auto simp: opts.find_add split: option.split)
  moreover have "default_options (srv_allocator srv') = default_options (srv_allocator srv)"
    using k by (simp add: keeps_def same_config_def)
  ultimately show ?thesis using k by (simp add: keeps_def)
qed

theorem started_server_keeps_invariant_witness:
  "\<exists>srv us. main host_main host_argv = Inr (0, Some (srv, us)) \<and> wf_server srv"
proof -
  obtain srv us p where s: "main host_main host_argv = Inr (0, Some (srv, us))"
    "address_pools (srv_allocator srv) = [p]" "wf_pool p" "pool_dom p = {0xC0A80101..0xC0A80164}"
    by (rule host_start)
  have "pools_disjoint (srv_allocator srv)" "\<forall>p \<in> set (address_pools (srv_allocator srv)). small_pool p"
    using s(2,3) by (simp_all add: pools_disjoint_def small_pool_def wf_pool_def word_less_nat_alt unat_minus_le less_imp_le)
  from started_server_keeps_invariant[OF s(1) this, of "\<lambda>_. 0" "[]"] s(1)
  show ?thesis by (auto simp: dhcp_server_serve_def dhcp_message_new_def heap_new_def wf_server_def)
qed



text \<open>
  The flag \<open>--dynamic-acl-disable\<close> and the setting \<open>dynamic_acl\<close> have no effect: a started
  server always has the dynamic list enabled.
\<close>

theorem dynamic_acl_always_enabled:
  assumes "main env argv = Inr (rv, Some (srv, us))"
  shows "acl_enabled (srv_dacl srv)"
  using assms by (elim main_cases) (auto dest: started_pools(6))

theorem dynamic_acl_always_enabled_witness:
  "\<exists>srv us. main host_main host_argv = Inr (0, Some (srv, us)) \<and> acl_enabled (srv_dacl srv)"
  by (rule host_start) (blast intro: dynamic_acl_always_enabled)

text \<open>
  A start that fails after the command line was read, because a socket can not be set up,
  exits with the status 0 of success.
\<close>

theorem failed_start_reports_success:
  assumes "\<not> check_for_version_or_usage_flags argv" "me_logging env" "\<not> me_socket env \<or> \<not> me_unix env"
    and "config_parse_arguments (me_conf env) (tl argv) initial_boot = Inr (0, b1)"
    and "config_load_configuration (me_conf env) b1 = Inr (0, b2)"
  shows "main env argv = Inr (0, None)"
proof -
  have "init_allocator initial_boot = (0, initial_boot)" by (simp add: init_allocator_def initial_boot_def)
  with assms show ?thesis by (auto simp: main_def start_server_def Let_def init_dhcp_server_timers_def)
qed

theorem failed_start_reports_success_witness:
  "main (host_main\<lparr>me_socket := False\<rparr>) host_argv = Inr (0, None)"
proof -
  have "\<not> check_for_version_or_usage_flags host_argv" by (simp add: check_for_version_or_usage_flags_def)
  moreover have "me_conf (host_main\<lparr>me_socket := False\<rparr>) = host_env Map.empty" "me_logging (host_main\<lparr>me_socket := False\<rparr>)"
    by (simp_all add: host_main_def)
  moreover have "config_load_configuration (host_env Map.empty) (default_boot ''eth0'' x y) = Inr (0, default_boot ''eth0'' x y)" for x y
    by (rule default_load) (simp_all add: host_env_def)
  ultimately show ?thesis
    using failed_start_reports_success[of host_argv "host_main\<lparr>me_socket := False\<rparr>"] default_parse[OF host_interface, of Map.empty]
    by simp
qed

end
