(* ===== verification/Gui_base.thy ===== *)
theory Gui_base
  imports Commands Database
begin

text \<open>
  What the parts of the user interface (\<open>gui/src\<close>, C++) share: the tables of option types and
  names (\<open>RFC-2132.hpp\<close> and \<open>RFC-2132.cpp\<close>; the tags are those of the server, see below), and the functions of the C++
  library they call. \<open>xtoy.cpp\<close> has the text of the server's \<open>utils/xtoy.c\<close>; its definitions are
  those of \<open>Xtoy\<close>. The widgets of FTXUI are not modelled: a tab is the state its methods work on,
  and the user changes the texts and selections of that state. An exception of the C++ library
  is caught nowhere and ends the program (\<open>Uncaught\<close>).
\<close>

section \<open>The tables of \<open>RFC-2132.hpp\<close> and \<open>RFC-2132.cpp\<close>\<close>

text \<open>The enumeration of the option tags in the header of the user interface, and the same one in the server's.\<close>

definition DHCPv4_Options :: "(string \<times> int) list" where
  "DHCPv4_Options =
    [(''DHCP_OPTION_PAD'', 0), (''DHCP_OPTION_SUBNET_MASK'', 1), (''DHCP_OPTION_TIME_OFFSET'', 2),
     (''DHCP_OPTION_ROUTER'', 3), (''DHCP_OPTION_TIME_SERVERS'', 4), (''DHCP_OPTION_NAME_SERVERS'', 5),
     (''DHCP_OPTION_DOMAIN_NAME_SERVERS'', 6), (''DHCP_OPTION_LOG_SERVERS'', 7), (''DHCP_OPTION_COOKIE_SERVERS'', 8),
     (''DHCP_OPTION_LPR_SERVERS'', 9), (''DHCP_OPTION_IMPRESS_SERVERS'', 10),
     (''DHCP_OPTION_RESOURCE_LOCATION_SERVERS'', 11), (''DHCP_OPTION_HOST_NAME'', 12), (''DHCP_OPTION_BOOT_FILE_SIZE'', 13),
     (''DHCP_OPTION_MERIT_DUMP'', 14), (''DHCP_OPTION_DOMAIN_NAME'', 15), (''DHCP_OPTION_SWAP_SERVER'', 16),
     (''DHCP_OPTION_ROOT_PATH'', 17), (''DHCP_OPTION_EXTENSIONS_PATH'', 18),
     (''DHCP_OPTION_IP_FORWARDING_ENABLE_DISABLE'', 19), (''DHCP_OPTION_NON_LOCAL_SOURCE_ROUTING_ENABLE_DISABLE'', 20),
     (''DHCP_OPTION_POLICY_FILTER'', 21), (''DHCP_OPTION_MAX_DGRAM_REASSEMBLY_SIZE'', 22),
     (''DHCP_OPTION_DEFAULT_IP_TTL'', 23), (''DHCP_OPTION_PATH_MTU_AGING_TIMEOUT'', 24),
     (''DHCP_OPTION_PATH_MTU_PLATEAU_TABLE'', 25), (''DHCP_OPTION_INTERFACE_MTU'', 26),
     (''DHCP_OPTION_ALL_SUBNETS_LOCAL'', 27), (''DHCP_OPTION_BROADCAST_ADDRESS'', 28),
     (''DHCP_OPTION_PERFORM_MASK_DISCOVERY'', 29), (''DHCP_OPTION_MASK_SUPPLIER'', 30),
     (''DHCP_OPTION_ROUTER_DISCOVERY'', 31), (''DHCP_OPTION_ROUTER_SOLICITATION_ADDRESS'', 32),
     (''DHCP_OPTION_STATIC_ROUTE'', 33), (''DHCP_OPTION_TRAILER_ENCAPSULATION'', 34),
     (''DHCP_OPTION_ARP_CACHE_TIMEOUT'', 35), (''DHCP_OPTION_IEEE802_3_ENCAPSULATION'', 36),
     (''DHCP_OPTION_DEFAULT_TCP_TTL'', 37), (''DHCP_OPTION_TCP_KEEPALIVE_INTERVAL'', 38),
     (''DHCP_OPTION_TCP_KEEPALIVE_GARBAGE'', 39), (''DHCP_OPTION_NIS_DOMAIN'', 40), (''DHCP_OPTION_NIS_SERVERS'', 41),
     (''DHCP_OPTION_NTP_SERVERS'', 42), (''DHCP_OPTION_VENDOR_SPECIFIC_INFO'', 43),
     (''DHCP_OPTION_NETBIOS_NAME_SERVERS'', 44), (''DHCP_OPTION_NETBIOS_DD_SERVER'', 45),
     (''DHCP_OPTION_NETBIOS_NODE_TYPE'', 46), (''DHCP_OPTION_NETBIOS_SCOPE'', 47),
     (''DHCP_OPTION_X_WINDOW_FONT_SERVER'', 48), (''DHCP_OPTION_X_WINDOW_DISPLAY_MANAGER'', 49),
     (''DHCP_OPTION_REQUESTED_IP_ADDRESS'', 50), (''DHCP_OPTION_IP_ADDRESS_LEASE_TIME'', 51),
     (''DHCP_OPTION_OVERLOAD'', 52), (''DHCP_OPTION_DHCP_MESSAGE_TYPE'', 53), (''DHCP_OPTION_SERVER_IDENTIFIER'', 54),
     (''DHCP_OPTION_PARAMETER_REQUEST_LIST'', 55), (''DHCP_OPTION_MESSAGE'', 56),
     (''DHCP_OPTION_MAX_DHCP_MESSAGE_SIZE'', 57), (''DHCP_OPTION_RENEWAL_TIME_VALUE'', 58),
     (''DHCP_OPTION_REBINDING_TIME_VALUE'', 59), (''DHCP_OPTION_VENDOR_CLASS_IDENTIFIER'', 60),
     (''DHCP_OPTION_CLIENT_IDENTIFIER'', 61), (''DHCP_OPTION_NWIP_DOMAIN_NAME'', 62), (''DHCP_OPTION_NWIP_SUBOPTIONS'', 63),
     (''DHCP_OPTION_USER_CLASS'', 77), (''DHCP_OPTION_FQDN'', 81), (''DHCP_OPTION_DHCP_AGENT_OPTIONS'', 82),
     (''DHCP_OPTION_END'', 255)]"

definition server_options :: "u8 list" where
  "server_options =
    [DHCP_OPTION_PAD, DHCP_OPTION_SUBNET_MASK, DHCP_OPTION_TIME_OFFSET, DHCP_OPTION_ROUTER, DHCP_OPTION_TIME_SERVERS,
     DHCP_OPTION_NAME_SERVERS, DHCP_OPTION_DOMAIN_NAME_SERVERS, DHCP_OPTION_LOG_SERVERS, DHCP_OPTION_COOKIE_SERVERS,
     DHCP_OPTION_LPR_SERVERS, DHCP_OPTION_IMPRESS_SERVERS, DHCP_OPTION_RESOURCE_LOCATION_SERVERS, DHCP_OPTION_HOST_NAME,
     DHCP_OPTION_BOOT_FILE_SIZE, DHCP_OPTION_MERIT_DUMP, DHCP_OPTION_DOMAIN_NAME, DHCP_OPTION_SWAP_SERVER,
     DHCP_OPTION_ROOT_PATH, DHCP_OPTION_EXTENSIONS_PATH, DHCP_OPTION_IP_FORWARDING_ENABLE_DISABLE,
     DHCP_OPTION_NON_LOCAL_SOURCE_ROUTING_ENABLE_DISABLE, DHCP_OPTION_POLICY_FILTER, DHCP_OPTION_MAX_DGRAM_REASSEMBLY_SIZE,
     DHCP_OPTION_DEFAULT_IP_TTL, DHCP_OPTION_PATH_MTU_AGING_TIMEOUT, DHCP_OPTION_PATH_MTU_PLATEAU_TABLE,
     DHCP_OPTION_INTERFACE_MTU, DHCP_OPTION_ALL_SUBNETS_LOCAL, DHCP_OPTION_BROADCAST_ADDRESS,
     DHCP_OPTION_PERFORM_MASK_DISCOVERY, DHCP_OPTION_MASK_SUPPLIER, DHCP_OPTION_ROUTER_DISCOVERY,
     DHCP_OPTION_ROUTER_SOLICITATION_ADDRESS, DHCP_OPTION_STATIC_ROUTE, DHCP_OPTION_TRAILER_ENCAPSULATION,
     DHCP_OPTION_ARP_CACHE_TIMEOUT, DHCP_OPTION_IEEE802_3_ENCAPSULATION, DHCP_OPTION_DEFAULT_TCP_TTL,
     DHCP_OPTION_TCP_KEEPALIVE_INTERVAL, DHCP_OPTION_TCP_KEEPALIVE_GARBAGE, DHCP_OPTION_NIS_DOMAIN, DHCP_OPTION_NIS_SERVERS,
     DHCP_OPTION_NTP_SERVERS, DHCP_OPTION_VENDOR_SPECIFIC_INFO, DHCP_OPTION_NETBIOS_NAME_SERVERS,
     DHCP_OPTION_NETBIOS_DD_SERVER, DHCP_OPTION_NETBIOS_NODE_TYPE, DHCP_OPTION_NETBIOS_SCOPE,
     DHCP_OPTION_X_WINDOW_FONT_SERVER, DHCP_OPTION_X_WINDOW_DISPLAY_MANAGER, DHCP_OPTION_REQUESTED_IP_ADDRESS,
     DHCP_OPTION_IP_ADDRESS_LEASE_TIME, DHCP_OPTION_OVERLOAD, DHCP_OPTION_DHCP_MESSAGE_TYPE, DHCP_OPTION_SERVER_IDENTIFIER,
     DHCP_OPTION_PARAMETER_REQUEST_LIST, DHCP_OPTION_MESSAGE, DHCP_OPTION_MAX_DHCP_MESSAGE_SIZE,
     DHCP_OPTION_RENEWAL_TIME_VALUE, DHCP_OPTION_REBINDING_TIME_VALUE, DHCP_OPTION_VENDOR_CLASS_IDENTIFIER,
     DHCP_OPTION_CLIENT_IDENTIFIER, DHCP_OPTION_NWIP_DOMAIN_NAME, DHCP_OPTION_NWIP_SUBOPTIONS, DHCP_OPTION_USER_CLASS,
     DHCP_OPTION_FQDN, DHCP_OPTION_DHCP_AGENT_OPTIONS, DHCP_OPTION_END]"

definition gui_tag_to_type :: "int \<Rightarrow> dhcp_option_type" where
  "gui_tag_to_type tag =
    (if tag_in tag [DHCP_OPTION_SUBNET_MASK, DHCP_OPTION_ROUTER, DHCP_OPTION_TIME_SERVERS,
        DHCP_OPTION_NAME_SERVERS, DHCP_OPTION_DOMAIN_NAME_SERVERS, DHCP_OPTION_LOG_SERVERS,
        DHCP_OPTION_COOKIE_SERVERS, DHCP_OPTION_LPR_SERVERS, DHCP_OPTION_SERVER_IDENTIFIER,
        DHCP_OPTION_IMPRESS_SERVERS, DHCP_OPTION_RESOURCE_LOCATION_SERVERS,
        DHCP_OPTION_SWAP_SERVER, DHCP_OPTION_BROADCAST_ADDRESS,
        DHCP_OPTION_ROUTER_SOLICITATION_ADDRESS, DHCP_OPTION_STATIC_ROUTE,
        DHCP_OPTION_NIS_SERVERS, DHCP_OPTION_NTP_SERVERS, DHCP_OPTION_NETBIOS_NAME_SERVERS,
        DHCP_OPTION_NETBIOS_DD_SERVER, DHCP_OPTION_X_WINDOW_FONT_SERVER,
        DHCP_OPTION_X_WINDOW_DISPLAY_MANAGER, DHCP_OPTION_REQUESTED_IP_ADDRESS]
     then DHCP_OPTION_IP
     else if tag_in tag [DHCP_OPTION_TIME_OFFSET, DHCP_OPTION_BOOT_FILE_SIZE, DHCP_OPTION_DEFAULT_IP_TTL,
        DHCP_OPTION_PATH_MTU_AGING_TIMEOUT, DHCP_OPTION_INTERFACE_MTU,
        DHCP_OPTION_MAX_DGRAM_REASSEMBLY_SIZE, DHCP_OPTION_DEFAULT_TCP_TTL,
        DHCP_OPTION_TCP_KEEPALIVE_INTERVAL, DHCP_OPTION_IP_ADDRESS_LEASE_TIME,
        DHCP_OPTION_NETBIOS_NODE_TYPE, DHCP_OPTION_RENEWAL_TIME_VALUE,
        DHCP_OPTION_REBINDING_TIME_VALUE, DHCP_OPTION_DHCP_MESSAGE_TYPE,
        DHCP_OPTION_ARP_CACHE_TIMEOUT, DHCP_OPTION_OVERLOAD]
     then DHCP_OPTION_NUMERIC
     else if tag_in tag [DHCP_OPTION_IP_FORWARDING_ENABLE_DISABLE,
        DHCP_OPTION_NON_LOCAL_SOURCE_ROUTING_ENABLE_DISABLE, DHCP_OPTION_ROUTER_DISCOVERY,
        DHCP_OPTION_ALL_SUBNETS_LOCAL, DHCP_OPTION_MASK_SUPPLIER,
        DHCP_OPTION_TRAILER_ENCAPSULATION, DHCP_OPTION_PERFORM_MASK_DISCOVERY,
        DHCP_OPTION_IEEE802_3_ENCAPSULATION, DHCP_OPTION_TCP_KEEPALIVE_GARBAGE]
     then DHCP_OPTION_BOOL
     else if tag_in tag [DHCP_OPTION_POLICY_FILTER, DHCP_OPTION_HOST_NAME, DHCP_OPTION_NIS_DOMAIN,
        DHCP_OPTION_DOMAIN_NAME, DHCP_OPTION_USER_CLASS, DHCP_OPTION_FQDN,
        DHCP_OPTION_ROOT_PATH, DHCP_OPTION_EXTENSIONS_PATH, DHCP_OPTION_NETBIOS_SCOPE]
     then DHCP_OPTION_STRING
     else DHCP_OPTION_BIN)"

definition tag_names :: "(u8 \<times> string) list" where
  "tag_names = [
     (DHCP_OPTION_PAD, ''Pad''),
     (DHCP_OPTION_SUBNET_MASK, ''Subnet mask''),
     (DHCP_OPTION_TIME_OFFSET, ''Time offset''),
     (DHCP_OPTION_ROUTER, ''Router''),
     (DHCP_OPTION_TIME_SERVERS, ''Time servers''),
     (DHCP_OPTION_NAME_SERVERS, ''Name servers''),
     (DHCP_OPTION_DOMAIN_NAME_SERVERS, ''Domain name servers''),
     (DHCP_OPTION_LOG_SERVERS, ''Log servers''),
     (DHCP_OPTION_COOKIE_SERVERS, ''Cookie servers''),
     (DHCP_OPTION_LPR_SERVERS, ''LPR servers''),
     (DHCP_OPTION_IMPRESS_SERVERS, ''Impress servers''),
     (DHCP_OPTION_RESOURCE_LOCATION_SERVERS, ''Resource location servers''),
     (DHCP_OPTION_HOST_NAME, ''Host name''),
     (DHCP_OPTION_BOOT_FILE_SIZE, ''Boot file size''),
     (DHCP_OPTION_MERIT_DUMP, ''Merit dump''),
     (DHCP_OPTION_DOMAIN_NAME, ''Domain name''),
     (DHCP_OPTION_SWAP_SERVER, ''Swap server''),
     (DHCP_OPTION_ROOT_PATH, ''Root path''),
     (DHCP_OPTION_EXTENSIONS_PATH, ''Extensions path''),
     (DHCP_OPTION_IP_FORWARDING_ENABLE_DISABLE, ''IP forwarding enable/disable''),
     (DHCP_OPTION_NON_LOCAL_SOURCE_ROUTING_ENABLE_DISABLE, ''Non-local source routing enable/disable''),
     (DHCP_OPTION_POLICY_FILTER, ''Policy filter''),
     (DHCP_OPTION_MAX_DGRAM_REASSEMBLY_SIZE, ''Max datagram reassembly size''),
     (DHCP_OPTION_DEFAULT_IP_TTL, ''Default IP TTL''),
     (DHCP_OPTION_PATH_MTU_AGING_TIMEOUT, ''Path MTU aging timeout''),
     (DHCP_OPTION_PATH_MTU_PLATEAU_TABLE, ''Path MTU plateau table''),
     (DHCP_OPTION_INTERFACE_MTU, ''Interface MTU''),
     (DHCP_OPTION_ALL_SUBNETS_LOCAL, ''All subnets local''),
     (DHCP_OPTION_BROADCAST_ADDRESS, ''Broadcast address''),
     (DHCP_OPTION_PERFORM_MASK_DISCOVERY, ''Perform mask discovery''),
     (DHCP_OPTION_MASK_SUPPLIER, ''Mask supplier''),
     (DHCP_OPTION_ROUTER_DISCOVERY, ''Router discovery''),
     (DHCP_OPTION_ROUTER_SOLICITATION_ADDRESS, ''Router solicitation address''),
     (DHCP_OPTION_STATIC_ROUTE, ''Static route''),
     (DHCP_OPTION_TRAILER_ENCAPSULATION, ''Trailer encapsulation''),
     (DHCP_OPTION_ARP_CACHE_TIMEOUT, ''ARP cache timeout''),
     (DHCP_OPTION_IEEE802_3_ENCAPSULATION, ''IEEE802.3 encapsulation''),
     (DHCP_OPTION_DEFAULT_TCP_TTL, ''Default TCP TTL''),
     (DHCP_OPTION_TCP_KEEPALIVE_INTERVAL, ''TCP keepalive interval''),
     (DHCP_OPTION_TCP_KEEPALIVE_GARBAGE, ''TCP keepalive garbage''),
     (DHCP_OPTION_NIS_DOMAIN, ''NIS domain''),
     (DHCP_OPTION_NIS_SERVERS, ''NIS servers''),
     (DHCP_OPTION_NTP_SERVERS, ''NTP servers''),
     (DHCP_OPTION_VENDOR_SPECIFIC_INFO, ''Vendor specific info''),
     (DHCP_OPTION_NETBIOS_NAME_SERVERS, ''NetBIOS name servers''),
     (DHCP_OPTION_NETBIOS_DD_SERVER, ''NetBIOS DD server''),
     (DHCP_OPTION_NETBIOS_NODE_TYPE, ''NetBIOS node type''),
     (DHCP_OPTION_NETBIOS_SCOPE, ''NetBIOS scope''),
     (DHCP_OPTION_X_WINDOW_FONT_SERVER, ''X window font server''),
     (DHCP_OPTION_X_WINDOW_DISPLAY_MANAGER, ''X window display manager''),
     (DHCP_OPTION_REQUESTED_IP_ADDRESS, ''Requested IP address''),
     (DHCP_OPTION_IP_ADDRESS_LEASE_TIME, ''IP address lease time''),
     (DHCP_OPTION_OVERLOAD, ''Overload''),
     (DHCP_OPTION_DHCP_MESSAGE_TYPE, ''DHCP message type''),
     (DHCP_OPTION_SERVER_IDENTIFIER, ''Server identifier''),
     (DHCP_OPTION_PARAMETER_REQUEST_LIST, ''Parameter request list''),
     (DHCP_OPTION_MESSAGE, ''Message''),
     (DHCP_OPTION_MAX_DHCP_MESSAGE_SIZE, ''Max DHCP message size''),
     (DHCP_OPTION_RENEWAL_TIME_VALUE, ''Renewal time value''),
     (DHCP_OPTION_REBINDING_TIME_VALUE, ''Rebinding time value''),
     (DHCP_OPTION_VENDOR_CLASS_IDENTIFIER, ''Vendor class identifier''),
     (DHCP_OPTION_CLIENT_IDENTIFIER, ''Client identifier''),
     (DHCP_OPTION_NWIP_DOMAIN_NAME, ''NWIP domain name''),
     (DHCP_OPTION_NWIP_SUBOPTIONS, ''NWIP suboptions''),
     (DHCP_OPTION_USER_CLASS, ''User class''),
     (DHCP_OPTION_FQDN, ''FQDN''),
     (DHCP_OPTION_DHCP_AGENT_OPTIONS, ''DHCP agent options''),
     (DHCP_OPTION_END, ''End'')]"

definition DHCPv4_tag_to_full_name :: "int \<Rightarrow> string" where
  "DHCPv4_tag_to_full_name tag =
    (case List.find (\<lambda>(t, _). uint t = tag) tag_names of None \<Rightarrow> ''Unknown'' | Some (_, n) \<Rightarrow> n)"

section \<open>Numbers and strings of the C++ library\<close>

text \<open>\<open>std::to_string\<close> of an \<open>int\<close>.\<close>

definition to_string :: "int \<Rightarrow> string" where
  "to_string i = (if i < 0 then CHR ''-'' # dec (nat (- i)) else dec (nat i))"

text \<open>\<open>std::stoi\<close>: \<open>invalid_argument\<close> without a number, \<open>out_of_range\<close> beyond \<open>int\<close>.\<close>

definition stoi :: "string \<Rightarrow> int c" where
  "stoi s =
     (let (neg, s1) = scan_sign (dropWhile is_space s); ds = takeWhile is_dec s1;
          n = int (digits_val 10 0 ds); v = (if neg then - n else n)
      in if ds = [] \<or> v < - (2 ^ 31) \<or> 2 ^ 31 \<le> v then Inl Uncaught else Inr v)"

text \<open>\<open>s.substr(pos, n)\<close>: \<open>out_of_range\<close> when it begins behind the end.\<close>

definition substr :: "string \<Rightarrow> nat \<Rightarrow> nat \<Rightarrow> string c" where
  "substr s pos n = (if length s < pos then Inl Uncaught else Inr (take n (drop pos s)))"

text \<open>\<open>s.find(t) != npos\<close>.\<close>

fun contains :: "string \<Rightarrow> string \<Rightarrow> bool" where
  "contains [] t \<longleftrightarrow> t = []"
| "contains (c # s) t \<longleftrightarrow> take (length t) (c # s) = t \<or> contains s t"

text \<open>A \<open>std::string\<close> made from a \<open>char *\<close>: \<open>logic_error\<close> from NULL.\<close>

definition string_of :: "string option \<Rightarrow> string c" where
  "string_of p = (case p of None \<Rightarrow> Inl Uncaught | Some s \<Rightarrow> Inr s)"

text \<open>The elements of a \<open>std::vector\<close> but the one at a position.\<close>

definition erase_at :: "nat \<Rightarrow> 'a list \<Rightarrow> 'a list c" where
  "erase_at i xs = (if i < length xs then Inr (take i xs @ drop (Suc i) xs) else Inl Out_of_bounds)"

section \<open>Times\<close>

text \<open>\<open>std::gmtime\<close>: seconds since 1970 as a date of the Gregorian calendar and a time of the day.\<close>

definition leap_year :: "nat \<Rightarrow> bool" where
  "leap_year y \<longleftrightarrow> y mod 4 = 0 \<and> (y mod 100 \<noteq> 0 \<or> y mod 400 = 0)"

definition year_days :: "nat \<Rightarrow> nat" where
  "year_days y = (if leap_year y then 366 else 365)"

definition month_days :: "nat \<Rightarrow> nat \<Rightarrow> nat" where
  "month_days y m = (if m = 2 then (if leap_year y then 29 else 28)
     else if m \<in> {4, 6, 9, 11} then 30 else 31)"

function year_loop :: "nat \<Rightarrow> nat \<Rightarrow> nat \<times> nat" where
  "year_loop y d = (if d < year_days y then (y, d) else year_loop (Suc y) (d - year_days y))"
  by auto
termination
  by (relation "measure snd") (auto simp: year_days_def not_less)

fun month_loop :: "nat \<Rightarrow> nat \<Rightarrow> nat list \<Rightarrow> nat \<times> nat" where
  "month_loop y d [] = (12, d)"
| "month_loop y d (m # ms) = (if d < month_days y m then (m, d) else month_loop y (d - month_days y m) ms)"

declare year_loop.simps [simp del]

definition gmtime :: "u32 \<Rightarrow> (nat \<times> nat \<times> nat) \<times> nat \<times> nat \<times> nat" where
  "gmtime t =
     (let n = unat t; (y, d) = year_loop 1970 (n div 86400); (m, d) = month_loop y d [1..<13]; r = n mod 86400
      in ((y, m, Suc d), r div 3600, r mod 3600 div 60, r mod 60))"

definition pad2 :: "nat \<Rightarrow> string" where
  "pad2 n = [digit_char (n div 10), digit_char (n mod 10)]"

text \<open>\<open>std::put_time(t, "%Y-%m-%d %I:%M:%S %p")\<close>\<close>

definition put_time :: "(nat \<times> nat \<times> nat) \<times> nat \<times> nat \<times> nat \<Rightarrow> string" where
  "put_time = (\<lambda>((y, m, d), h, mi, sec).
     dec y @ ''-'' @ pad2 m @ ''-'' @ pad2 d @ '' '' @
     pad2 (if h mod 12 = 0 then 12 else h mod 12) @ '':'' @ pad2 mi @ '':'' @ pad2 sec @
     (if h < 12 then '' AM'' else '' PM''))"

text \<open>A 32-bit number as \<open>0x\<close> and eight hexadecimal digits.\<close>

definition hex_text :: "u32 \<Rightarrow> string" where
  "hex_text w = ''0x'' @ hex8 w"

section \<open>Lemmas\<close>

lemma dec_scan:
  "takeWhile is_dec (dec n) = dec n" "dropWhile is_space (dec n) = dec n" "scan_sign (dec n) = (False, dec n)"
proof -
  obtain ds where ds: "dec n = map digit_char ds" "\<forall>d \<in> set ds. d < 10" using dec_digits by blast
  then obtain e es where es: "ds = e # es" using dec_nonempty[of n] by (cases ds) auto
  have "\<forall>c \<in> set (dec n). is_dec c" using ds by auto
  then show "takeWhile is_dec (dec n) = dec n" by (simp add: takeWhile_eq_all_conv)
  show "dropWhile is_space (dec n) = dec n" "scan_sign (dec n) = (False, dec n)"
    using ds es by (simp_all add: scan_sign_def)
qed

lemma stoi_to_string: "- (2 ^ 31) \<le> i \<Longrightarrow> i < 2 ^ 31 \<Longrightarrow> stoi (to_string i) = Inr i"
proof (cases "i < 0")
  case True
  moreover assume "- (2 ^ 31) \<le> i" "i < 2 ^ 31"
  moreover have "\<not> is_space (CHR ''-'')" by (simp add: is_space_def)
  ultimately show ?thesis
    by (simp add: stoi_def to_string_def scan_sign_def dec_scan digits_val_dec Let_def)
next
  case False
  moreover assume "- (2 ^ 31) \<le> i" "i < 2 ^ 31"
  ultimately show ?thesis by (simp add: stoi_def to_string_def dec_scan digits_val_dec Let_def)
qed

lemma substr_prefix [simp]: "length p = n \<Longrightarrow> substr (p @ s) n k = Inr (take k s)"
  by (simp add: substr_def)

lemma contains_prefix: "contains (t @ ys) t"
proof (cases t)
  case Nil
  then show ?thesis by (cases ys) auto
qed simp

lemma contains_append: "contains (xs @ t @ ys) t"
  by (induction xs) (simp_all only: append_Nil append_Cons contains_prefix contains.simps simp_thms)

text \<open>The day count that a date stands for.\<close>

definition days_before :: "nat \<times> nat \<times> nat \<Rightarrow> nat" where
  "days_before = (\<lambda>(y, m, d). (\<Sum>i = 1970..<y. year_days i) + (\<Sum>i = 1..<m. month_days y i) + (d - 1))"

lemma year_loop_days:
  "b \<le> y \<Longrightarrow> year_loop y d = (y', d') \<Longrightarrow>
   (\<Sum>i = b..<y. year_days i) + d = (\<Sum>i = b..<y'. year_days i) + d' \<and> d' < year_days y'"
proof (induction y d rule: year_loop.induct)
  case (1 y d)
  show ?case
  proof (cases "d < year_days y")
    case True
    with 1 show ?thesis by (subst (asm) year_loop.simps) auto
  next
    case False
    then have "year_loop (Suc y) (d - year_days y) = (y', d')" using 1 by (subst (asm) year_loop.simps) simp
    with 1 False show ?thesis by simp
  qed
qed

lemma month_loop_days:
  "d < (\<Sum>i = a..<13. month_days y i) \<Longrightarrow> a \<le> 12 \<Longrightarrow> 1 \<le> a \<Longrightarrow> month_loop y d [a..<13] = (m, d') \<Longrightarrow>
   (\<Sum>i = 1..<a. month_days y i) + d = (\<Sum>i = 1..<m. month_days y i) + d' \<and> 1 \<le> m \<and> m \<le> 12"
proof (induction "13 - a" arbitrary: a d)
  case (Suc k)
  then have cons: "[a..<13] = a # [Suc a..<13]" by (simp add: upt_conv_Cons)
  show ?case
  proof (cases "d < month_days y a")
    case True
    with Suc cons show ?thesis by simp
  next
    case False
    have sum: "(\<Sum>i = a..<13. month_days y i) = month_days y a + (\<Sum>i = Suc a..<13. month_days y i)"
      using Suc by (simp add: sum.atLeast_Suc_lessThan)
    then have "a \<noteq> 12" using False Suc by auto
    with Suc False cons sum show ?thesis using Suc.hyps(1)[of "Suc a" "d - month_days y a"] by simp
  qed
qed simp

lemma year_months: "year_days y = (\<Sum>i = 1..<13. month_days y i)"
  by (simp add: year_days_def month_days_def numeral_eq_Suc sum.atLeast_Suc_lessThan)

text \<open>The shown date and time determine the second.\<close>

lemma gmtime_seconds:
  assumes "gmtime t = (date, h, mi, sec)"
  shows "unat t = 86400 * days_before date + 3600 * h + 60 * mi + sec"
proof -
  obtain y d where y: "year_loop 1970 (unat t div 86400) = (y, d)" by fastforce
  obtain m d' where m: "month_loop y d [1..<13] = (m, d')" by fastforce
  note yd = year_loop_days[of 1970 1970, OF _ y]
  have "(\<Sum>i = 1970..<y. year_days i) + d = unat t div 86400" "d < year_days y" using yd by simp_all
  moreover have "d = (\<Sum>i = 1..<m. month_days y i) + d'"
    using month_loop_days[of d y 1 m d'] m calculation(2) by (simp add: year_months)
  moreover have "date = (y, m, Suc d')" "h = unat t mod 86400 div 3600" "mi = unat t mod 86400 mod 3600 div 60"
    "sec = unat t mod 86400 mod 60"
    using assms y m by (auto simp: gmtime_def Let_def)
  ultimately have "86400 * days_before date = 86400 * (unat t div 86400)" by (simp add: days_before_def)
  moreover have "unat t mod 86400 mod 3600 mod 60 = unat t mod 86400 mod 60" by (rule mod_mod_cancel) simp
  then have "3600 * h + 60 * mi + sec = unat t mod 86400"
    using mult_div_mod_eq[of 3600 "unat t mod 86400"] mult_div_mod_eq[of 60 "unat t mod 86400 mod 3600"]
      \<open>h = _\<close> \<open>mi = _\<close> \<open>sec = _\<close> by linarith
  ultimately show ?thesis using mult_div_mod_eq[of 86400 "unat t"] by linarith
qed

lemma gui_types: "gui_tag_to_type tag = (if tag = 14 then DHCP_OPTION_BIN else dhcp_option_tag_to_type tag)"
  by (simp add: gui_tag_to_type_def dhcp_option_tag_to_type_def tag_in_def)

lemma named_tags: "map snd DHCPv4_Options = map (\<lambda>(t, _). uint t) tag_names"
  by (simp add: DHCPv4_Options_def tag_names_def)

lemma names_known: "\<forall>(_, n) \<in> set tag_names. n \<noteq> ''Unknown''"
  by (simp add: tag_names_def)

lemma tag_known:
  assumes "t \<in> set (map snd DHCPv4_Options)"
  shows "DHCPv4_tag_to_full_name t \<noteq> ''Unknown''"
proof (cases "List.find (\<lambda>(t', _). uint t' = t) tag_names")
  case None
  then show ?thesis using assms unfolding named_tags by (auto simp: find_None_iff)
next
  case (Some e)
  then have "e \<in> set tag_names" by (metis find_Some_iff nth_mem)
  with Some show ?thesis using names_known by (auto simp: DHCPv4_tag_to_full_name_def)
qed

section \<open>Properties\<close>

text \<open>
  C27. The user interface and the server agree on the options: their headers number the tags alike,
  every tag of the header has a name, and they read an option by the same type, for every tag
  but one: the server treats the size of a merit dump file (the option of tag 14) as a number,
  the user interface as bytes.
\<close>

theorem tag_types_agree:
  "map snd DHCPv4_Options = map uint server_options \<and>
   list_all (\<lambda>t. DHCPv4_tag_to_full_name t \<noteq> ''Unknown'') (map snd DHCPv4_Options) \<and>
   gui_tag_to_type tag = (if tag = 14 then DHCP_OPTION_BIN else dhcp_option_tag_to_type tag)"
proof (intro conjI)
  show "map snd DHCPv4_Options = map uint server_options" by (simp add: DHCPv4_Options_def server_options_def)
  show "list_all (\<lambda>t. DHCPv4_tag_to_full_name t \<noteq> ''Unknown'') (map snd DHCPv4_Options)"
    using tag_known by (simp only: list_all_iff) blast
qed (rule gui_types)

section \<open>Sessions\<close>

text \<open>
  The interface between a tab and the program that draws it: what the tab keeps in each step
  (a refresh, a button, an input) it keeps in a session of any steps.
\<close>

locale ui_session =
  fixes step :: "'s \<Rightarrow> 's \<Rightarrow> bool"
    and inv :: "'s \<Rightarrow> bool"
  assumes step_keeps: "step s s' \<Longrightarrow> inv s \<Longrightarrow> inv s'"
begin

lemma run_keeps: "step\<^sup>*\<^sup>* s s' \<Longrightarrow> inv s \<Longrightarrow> inv s'"
  by (induction rule: rtranclp_induct) (auto intro: step_keeps)

lemma run_ensures:
  assumes "step\<^sup>*\<^sup>* s s'" "inv s" "\<And>t. inv t \<Longrightarrow> P t"
  shows "P s'"
  using assms by (auto dest: run_keeps)

end

end
