(* ===== verification/Gui_json.thy ===== *)
theory Gui_json
  imports Gui_base
begin

text \<open>
  The functions of cJSON that the user interface calls beside those of \<open>cjson\<close>, as the fields
  of a parameter, what the code relies on (\<open>gui_json_ok\<close>), and functions on strings that behave
  so. The user interface works on the tree of a parsed file through pointers to its items; here
  an item is named by its path, and changing it gives the changed tree.
\<close>

section \<open>The parameter\<close>

text \<open>
  \<open>gj_is_array\<close> and \<open>gj_is_object\<close> are \<open>cJSON_IsArray\<close> and \<open>cJSON_IsObject\<close> (the second is used
  by the laws only); \<open>gj_int\<close> is \<open>cJSON_GetNumberValue\<close> of an item that may be NULL, converted to
  \<open>int\<close>, \<open>gj_fixed\<close> the same printed without decimals, \<open>gj_valueint\<close> the field \<open>valueint\<close>;
  \<open>gj_of_int\<close> and \<open>gj_of_bool\<close> make a number and a truth value; \<open>gj_put j k v\<close> is \<open>j\<close> with \<open>v\<close> in
  the place of the item \<open>cJSON_GetObjectItem(j, k)\<close>, or added under the name \<open>k\<close> when there is
  none; \<open>gj_put_nth j i v\<close> is \<open>j\<close> with \<open>v\<close> in the place of the item \<open>cJSON_GetArrayItem(j, i)\<close>.
\<close>

record 'j gui_json =
  gj_json :: "'j cjson"
  gj_is_array :: "'j \<Rightarrow> bool"
  gj_is_object :: "'j \<Rightarrow> bool"
  gj_int :: "'j option \<Rightarrow> int"
  gj_fixed :: "'j option \<Rightarrow> string"
  gj_valueint :: "'j \<Rightarrow> int"
  gj_of_int :: "int \<Rightarrow> 'j"
  gj_of_bool :: "bool \<Rightarrow> 'j"
  gj_put :: "'j \<Rightarrow> string \<Rightarrow> 'j \<Rightarrow> 'j"
  gj_put_nth :: "'j \<Rightarrow> nat \<Rightarrow> 'j \<Rightarrow> 'j"

definition json_values :: "'j gui_json \<Rightarrow> bool" where
  "json_values g \<longleftrightarrow>
     (\<forall>j. cj_is_string (gj_json g) j \<longleftrightarrow> cj_string (gj_json g) j \<noteq> None) \<and>
     (\<forall>j. \<not> (cj_is_string (gj_json g) j \<and> cj_is_number (gj_json g) j) \<and>
        \<not> (cj_is_bool (gj_json g) j \<and> (cj_is_string (gj_json g) j \<or> cj_is_number (gj_json g) j))) \<and>
     (\<forall>i. cj_is_number (gj_json g) (gj_of_int g i) \<and>
        (- (2 ^ 31) \<le> i \<and> i < 2 ^ 31 \<longrightarrow> gj_int g (Some (gj_of_int g i)) = i \<and> gj_valueint g (gj_of_int g i) = i \<and>
           gj_fixed g (Some (gj_of_int g i)) = to_string i) \<and>
        (0 \<le> i \<and> i < 2 ^ 31 \<longrightarrow> cj_u32 (gj_json g) (Some (gj_of_int g i)) = word_of_int i) \<and>
        (0 \<le> i \<and> i < 256 \<longrightarrow> cj_u8 (gj_json g) (Some (gj_of_int g i)) = word_of_int i)) \<and>
     (\<forall>w :: u8. cj_u8 (gj_json g) (Some (cj_of_u32 (gj_json g) (ucast w))) = w) \<and>
     (\<forall>b. cj_is_bool (gj_json g) (gj_of_bool g b) \<and> cj_is_true (gj_json g) (gj_of_bool g b) = b \<and>
        gj_fixed g (Some (gj_of_bool g b)) = ''nan'')"

definition json_objects :: "'j gui_json \<Rightarrow> bool" where
  "json_objects g \<longleftrightarrow>
     (\<forall>kvs. gj_is_object g (cj_object (gj_json g) kvs)) \<and>
     (\<forall>j k v k'. gj_is_object g j \<and> lower_case k \<and> lower_case k' \<longrightarrow>
        gj_is_object g (gj_put g j k v) \<and>
        cj_get (gj_json g) (gj_put g j k v) k' = (if k' = k then Some v else cj_get (gj_json g) j k')) \<and>
     (\<forall>j k xs k'. gj_is_object g j \<and> lower_case k \<and> lower_case k' \<and> k' \<noteq> k \<longrightarrow>
        gj_is_object g (cj_with_array (gj_json g) j k xs) \<and>
        cj_get (gj_json g) (cj_with_array (gj_json g) j k xs) k' = cj_get (gj_json g) j k')"

definition json_arrays :: "'j gui_json \<Rightarrow> bool" where
  "json_arrays g \<longleftrightarrow>
     (\<forall>xs. gj_is_array g (cj_array (gj_json g) xs)) \<and>
     (\<forall>j i v. gj_is_array g j \<longrightarrow> gj_is_array g (gj_put_nth g j i v) \<and>
        cj_items (gj_json g) (gj_put_nth g j i v) = (cj_items (gj_json g) j)[i := v]) \<and>
     (\<forall>j k xs. j = cj_object (gj_json g) [] \<or> (\<exists>a. cj_get (gj_json g) j k = Some a \<and> gj_is_array g a) \<longrightarrow>
        (\<exists>a. cj_get (gj_json g) (cj_with_array (gj_json g) j k xs) k = Some a \<and> gj_is_array g a \<and>
           cj_items (gj_json g) a = xs))"

text \<open>
  Documented behaviour: that of \<open>cjson\<close>; numbers of the range of \<open>int\<close>, truth values and strings
  are kept and are of their type, which is one; the number of a truth value is NAN; adding or changing a member
  of an object shows under its name and leaves the others alone, and so for the elements of an
  array.
\<close>

definition gui_json_ok :: "'j gui_json \<Rightarrow> bool" where
  "gui_json_ok g \<longleftrightarrow> cjson_ok (gj_json g) \<and> cjson_prints (gj_json g) \<and> json_values g \<and> json_objects g \<and> json_arrays g"

section \<open>A stand-in\<close>

text \<open>
  A value is a character for its type and a text: \<open>s\<close> and a string, \<open>n\<close> and a number, \<open>t\<close> or \<open>f\<close>,
  \<open>a\<close> and a written list, \<open>o\<close> and the written list of the names and values in turn.
\<close>

definition int_val :: "string \<Rightarrow> int" where
  "int_val s = (case scan_sign s of (neg, t) \<Rightarrow> if neg then - int (digits_val 10 0 t) else int (digits_val 10 0 t))"

fun put_pairs :: "string list \<Rightarrow> string \<Rightarrow> string \<Rightarrow> string list" where
  "put_pairs (k # v # kvs) k' v' = (if k = k' then k # v' # kvs else k # v # put_pairs kvs k' v')"
| "put_pairs _ k' v' = [k', v']"

definition tagged_get :: "char \<Rightarrow> string \<Rightarrow> string option" where
  "tagged_get c j = (case j of [] \<Rightarrow> None | d # s \<Rightarrow> if d = c then Some s else None)"

definition tagged_items :: "char \<Rightarrow> string \<Rightarrow> string list" where
  "tagged_items c j = (case tagged_get c j of None \<Rightarrow> [] | Some s \<Rightarrow> fst (read_list [] s))"

definition tagged_number :: "string option \<Rightarrow> int option" where
  "tagged_number j = Option.bind j (\<lambda>j. map_option int_val (tagged_get (CHR ''n'') j))"

definition tagged_put :: "string \<Rightarrow> string \<Rightarrow> string \<Rightarrow> string" where
  "tagged_put j k v = CHR ''o'' # write_list (put_pairs (tagged_items (CHR ''o'') j) k v)"

definition tagged_json :: "string cjson" where
  "tagged_json = \<lparr>
     cj_parse = (\<lambda>s. case fst (read_list [] s) of [] \<Rightarrow> None | j # _ \<Rightarrow> Some j),
     cj_print = (\<lambda>j. write_list [j]),
     cj_get = (\<lambda>j. lookup_pairs (tagged_items (CHR ''o'') j)),
     cj_string = tagged_get (CHR ''s''),
     cj_u32 = (\<lambda>j. case tagged_number j of None \<Rightarrow> 0 | Some i \<Rightarrow> word_of_int i),
     cj_u8 = (\<lambda>j. case tagged_number j of None \<Rightarrow> 0 | Some i \<Rightarrow> word_of_int i),
     cj_is_true = (\<lambda>j. j = ''t''),
     cj_is_bool = (\<lambda>j. j = ''t'' \<or> j = ''f''),
     cj_is_string = (\<lambda>j. tagged_get (CHR ''s'') j \<noteq> None),
     cj_is_number = (\<lambda>j. tagged_get (CHR ''n'') j \<noteq> None),
     cj_items = tagged_items (CHR ''a''),
     cj_object = (\<lambda>kvs. CHR ''o'' # write_list (concat (map (\<lambda>(k, v). [k, v]) kvs))),
     cj_of_string = (\<lambda>s. CHR ''s'' # s),
     cj_of_u32 = (\<lambda>w. CHR ''n'' # dec (unat w)),
     cj_with_array = (\<lambda>j k xs. tagged_put j k (CHR ''a'' # write_list xs)),
     cj_array = (\<lambda>xs. CHR ''a'' # write_list xs), cj_unformatted = (\<lambda>j. write_list [j])\<rparr>"

definition gui_tagged :: "string gui_json" where
  "gui_tagged = \<lparr>gj_json = tagged_json,
     gj_is_array = (\<lambda>j. tagged_get (CHR ''a'') j \<noteq> None),
     gj_is_object = (\<lambda>j. tagged_get (CHR ''o'') j \<noteq> None),
     gj_int = (\<lambda>j. case tagged_number j of None \<Rightarrow> 0 | Some i \<Rightarrow> i),
     gj_fixed = (\<lambda>j. case tagged_number j of None \<Rightarrow> ''nan'' | Some i \<Rightarrow> to_string i),
     gj_valueint = (\<lambda>j. case tagged_number (Some j) of None \<Rightarrow> 0 | Some i \<Rightarrow> i),
     gj_of_int = (\<lambda>i. CHR ''n'' # to_string i),
     gj_of_bool = (\<lambda>b. if b then ''t'' else ''f''),
     gj_put = tagged_put,
     gj_put_nth = (\<lambda>j i v. CHR ''a'' # write_list ((tagged_items (CHR ''a'') j)[i := v]))\<rparr>"

section \<open>Lemmas\<close>

lemma int_val_dec: "int_val (dec n) = int n"
  by (simp add: int_val_def dec_scan digits_val_dec)

lemma int_val_to_string: "int_val (to_string i) = i"
  by (auto simp: to_string_def int_val_dec) (simp add: int_val_def scan_sign_def digits_val_dec)

lemma lookup_put_pairs: "lookup_pairs (put_pairs kvs k v) k' = (if k' = k then Some v else lookup_pairs kvs k')"
  by (induction kvs k v rule: put_pairs.induct) auto

lemma tagged_simps [simp]:
  "tagged_get c (d # s) = (if d = c then Some s else None)"
  "tagged_items c (d # write_list xs) = (if d = c then xs else [])"
  using read_write[of xs "[]"] by (simp_all add: tagged_get_def tagged_items_def del: write_list.simps)

lemma tagged_put_get [simp]:
  "lookup_pairs (tagged_items (CHR ''o'') (tagged_put j k v)) k' =
     (if k' = k then Some v else lookup_pairs (tagged_items (CHR ''o'') j) k')"
  by (simp add: tagged_put_def lookup_put_pairs)

lemma tagged_json_ok: "cjson_ok tagged_json" "cjson_prints tagged_json"
  using read_write[of _ "[]"]
  by (simp_all add: cjson_ok_def cjson_prints_def tagged_json_def read_write lookup_pairs_map_of tagged_number_def
      int_val_dec del: write_list.simps)

lemma json_laws:
  assumes "gui_json_ok g"
  shows "cjson_ok (gj_json g)" "cjson_prints (gj_json g)" "json_values g" "json_objects g" "json_arrays g"
  using assms by (simp_all add: gui_json_ok_def)

lemma json_put:
  assumes "gui_json_ok g" "gj_is_object g j" "lower_case k"
  shows "gj_is_object g (gj_put g j k v)"
    "lower_case k' \<Longrightarrow> cj_get (gj_json g) (gj_put g j k v) k' = (if k' = k then Some v else cj_get (gj_json g) j k')"
  using json_laws(4)[OF assms(1)] assms(2,3) by (simp_all add: json_objects_def)

lemma json_with_array:
  assumes "gui_json_ok g" "gj_is_object g j" "lower_case k" "lower_case k'" "k' \<noteq> k"
  shows "gj_is_object g (cj_with_array (gj_json g) j k xs)"
    "cj_get (gj_json g) (cj_with_array (gj_json g) j k xs) k' = cj_get (gj_json g) j k'"
  using json_laws(4)[OF assms(1)] assms(2-5) unfolding json_objects_def by blast+

lemma json_array:
  assumes "gui_json_ok g" "cj_get (gj_json g) j k = Some a" "gj_is_array g a"
  obtains a' where "cj_get (gj_json g) (cj_with_array (gj_json g) j k xs) k = Some a'" "gj_is_array g a'" "cj_items (gj_json g) a' = xs"
  using json_laws(5)[OF assms(1)] assms(2,3) unfolding json_arrays_def by blast

text \<open>The names of the sections of the configuration file.\<close>

lemma section_names: "lower_case ''server''" "lower_case ''security''" "lower_case ''pools''" "lower_case ''options''"
  by (simp_all add: lower_case_def)

lemma u8_through_u32: "word_of_int (int (unat (ucast w :: u32))) = w" for w :: u8
proof -
  have "(ucast (ucast w :: u32) :: u8) = w" by (rule bit_word_eqI) (simp add: bit_ucast_iff)
  then show ?thesis by simp
qed

lemma gui_tagged_ok: "gui_json_ok gui_tagged"
proof -
  have "json_values gui_tagged" unfolding json_values_def
    by (auto simp: gui_tagged_def tagged_json_def tagged_number_def int_val_to_string int_val_dec u8_through_u32
        tagged_get_def split: list.splits if_splits)
  moreover have "json_objects gui_tagged" unfolding json_objects_def
    by (simp add: gui_tagged_def tagged_json_def del: write_list.simps) (simp add: tagged_put_def)
  moreover have "json_arrays gui_tagged" unfolding json_arrays_def
    by (simp add: gui_tagged_def tagged_json_def del: write_list.simps)
  moreover have "gj_json gui_tagged = tagged_json" by (simp add: gui_tagged_def)
  ultimately show ?thesis using tagged_json_ok by (simp add: gui_json_ok_def)
qed

end
