(* ===== verification/Gui_inspect.thy ===== *)
theory Gui_inspect
  imports Gui_base
begin

text \<open>
  The inspect tab of the user interface (\<open>gui/src/database.cpp\<close>, \<open>gui/src/tab_inspect.cpp\<close>): it
  lists the files of the server's database of messages, loads one of them and shows the fields
  and options of its messages. The files are those of \<open>Database\<close>: 128 bytes of metadata and the
  576 bytes of a packet per record.
\<close>

section \<open>Loading a file of the database\<close>

record gui_message =
  gm_opcode :: u8
  gm_htype :: u8
  gm_hlen :: u8
  gm_hops :: u8
  gm_xid :: u32
  gm_secs :: u16
  gm_flags :: u16
  gm_ciaddr :: u32
  gm_yiaddr :: u32
  gm_siaddr :: u32
  gm_giaddr :: u32
  gm_chaddr :: "u8 list"
  gm_sname :: "u8 list"
  gm_filename :: "u8 list"
  gm_cookie :: u32
  gm_options :: "u8 list"
  time_when_stored :: u32
  gm_msg_type :: string

text \<open>\<open>read(fd, &msg_buffer, 576)\<close>: the bytes of the packet, in network order.\<close>

definition read_packet :: "dhcp_packet \<Rightarrow> gui_message \<Rightarrow> gui_message" where
  "read_packet p m = m\<lparr>gm_opcode := pkt_opcode p, gm_htype := pkt_htype p, gm_hlen := pkt_hlen p,
     gm_hops := pkt_hops p, gm_xid := pkt_xid p, gm_secs := pkt_secs p, gm_flags := pkt_flags p,
     gm_ciaddr := pkt_ciaddr p, gm_yiaddr := pkt_yiaddr p, gm_siaddr := pkt_siaddr p,
     gm_giaddr := pkt_giaddr p, gm_chaddr := pkt_chaddr p, gm_sname := pkt_sname p,
     gm_filename := pkt_filename p, gm_cookie := pkt_cookie p, gm_options := pkt_options p\<rparr>"

definition host_order :: "gui_message \<Rightarrow> gui_message" where
  "host_order m = m\<lparr>gm_xid := ntohl (gm_xid m), gm_secs := ntohs (gm_secs m), gm_flags := ntohs (gm_flags m),
     gm_ciaddr := ntohl (gm_ciaddr m), gm_yiaddr := ntohl (gm_yiaddr m), gm_siaddr := ntohl (gm_siaddr m),
     gm_giaddr := ntohl (gm_giaddr m), gm_cookie := ntohl (gm_cookie m)\<rparr>"

definition msg_type_name :: "u8 \<Rightarrow> string" where
  "msg_type_name t =
     (if t = 1 then ''DISCOVER'' else if t = 2 then ''OFFER'' else if t = 3 then ''REQUEST''
      else if t = 4 then ''DECLINE'' else if t = 5 then ''ACK'' else if t = 6 then ''NAK''
      else if t = 7 then ''RELEASE'' else if t = 8 then ''INFORM'' else ''UNKNOWN'')"

text \<open>The loop of \<open>get_msg_type\<close> from index \<open>i\<close> on, with the text found so far.\<close>

function msg_type_loop :: "u8 list \<Rightarrow> nat \<Rightarrow> string \<Rightarrow> string c" where
  "msg_type_loop options i s =
     (if \<not> i < 336 then Inr s
      else cbind (array_get options i) (\<lambda>tag.
        if tag = 0 then msg_type_loop options (i + 1) s
        else if tag = 255 then Inr s
        else cbind (if tag = 53 \<and> i + 2 < 336 then cbind (array_get options (i + 2)) (\<lambda>t. Inr (msg_type_name t)) else Inr s) (\<lambda>s.
          if 336 \<le> i + 1 then Inr s
          else cbind (array_get options (i + 1)) (\<lambda>l. msg_type_loop options (i + 1 + unat l + 1) s))))"
  by auto
termination
  by (relation "measure (\<lambda>(options, i, s). 336 - i)") auto

declare msg_type_loop.simps [simp del]

definition get_msg_type :: "gui_message \<Rightarrow> gui_message c" where
  "get_msg_type m = cbind (msg_type_loop (gm_options m) 0 []) (\<lambda>s.
     Inr (m\<lparr>gm_msg_type := (if s = [] then ''UNKNOWN'' else s)\<rparr>))"

fun load_entry_loop :: "(string \<times> dhcp_packet) list \<Rightarrow> gui_message \<Rightarrow> gui_message list c" where
  "load_entry_loop [] m = Inr []"
| "load_entry_loop ((header, p) # es) m =
     (let m = read_packet p m in
      case scan_time header of
        None \<Rightarrow> load_entry_loop es m
      | Some t \<Rightarrow>
          let m = host_order (m\<lparr>time_when_stored := t\<rparr>) in
          if gm_cookie m \<noteq> MAGIC_COOKIE then load_entry_loop es m
          else cbind (get_msg_type m) (\<lambda>m. cbind (load_entry_loop es m) (\<lambda>ms. Inr (m # ms))))"

definition zero_gui_message :: gui_message where
  "zero_gui_message = \<lparr>gm_opcode = 0, gm_htype = 0, gm_hlen = 0, gm_hops = 0, gm_xid = 0, gm_secs = 0, gm_flags = 0,
     gm_ciaddr = 0, gm_yiaddr = 0, gm_siaddr = 0, gm_giaddr = 0, gm_chaddr = zeros 16, gm_sname = zeros 64,
     gm_filename = zeros 128, gm_cookie = 0, gm_options = zeros 336, time_when_stored = 0, gm_msg_type = []\<rparr>"

definition database_load_entry :: "(string \<Rightarrow> bool) \<Rightarrow> database \<Rightarrow> string \<Rightarrow> gui_message list c" where
  "database_load_entry can_open db path =
     (case db path of None \<Rightarrow> Inr []
      | Some es \<Rightarrow> if \<not> can_open path then Inr [] else load_entry_loop es zero_gui_message)"

section \<open>The state of the tab\<close>

record dhcp_message_str =
  str_opcode :: string
  str_htype :: string
  str_hlen :: string
  str_hops :: string
  str_xid :: string
  str_secs :: string
  str_flags :: string
  str_ciaddr :: string
  str_yiaddr :: string
  str_siaddr :: string
  str_giaddr :: string
  str_chaddr :: string
  str_sname :: string
  str_filename :: string
  str_cookie :: string
  str_options :: string
  str_time_when_stored :: string
  str_msg_type :: string

record gui_option =
  go_tag :: int
  go_lenght :: int
  name_str :: string
  lenght_str :: string
  value_str :: string
  go_format :: string

record tab_inspect =
  toggle_filter_selected :: int
  filter_content :: string
  filter_content_last :: string
  transaction_entries_xid :: "string list"
  transaction_entries_mac :: "string list"
  transaction_entry_selected :: int
  transaction_entry_selected_last :: int
  loaded_transaction :: "gui_message list"
  loaded_transaction_msg_types :: "string list"
  loaded_transaction_selected :: int
  loaded_transaction_selected_last :: int
  loaded_message :: dhcp_message_str
  loaded_dhcp_options :: "gui_option list"
  dhcp_option_entries :: "string list"
  selected_dhcp_option :: gui_option
  option_detail_selected :: int
  option_detail_selected_last :: int

definition empty_message_str :: dhcp_message_str where
  "empty_message_str = \<lparr>str_opcode = [], str_htype = [], str_hlen = [], str_hops = [], str_xid = [], str_secs = [],
     str_flags = [], str_ciaddr = [], str_yiaddr = [], str_siaddr = [], str_giaddr = [], str_chaddr = [], str_sname = [],
     str_filename = [], str_cookie = [], str_options = [], str_time_when_stored = [], str_msg_type = []\<rparr>"

definition empty_gui_option :: gui_option where
  "empty_gui_option = \<lparr>go_tag = 0, go_lenght = 0, name_str = [], lenght_str = [], value_str = [], go_format = []\<rparr>"

text \<open>The constructor.\<close>

definition TabInspect :: tab_inspect where
  "TabInspect = \<lparr>toggle_filter_selected = 0, filter_content = [], filter_content_last = ''-----'',
     transaction_entries_xid = [], transaction_entries_mac = [], transaction_entry_selected = 0,
     transaction_entry_selected_last = -1, loaded_transaction = [], loaded_transaction_msg_types = [],
     loaded_transaction_selected = 0, loaded_transaction_selected_last = -1, loaded_message = empty_message_str,
     loaded_dhcp_options = [], dhcp_option_entries = [], selected_dhcp_option = empty_gui_option,
     option_detail_selected = 0, option_detail_selected_last = -1\<rparr>"

section \<open>The options of a message\<close>

definition uint32_from_uint8_array :: "u8 list \<Rightarrow> u32" where
  "uint32_from_uint8_array bs = push_bit 24 (ucast (bs ! 0)) OR push_bit 16 (ucast (bs ! 1)) OR
     push_bit 8 (ucast (bs ! 2)) OR ucast (bs ! 3)"

text \<open>\<open>n\<close> elements of the array from \<open>i\<close> on.\<close>

definition array_range :: "'a list \<Rightarrow> nat \<Rightarrow> nat \<Rightarrow> 'a list c" where
  "array_range xs i n = (if i + n \<le> length xs then Inr (take n (drop i xs)) else Inl Out_of_bounds)"

text \<open>Value and format of the option whose value begins at \<open>i\<close>.\<close>

definition option_text :: "u8 list \<Rightarrow> nat \<Rightarrow> int \<Rightarrow> nat \<Rightarrow> (string \<times> string) c" where
  "option_text options i tag lenght =
     (case gui_tag_to_type tag of
        DHCP_OPTION_STRING \<Rightarrow> cbind (array_range options i lenght) (\<lambda>bs. Inr (map (\<lambda>b. char_of (unat b)) bs, ''String''))
      | DHCP_OPTION_IP \<Rightarrow> cbind (array_range options i 4) (\<lambda>bs.
          Inr (uint32_to_ipv4_address (uint32_from_uint8_array bs), ''IP Address''))
      | DHCP_OPTION_BIN \<Rightarrow> cbind (array_range options i lenght) (\<lambda>bs.
          Inr (concat (map (\<lambda>b. dec (unat b) @ '' '') bs), ''Binary''))
      | DHCP_OPTION_BOOL \<Rightarrow> cbind (array_get options i) (\<lambda>b. Inr (if b \<noteq> 0 then ''TRUE'' else ''FALSE'', ''Boolean''))
      | DHCP_OPTION_NUMERIC \<Rightarrow> cbind (array_range options i lenght) (\<lambda>bs. Inr (dec (unat (be_word bs)), ''Number'')))"

function option_loop :: "u8 list \<Rightarrow> nat \<Rightarrow> gui_option list c" where
  "option_loop options i =
     (if \<not> i < 336 then Inr []
      else cbind (array_get options i) (\<lambda>tag.
           cbind (array_get options (i + 1)) (\<lambda>lenght.
           cbind (option_text options (i + 2) (uint tag) (unat lenght)) (\<lambda>(v, f).
             if tag = 0 then option_loop options (i + 2 + unat lenght)
             else if tag = 255 then Inr []
             else cbind (option_loop options (i + 2 + unat lenght)) (\<lambda>os.
               Inr (\<lparr>go_tag = uint tag, go_lenght = uint lenght, name_str = DHCPv4_tag_to_full_name (uint tag),
                     lenght_str = dec (unat lenght), value_str = v, go_format = f\<rparr> # os))))))"
  by auto
termination
  by (relation "measure (\<lambda>(options, i). 336 - i)") auto

declare option_loop.simps [simp del]

definition vec_get :: "'a list \<Rightarrow> int \<Rightarrow> 'a c" where
  "vec_get xs i = (if 0 \<le> i \<and> nat i < length xs then Inr (xs ! nat i) else Inl Out_of_bounds)"

definition load_selected_message_options :: "tab_inspect \<Rightarrow> tab_inspect c" where
  "load_selected_message_options tab =
     (let tab = tab\<lparr>loaded_dhcp_options := [], dhcp_option_entries := []\<rparr> in
      if loaded_transaction_selected tab = loaded_transaction_selected_last tab then Inr tab
      else cbind (vec_get (loaded_transaction tab) (loaded_transaction_selected tab)) (\<lambda>m.
           cbind (option_loop (gm_options m) 0) (\<lambda>os.
             Inr (tab\<lparr>loaded_dhcp_options := os, dhcp_option_entries := map (\<lambda>go. to_string (go_tag go)) os\<rparr>))))"

section \<open>The methods\<close>

definition message_str :: "gui_message \<Rightarrow> dhcp_message_str \<Rightarrow> dhcp_message_str c" where
  "message_str m s = cbind (uint8_array_to_mac (gm_chaddr m)) (\<lambda>mac.
     Inr (s\<lparr>str_msg_type := gm_msg_type m, str_time_when_stored := put_time (gmtime (time_when_stored m)),
       str_xid := hex_text (gm_xid m), str_opcode := dec (unat (gm_opcode m)), str_htype := dec (unat (gm_htype m)),
       str_hlen := dec (unat (gm_hlen m)), str_hops := dec (unat (gm_hops m)), str_secs := dec (unat (gm_secs m)),
       str_flags := dec (unat (gm_flags m)), str_ciaddr := uint32_to_ipv4_address (gm_ciaddr m),
       str_yiaddr := uint32_to_ipv4_address (gm_yiaddr m), str_siaddr := uint32_to_ipv4_address (gm_siaddr m),
       str_giaddr := uint32_to_ipv4_address (gm_giaddr m), str_chaddr := mac, str_cookie := hex_text (gm_cookie m)\<rparr>))"

definition load_selected_message :: "tab_inspect \<Rightarrow> tab_inspect c" where
  "load_selected_message tab =
     (if loaded_transaction_selected tab = loaded_transaction_selected_last tab then Inr tab
      else if transaction_entries_xid tab = [] then Inr (tab\<lparr>loaded_message := empty_message_str\<rparr>)
      else cbind (vec_get (loaded_transaction tab) (loaded_transaction_selected tab)) (\<lambda>m.
           cbind (message_str m (loaded_message tab)) (\<lambda>s.
           cbind (load_selected_message_options
                    (tab\<lparr>loaded_message := s, option_detail_selected := 0, option_detail_selected_last := -1\<rparr>)) (\<lambda>tab.
             Inr (tab\<lparr>loaded_transaction_selected_last := loaded_transaction_selected tab\<rparr>)))))"

definition gui_db_path :: string where
  "gui_db_path = ''/var/dhcp/database/''"

text \<open>\<open>strcat(entry.msg_type, " ")\<close> for every loaded message.\<close>

definition load_selected_transaction :: "(string \<Rightarrow> bool) \<Rightarrow> database \<Rightarrow> tab_inspect \<Rightarrow> tab_inspect c" where
  "load_selected_transaction can_open db tab =
     (if transaction_entries_xid tab = [] then Inr tab
      else cbind (vec_get (transaction_entries_xid tab) (transaction_entry_selected tab)) (\<lambda>x.
           cbind (vec_get (transaction_entries_mac tab) (transaction_entry_selected tab)) (\<lambda>mac.
           cbind (database_load_entry can_open db (gui_db_path @ x @ ''_'' @ mac @ ''.dhcp'')) (\<lambda>ms.
             let ms = map (\<lambda>m. m\<lparr>gm_msg_type := gm_msg_type m @ '' ''\<rparr>) ms in
             Inr (tab\<lparr>loaded_transaction := ms, loaded_transaction_msg_types := map gm_msg_type ms\<rparr>)))))"

text \<open>Whether the filter lets a path through; a filter of fewer than two characters is none.\<close>

definition passes_filter :: "tab_inspect \<Rightarrow> string \<Rightarrow> bool c" where
  "passes_filter tab path =
     (if \<not> 1 < length (filter_content tab) then Inr True
      else if toggle_filter_selected tab = 0
      then cbind (substr path 19 8) (\<lambda>s. Inr (contains s (filter_content tab)))
      else cbind (substr path 28 12) (\<lambda>s. Inr (contains s (filter (\<lambda>c. c \<noteq> CHR '':'') (filter_content tab)))))"

fun transactions_loop :: "string list \<Rightarrow> tab_inspect \<Rightarrow> tab_inspect c" where
  "transactions_loop [] tab = Inr tab"
| "transactions_loop (path # paths) tab =
     (let tab = (if 1 < length (filter_content tab) then tab\<lparr>transaction_entry_selected := 0\<rparr> else tab) in
      cbind (passes_filter tab path) (\<lambda>ok.
        if \<not> ok then transactions_loop paths tab
        else cbind (substr path 19 8) (\<lambda>x. cbind (substr path 28 12) (\<lambda>mac.
          transactions_loop paths (tab\<lparr>transaction_entries_xid := transaction_entries_xid tab @ [x],
            transaction_entries_mac := transaction_entries_mac tab @ [mac]\<rparr>)))))"

text \<open>\<open>dir\<close> are the paths the directory iterator visits.\<close>

definition load_transactions :: "string list \<Rightarrow> tab_inspect \<Rightarrow> tab_inspect c" where
  "load_transactions dir tab =
     cbind (transactions_loop dir (tab\<lparr>transaction_entries_xid := [], transaction_entries_mac := []\<rparr>)) (\<lambda>tab.
       Inr (tab\<lparr>filter_content_last := filter_content tab,
                transaction_entry_selected_last := transaction_entry_selected tab\<rparr>))"

definition load_selected_option :: "tab_inspect \<Rightarrow> tab_inspect c" where
  "load_selected_option tab =
     (if transaction_entries_xid tab = [] then Inr (tab\<lparr>selected_dhcp_option := empty_gui_option\<rparr>)
      else if option_detail_selected_last tab = option_detail_selected tab then Inr tab
      else cbind (vec_get (loaded_dhcp_options tab) (option_detail_selected tab)) (\<lambda>go.
             Inr (tab\<lparr>selected_dhcp_option := go, option_detail_selected_last := option_detail_selected tab\<rparr>)))"

definition inspect_refresh :: "(string \<Rightarrow> bool) \<Rightarrow> database \<Rightarrow> string list \<Rightarrow> tab_inspect \<Rightarrow> tab_inspect c" where
  "inspect_refresh can_open db dir tab =
     cbind (if filter_content tab \<noteq> filter_content_last tab \<or>
               transaction_entry_selected_last tab \<noteq> transaction_entry_selected tab
            then cbind (load_transactions dir tab) (\<lambda>tab.
                 cbind (load_selected_transaction can_open db tab) (\<lambda>tab.
                   Inr (tab\<lparr>loaded_transaction_selected_last := -1\<rparr>)))
            else Inr tab) (\<lambda>tab.
     cbind (load_selected_message tab) load_selected_option)"

text \<open>The first file whose path has the id of the selected transaction is removed.\<close>

definition remove_database_entry :: "(string \<Rightarrow> bool) \<Rightarrow> string list \<Rightarrow> database \<Rightarrow> tab_inspect \<Rightarrow> database c" where
  "remove_database_entry can_remove dir db tab =
     cbind (vec_get (transaction_entries_xid tab) (transaction_entry_selected tab)) (\<lambda>x.
       case List.find (\<lambda>path. contains path (x @ ''_'')) dir of
         None \<Rightarrow> Inr db
       | Some path \<Rightarrow> Inr (if can_remove path then db(path := None) else db))"

section \<open>Lemmas: options\<close>

lemma array_range_mid: "length pre = i \<Longrightarrow> length bs = n \<Longrightarrow> array_range (pre @ bs @ rest) i n = Inr bs"
  by (simp add: array_range_def)

lemma uint32_from_be: "length bs = 4 \<Longrightarrow> uint32_from_uint8_array bs = be_word bs"
proof -
  assume "length bs = 4"
  then obtain a b c d where bs: "bs = [a, b, c, d]" by (auto simp: numeral_eq_Suc length_Suc_conv)
  show ?thesis unfolding bs uint32_from_uint8_array_def be_word_def
    by (rule bit_word_eqI) (auto simp: bit_simps)
qed

text \<open>An option as the server means it, shown as text.\<close>

definition value_text :: "dhcp_option \<Rightarrow> string \<times> string" where
  "value_text o1 =
     (case gui_tag_to_type (uint (opt_tag o1)) of
        DHCP_OPTION_STRING \<Rightarrow> (map (\<lambda>b. char_of (unat b)) (take (len o1) (opt_value o1)), ''String'')
      | DHCP_OPTION_IP \<Rightarrow> (uint32_to_ipv4_address (ip o1), ''IP Address'')
      | DHCP_OPTION_BIN \<Rightarrow> (concat (map (\<lambda>b. dec (unat b) @ '' '') (payload o1)), ''Binary'')
      | DHCP_OPTION_BOOL \<Rightarrow> (if opt_value o1 ! 0 \<noteq> 0 then ''TRUE'' else ''FALSE'', ''Boolean'')
      | DHCP_OPTION_NUMERIC \<Rightarrow> (dec (unat (number o1)), ''Number''))"

definition shown_option :: "dhcp_option \<Rightarrow> gui_option" where
  "shown_option o1 = \<lparr>go_tag = uint (opt_tag o1), go_lenght = uint (opt_lenght o1),
     name_str = DHCPv4_tag_to_full_name (uint (opt_tag o1)), lenght_str = dec (len o1),
     value_str = fst (value_text o1), go_format = snd (value_text o1)\<rparr>"

text \<open>Addresses of four bytes and truth values of at least one: what the tab reads in any case.\<close>

definition showable :: "dhcp_option \<Rightarrow> bool" where
  "showable o1 \<longleftrightarrow> opt_canon o1 \<and> (opt_type o1 = DHCP_OPTION_IP \<longrightarrow> len o1 = 4) \<and>
     (opt_type o1 = DHCP_OPTION_BOOL \<longrightarrow> 0 < len o1)"

lemma canon_number:
  assumes "opt_canon o1" "is_number_type (opt_type o1)"
  shows "be_word (payload o1) = number o1"
proof -
  obtain w where w: "opt_value o1 = le_bytes w @ zeros 252" "take_bit (8 * len o1) w = w"
    using assms by (cases "opt_type o1") (auto simp: opt_canon_def value_canon_def is_number_type_def)
  then show ?thesis using assms(2) by (simp add: payload_def be_word_be_bytes number_def)
qed

lemma option_text_eq:
  assumes "showable o1" "length pre = i"
  shows "option_text (pre @ payload o1 @ rest) i (uint (opt_tag o1)) (len o1) = Inr (value_text o1)"
proof -
  have c: "opt_canon o1" "opt_ser o1" using assms(1) by (simp_all add: showable_def opt_canon_def)
  have l: "length (payload o1) = len o1" using c(2) by (rule length_payload)
  note range = array_range_mid[OF assms(2) l, of rest]
  have ty: "opt_type o1 = gui_tag_to_type (uint (opt_tag o1)) \<or> gui_tag_to_type (uint (opt_tag o1)) = DHCP_OPTION_BIN"
    using c(1) by (simp add: opt_canon_def gui_types)
  show ?thesis
  proof (cases "gui_tag_to_type (uint (opt_tag o1))")
    case DHCP_OPTION_NUMERIC
    with ty range canon_number[OF c(1)] show ?thesis by (simp add: option_text_def value_text_def is_number_type_def)
  next
    case DHCP_OPTION_STRING
    with ty range show ?thesis by (simp add: option_text_def value_text_def payload_def is_number_type_def)
  next
    case DHCP_OPTION_IP
    with ty assms(1) l have "length (payload o1) = 4" by (simp add: showable_def)
    with DHCP_OPTION_IP ty array_range_mid[OF assms(2) this, of rest] canon_number[OF c(1)] uint32_from_be show ?thesis
      by (simp add: option_text_def value_text_def is_number_type_def)
  next
    case DHCP_OPTION_BOOL
    with ty assms(1) have "0 < len o1" "payload o1 = take (len o1) (opt_value o1)"
      by (simp_all add: showable_def payload_def is_number_type_def)
    moreover have "length (opt_value o1) = 256" using c(2) by (simp add: opt_ser_def union_size_def)
    ultimately have "(pre @ payload o1 @ rest) ! i = opt_value o1 ! 0" using assms(2) l by (simp add: nth_append)
    with DHCP_OPTION_BOOL assms(2) l \<open>0 < len o1\<close> show ?thesis by (simp add: option_text_def value_text_def)
  next
    case DHCP_OPTION_BIN
    with range show ?thesis by (simp add: option_text_def value_text_def)
  qed
qed

text \<open>The list of options, up to the end marker and the byte behind it that is read as a length.\<close>

lemma option_loop_encode:
  "length pre = i \<Longrightarrow> \<forall>o1 \<in> set os. showable o1 \<Longrightarrow> unat n \<le> length rest \<Longrightarrow>
   i + length (encode os) + 2 + length rest = 336 \<Longrightarrow>
   option_loop (pre @ encode os @ 0xff # n # rest) i = Inr (map shown_option os)"
proof (induction os arbitrary: pre i)
  case Nil
  have "gui_tag_to_type 255 = DHCP_OPTION_BIN" by (simp add: gui_tag_to_type_def tag_in_def)
  then have "option_text (pre @ 0xff # n # rest) (i + 2) 255 (unat n) \<noteq> Inl e" for e
    using Nil by (simp add: option_text_def array_range_def)
  then obtain r where "option_text (pre @ 0xff # n # rest) (i + 2) 255 (unat n) = Inr r"
    by (cases "option_text (pre @ 0xff # n # rest) (i + 2) 255 (unat n)") auto
  with Nil show ?case by (subst option_loop.simps) (simp add: nth_append split_def)
next
  case (Cons o1 os)
  let ?all = "pre @ encode (o1 # os) @ 0xff # n # rest" and ?rest = "encode os @ 0xff # n # rest"
  have o1: "showable o1" "opt_ser o1" "opt_tag o1 \<noteq> 0" "opt_tag o1 \<noteq> 255"
    using Cons.prems(2) by (simp_all add: showable_def opt_canon_def)
  have l: "length (payload o1) = len o1" using o1(2) by (rule length_payload)
  have all: "?all = (pre @ [opt_tag o1, opt_lenght o1]) @ payload o1 @ ?rest" by (simp add: encode_option_def)
  have i: "i + 1 < 336" "i < length ?all" "i + 1 < length ?all" using Cons.prems(1,4) by (simp_all add: encode_option_def)
  have here: "?all ! i = opt_tag o1" "?all ! (i + 1) = opt_lenght o1"
    using Cons.prems(1) by (simp_all add: nth_append encode_option_def)
  have shown: "option_text ?all (i + 2) (uint (opt_tag o1)) (len o1) = Inr (value_text o1)"
    unfolding all by (rule option_text_eq[OF o1(1)]) (use Cons.prems(1) in simp)
  have "option_loop ((pre @ encode_option o1) @ ?rest) (i + 2 + len o1) = Inr (map shown_option os)"
    using Cons.prems l by (intro Cons.IH) (auto simp: encode_option_def)
  then have "option_loop ?all (i + 2 + len o1) = Inr (map shown_option os)" by simp
  with i here shown o1(3,4) show ?case
    by (subst option_loop.simps) (simp add: split_def shown_option_def del: append_Cons encode_simps)
qed

lemma msg_type_loop_encode:
  "length pre = i \<Longrightarrow> \<forall>o1 \<in> set os. opt_canon o1 \<and> (opt_tag o1 = 53 \<longrightarrow> 0 < len o1) \<Longrightarrow> distinct (map opt_tag os) \<Longrightarrow>
   i + length (encode os) + 1 + length rest = 336 \<Longrightarrow>
   msg_type_loop (pre @ encode os @ 0xff # rest) i s =
     Inr (case dhcp_option_retrieve os 53 of None \<Rightarrow> s | Some o1 \<Rightarrow> msg_type_name (payload o1 ! 0))"
proof (induction os arbitrary: pre i s)
  case Nil
  then show ?case by (subst msg_type_loop.simps) (simp add: nth_append dhcp_option_retrieve_def)
next
  case (Cons o1 os)
  let ?all = "pre @ encode (o1 # os) @ 0xff # rest"
  have o1: "opt_ser o1" "opt_tag o1 \<noteq> 0" "opt_tag o1 \<noteq> 255" "opt_tag o1 = 53 \<Longrightarrow> 0 < len o1"
    using Cons.prems(2) by (auto simp: opt_canon_def)
  have l: "length (payload o1) = len o1" using o1(1) by (rule length_payload)
  have i: "i + 1 < 336" "i < length ?all" "i + 1 < length ?all" using Cons.prems(1,4) by (simp_all add: encode_option_def)
  have here: "?all ! i = opt_tag o1" "?all ! (i + 1) = opt_lenght o1"
    using Cons.prems(1) by (simp_all add: nth_append encode_option_def)
  have next2: "?all ! (i + 2) = payload o1 ! 0" "i + 2 < 336" "i + 2 < length ?all" if "opt_tag o1 = 53"
    using o1(4)[OF that] l Cons.prems(1,4) by (auto simp: nth_append encode_option_def)
  have IH: "msg_type_loop ?all (i + 1 + len o1 + 1) s' =
      Inr (case dhcp_option_retrieve os 53 of None \<Rightarrow> s' | Some o1 \<Rightarrow> msg_type_name (payload o1 ! 0))" for s'
    using Cons.IH[of "pre @ encode_option o1" "i + 1 + len o1 + 1" s'] Cons.prems l by (simp add: encode_option_def)
  show ?case
  proof (cases "opt_tag o1 = 53")
    case True
    then have none: "dhcp_option_retrieve os 53 = None"
      using Cons.prems(3) by (auto simp: dhcp_option_retrieve_None)
    from True i here next2 o1 IH show ?thesis
      by (subst msg_type_loop.simps) (simp add: none[unfolded dhcp_option_retrieve_def] dhcp_option_retrieve_def del: append_Cons encode_simps)
  next
    case False
    with i here o1 IH show ?thesis
      by (subst msg_type_loop.simps) (simp add: dhcp_option_retrieve_def del: append_Cons encode_simps)
  qed
qed

section \<open>Lemmas: files\<close>

text \<open>What the tab makes of the type of a message, and of a stored packet with the options \<open>os\<close>.\<close>

definition type_text :: "dhcp_option list \<Rightarrow> string" where
  "type_text os = (case dhcp_option_retrieve os 53 of None \<Rightarrow> ''UNKNOWN'' | Some o1 \<Rightarrow> msg_type_name (payload o1 ! 0))"

definition gui_message_of :: "u32 \<Rightarrow> dhcp_packet \<Rightarrow> dhcp_option list \<Rightarrow> gui_message" where
  "gui_message_of t p os =
     (host_order ((read_packet p zero_gui_message)\<lparr>time_when_stored := t\<rparr>))\<lparr>gm_msg_type := type_text os\<rparr>"

text \<open>
  A packet the tab can show: its options are \<open>os\<close>, and the byte behind the end marker, which is
  read as the length of a value, stays within the packet.
\<close>

definition displayable :: "dhcp_packet \<Rightarrow> dhcp_option list \<Rightarrow> bool" where
  "displayable p os \<longleftrightarrow> wf_packet p \<and> pkt_cookie p = htonl MAGIC_COOKIE \<and> os \<noteq> [] \<and> distinct (map opt_tag os) \<and>
     (\<forall>o1 \<in> set os. showable o1 \<and> (opt_tag o1 = 53 \<longrightarrow> 0 < len o1)) \<and>
     (\<exists>n rest. pkt_options p = encode os @ 0xff # n # rest \<and> unat n \<le> length rest)"

lemma msg_type_name_nonempty: "msg_type_name t \<noteq> []"
  by (simp add: msg_type_name_def)

lemma displayable_type:
  assumes "displayable p os"
  shows "msg_type_loop (pkt_options p) 0 [] = Inr (case dhcp_option_retrieve os 53 of None \<Rightarrow> [] | Some o1 \<Rightarrow> msg_type_name (payload o1 ! 0))"
proof -
  obtain n rest where o: "pkt_options p = encode os @ 0xff # n # rest" "length (pkt_options p) = 336"
    using assms by (auto simp: displayable_def wf_packet_def)
  with msg_type_loop_encode[of "[]" 0 os "n # rest" "[]"] assms show ?thesis
    by (simp add: displayable_def showable_def)
qed

lemma displayable_options:
  assumes "displayable p os"
  shows "option_loop (pkt_options p) 0 = Inr (map shown_option os)"
proof -
  obtain n rest where o: "pkt_options p = encode os @ 0xff # n # rest" "length (pkt_options p) = 336" "unat n \<le> length rest"
    using assms by (auto simp: displayable_def wf_packet_def)
  with option_loop_encode[of "[]" 0 os n rest] assms show ?thesis by (simp add: displayable_def)
qed

lemma load_entry_loop_eq:
  assumes "list_all2 (\<lambda>(buff, p) os. scan_time buff \<noteq> None \<and> displayable p os) es oss"
  shows "load_entry_loop es m = Inr (map (\<lambda>((buff, p), os). gui_message_of (the (scan_time buff)) p os) (zip es oss))"
  using assms
proof (induction es oss arbitrary: m rule: list_all2_induct)
  case (Cons e es os oss)
  obtain buff p where e: "e = (buff, p)" by (cases e)
  then obtain t where t: "scan_time buff = Some t" and d: "displayable p os" using Cons.hyps(1) by auto
  let ?m = "host_order ((read_packet p m)\<lparr>time_when_stored := t\<rparr>)"
  have "gm_cookie ?m = MAGIC_COOKIE" "gm_options ?m = pkt_options p"
    using d by (simp_all add: host_order_def read_packet_def displayable_def)
  moreover have "?m\<lparr>gm_msg_type := type_text os\<rparr> = gui_message_of t p os"
    by (simp add: gui_message_of_def host_order_def read_packet_def)
  ultimately have "get_msg_type ?m = Inr (gui_message_of t p os)" using displayable_type[OF d]
    by (simp add: get_msg_type_def type_text_def msg_type_name_nonempty split: option.splits)
  with e t \<open>gm_cookie ?m = MAGIC_COOKIE\<close> Cons.IH show ?case by (simp add: Let_def)
qed simp

lemma gui_message_of_sel [simp]:
  "time_when_stored (gui_message_of t p os) = t" "gm_msg_type (gui_message_of t p os) = type_text os"
  by (simp_all add: gui_message_of_def host_order_def)

definition gui_messages :: "(u32 \<times> dhcp_message) list \<Rightarrow> dhcp_option list list \<Rightarrow> gui_message list" where
  "gui_messages ms oss = map (\<lambda>((now, m), os). gui_message_of now (packet m) os) (zip ms oss)"

lemma gui_messages_eq:
  "map (\<lambda>((buff, p), os). gui_message_of (the (scan_time buff)) p os) (zip (map (\<lambda>(now, m). (db_metadata now mac, packet m)) ms) oss)
     = gui_messages ms oss"
  by (simp add: gui_messages_def zip_map1 scan_time_metadata split_def comp_def)

lemma gui_messages_map:
  "length ms = length oss \<Longrightarrow>
   map time_when_stored (gui_messages ms oss) = map fst ms \<and> map gm_msg_type (gui_messages ms oss) = map type_text oss"
  by (induction ms oss rule: list_induct2) (auto simp: gui_messages_def)

lemma hex_mac_length: "6 \<le> length mac \<Longrightarrow> length (hex_mac mac) = 12"
  by (simp add: hex_mac_def length_concat comp_def sum_list_triv hex2_def)

lemma transactions_loop_all:
  "filter_content tab = [] \<Longrightarrow> \<forall>(x, mac) \<in> set keys. 6 \<le> length mac \<Longrightarrow>
   transactions_loop (map (\<lambda>(x, mac). db_path x mac) keys) tab =
     Inr (tab\<lparr>transaction_entries_xid := transaction_entries_xid tab @ map (hex8 \<circ> fst) keys,
              transaction_entries_mac := transaction_entries_mac tab @ map (hex_mac \<circ> snd) keys\<rparr>)"
proof (induction keys arbitrary: tab)
  case (Cons key keys)
  obtain x mac where key: "key = (x, mac)" by (cases key)
  have "length (hex_mac mac) = 12" using Cons.prems(2) key by (simp add: hex_mac_length)
  then have "substr (db_path x mac) 19 8 = Inr (hex8 x)" "substr (db_path x mac) 28 12 = Inr (hex_mac mac)"
    by (simp_all add: substr_def db_path_def db_name_def hex8_chars(1))
  with Cons key show ?case by (simp add: passes_filter_def comp_def)
qed simp

lemma show_first_message:
  assumes "displayable p os" "loaded_transaction tab = (gui_message_of t p os)\<lparr>gm_msg_type := ty\<rparr> # gs"
    "transaction_entries_xid tab \<noteq> []" "loaded_transaction_selected tab = 0" "loaded_transaction_selected_last tab = -1"
  obtains tab' where "cbind (load_selected_message tab) load_selected_option = Inr tab'"
    "transaction_entries_xid tab' = transaction_entries_xid tab" "loaded_transaction tab' = loaded_transaction tab"
    "loaded_transaction_msg_types tab' = loaded_transaction_msg_types tab"
    "str_time_when_stored (loaded_message tab') = put_time (gmtime t)"
    "str_xid (loaded_message tab') = hex_text (ntohl (pkt_xid p))"
    "str_yiaddr (loaded_message tab') = uint32_to_ipv4_address (ntohl (pkt_yiaddr p))"
    "loaded_dhcp_options tab' = map shown_option os" "selected_dhcp_option tab' = shown_option (os ! 0)"
proof -
  let ?g = "(gui_message_of t p os)\<lparr>gm_msg_type := ty\<rparr>"
  have g: "time_when_stored ?g = t" "gm_xid ?g = ntohl (pkt_xid p)" "gm_yiaddr ?g = ntohl (pkt_yiaddr p)"
    "gm_options ?g = pkt_options p" "length (gm_chaddr ?g) = 16" "os \<noteq> []"
    using assms(1) by (simp_all add: gui_message_of_def host_order_def read_packet_def displayable_def wf_packet_def)
  then obtain mac where "uint8_array_to_mac (gm_chaddr ?g) = Inr mac" by (auto simp: uint8_array_to_mac_def)
  then obtain s where s: "message_str ?g (loaded_message tab) = Inr s" "str_time_when_stored s = put_time (gmtime t)"
    "str_xid s = hex_text (ntohl (pkt_xid p))" "str_yiaddr s = uint32_to_ipv4_address (ntohl (pkt_yiaddr p))"
    using g by (simp add: message_str_def)
  have "vec_get (loaded_transaction tab) 0 = Inr ?g" using assms(2) by (simp add: vec_get_def)
  moreover have "option_loop (gm_options ?g) 0 = Inr (map shown_option os)"
    using displayable_options[OF assms(1)] g(4) by simp
  ultimately have "load_selected_message tab =
      Inr (tab\<lparr>loaded_message := s, option_detail_selected := 0, option_detail_selected_last := -1,
        loaded_dhcp_options := map shown_option os, dhcp_option_entries := map (\<lambda>go. to_string (go_tag go)) (map shown_option os),
        loaded_transaction_selected_last := 0\<rparr>)" (is "_ = Inr ?tab")
    using assms(3-5) s(1) by (simp add: load_selected_message_def load_selected_message_options_def Let_def)
  then have "cbind (load_selected_message tab) load_selected_option =
      Inr (?tab\<lparr>selected_dhcp_option := shown_option (os ! 0), option_detail_selected_last := 0\<rparr>)"
    using assms(3) g(6) by (simp add: load_selected_option_def vec_get_def)
  then show thesis by (rule that) (use s in simp_all)
qed

lemma inspect_tab_loaded:
  assumes "can_open (db_path x mac)" "db (db_path x mac) = Some es" "k < length keys" "keys ! k = (x, mac)"
    and "\<forall>(x, mac) \<in> set keys. 6 \<le> length mac" "load_entry_loop es zero_gui_message = Inr gs"
  obtains tab where "inspect_refresh can_open db (map (\<lambda>(x, mac). db_path x mac) keys) (TabInspect\<lparr>transaction_entry_selected := int k\<rparr>) =
      cbind (load_selected_message tab) load_selected_option"
    "transaction_entries_xid tab = map (hex8 \<circ> fst) keys" "loaded_transaction_selected tab = 0" "loaded_transaction_selected_last tab = -1"
    "loaded_transaction tab = map (\<lambda>g. g\<lparr>gm_msg_type := gm_msg_type g @ '' ''\<rparr>) gs"
    "loaded_transaction_msg_types tab = map gm_msg_type (loaded_transaction tab)"
proof -
  let ?gs = "map (\<lambda>g. g\<lparr>gm_msg_type := gm_msg_type g @ '' ''\<rparr>) gs"
  define tab0 where "tab0 = TabInspect\<lparr>transaction_entry_selected := int k, transaction_entries_xid := map (hex8 \<circ> fst) keys,
     transaction_entries_mac := map (hex_mac \<circ> snd) keys, filter_content_last := [], transaction_entry_selected_last := int k\<rparr>"
  have load: "load_transactions (map (\<lambda>(x, mac). db_path x mac) keys) (TabInspect\<lparr>transaction_entry_selected := int k\<rparr>) = Inr tab0"
    using transactions_loop_all[OF _ assms(5), of "TabInspect\<lparr>transaction_entry_selected := int k\<rparr>"]
    by (simp add: load_transactions_def TabInspect_def tab0_def)
  have path: "gui_db_path @ hex8 x @ ''_'' @ hex_mac mac @ ''.dhcp'' = db_path x mac"
    by (simp add: gui_db_path_def db_path_def db_name_def)
  have "keys \<noteq> []" using assms(3) by auto
  then have sel: "load_selected_transaction can_open db tab0 =
      Inr (tab0\<lparr>loaded_transaction := ?gs, loaded_transaction_msg_types := map gm_msg_type ?gs\<rparr>)"
    using assms(1-4,6)
    unfolding load_selected_transaction_def database_load_entry_def
    by (simp add: tab0_def vec_get_def Let_def path[simplified])
  show thesis
    by (rule that[of "tab0\<lparr>loaded_transaction := ?gs, loaded_transaction_msg_types := map gm_msg_type ?gs,
        loaded_transaction_selected_last := -1\<rparr>"])
      (use load sel in \<open>simp_all add: inspect_refresh_def tab0_def TabInspect_def\<close>)
qed

section \<open>Properties\<close>


text \<open>The message of the \<open>Database\<close> with the type DISCOVER.\<close>

lemma stored_message_displayable: "displayable (packet stored_message) [message_type_option 1]"
proof -
  have "opt_canon (message_type_option 1)" using sendable_message_type[of 1] by (simp add: sendable_def)
  moreover have "length (encode [message_type_option 1]) = 3" using encode_message_type[of 1] by simp
  moreover have "zeros 332 = 0 # zeros 331" using replicate_Suc[of 331 "0 :: u8"] by (simp only: zeros_def Suc_numeral semiring_norm)
  then have "pkt_options (packet stored_message) = encode [message_type_option 1] @ 0xff # 0 # zeros 331"
    by (simp add: stored_message_def)
  then have "\<exists>n rest. pkt_options (packet stored_message) = encode [message_type_option 1] @ 0xff # n # rest \<and> unat n \<le> length rest"
    by (intro exI[of _ 0] exI[of _ "zeros 331"]) simp
  moreover have "wf_packet (packet stored_message)" "pkt_cookie (packet stored_message) = htonl MAGIC_COOKIE"
    using calculation(2) by (simp_all add: stored_message_def wf_packet_def zero_packet_def)
  ultimately show ?thesis
    by (simp add: displayable_def showable_def message_type_option_def)
qed


text \<open>
  The button "Delete" takes the first file of the directory with the selected id: when two
  clients use the same id, this is the file of the first one, whichever of them is selected.
\<close>

lemma delete_removes_first_with_id:
  assumes "vec_get (transaction_entries_xid tab) (transaction_entry_selected tab) = Inr (hex8 x)" "can_remove (db_path x mac)"
  shows "remove_database_entry can_remove (db_path x mac # dir) db tab = Inr (db(db_path x mac := None))"
  using assms contains_append[of "''/var/dhcp/database/''" "hex8 x @ ''_''" "hex_mac mac @ ''.dhcp''"]
  by (simp add: remove_database_entry_def db_path_def db_name_def)

text \<open>A message whose first option is the end marker has no options; showing the first one reads outside the vector.\<close>

lemma no_options_out_of_bounds:
  assumes "transaction_entries_xid tab \<noteq> []" "loaded_dhcp_options tab = []" "option_detail_selected_last tab \<noteq> option_detail_selected tab"
  shows "load_selected_option tab = Inl Out_of_bounds"
  using assms by (simp add: load_selected_option_def vec_get_def)

end
