(* ===== verification/Gui_leases.thy ===== *)
theory Gui_leases
  imports Gui_json Gui_inspect
begin

text \<open>
  The leases tab of the user interface (\<open>gui/src/tab_leases.cpp\<close>): the pools are the files of
  the lease directory, the leases those of the selected pool's file, which the server writes
  (\<open>Lease\<close>).
\<close>

section \<open>The state of the tab\<close>

record gui_lease =
  gl_address :: u32
  gl_subnet :: u32
  gl_pool_name :: string
  gl_lease_start :: u32
  gl_lease_expire :: u32
  gl_xid :: u32
  gl_flags :: u8
  gl_mac :: "u8 list"

record tab_lease =
  lease_details_pool_name :: string
  lease_details_address :: string
  lease_details_subnet :: string
  lease_details_xid :: string
  lease_details_start :: string
  lease_details_end :: string
  lease_details_mac :: string
  pool_selected :: int
  pool_selected_last :: int
  lease_selected :: int
  lease_selected_last :: int
  tab_pools :: "string list"
  leased_addresses :: "string list"
  tab_leases :: "gui_lease list"

definition TabLease :: tab_lease where
  "TabLease = \<lparr>lease_details_pool_name = [], lease_details_address = [], lease_details_subnet = [],
     lease_details_xid = [], lease_details_start = [], lease_details_end = [], lease_details_mac = [],
     pool_selected = 0, pool_selected_last = -1, lease_selected = 0, lease_selected_last = -1,
     tab_pools = [], leased_addresses = [], tab_leases = []\<rparr>"

section \<open>The methods\<close>

definition leases_path :: string where
  "leases_path = ''/etc/dhcp/lease/''"

text \<open>\<open>s.find_last_of(c)\<close>, \<open>None\<close> for \<open>npos\<close>.\<close>

definition find_last_of :: "char \<Rightarrow> string \<Rightarrow> nat option" where
  "find_last_of c s = map_option (\<lambda>i. length s - 1 - i) (find_index (\<lambda>d. d = c) (rev s))"

text \<open>
  The part of a path between the directory and the last dot; the difference of the positions is
  that of unsigned numbers, which stands for the rest of the string when it is not positive.
\<close>

definition pool_entry_name :: "string \<Rightarrow> string c" where
  "pool_entry_name path =
     (let n = length leases_path in
      cbind (substr path n (case find_last_of (CHR ''.'') path of None \<Rightarrow> length path
               | Some last_dot \<Rightarrow> if last_dot < n then length path else last_dot - n)) (\<lambda>s. Inr (s @ '' '')))"

fun load_pools_names :: "string list \<Rightarrow> string list c" where
  "load_pools_names [] = Inr []"
| "load_pools_names (path # paths) =
     cbind (pool_entry_name path) (\<lambda>p. cbind (load_pools_names paths) (\<lambda>ps. Inr (p # ps)))"

text \<open>\<open>dir\<close> are the paths the directory iterator visits.\<close>

definition load_pools :: "string list \<Rightarrow> tab_lease \<Rightarrow> tab_lease c" where
  "load_pools dir tab = cbind (load_pools_names dir) (\<lambda>ps. Inr (tab\<lparr>tab_pools := ps\<rparr>))"

text \<open>The loop over the array; \<open>lease\<close> is one buffer for all its elements.\<close>

fun parse_leases_loop :: "'j cjson \<Rightarrow> 'j list \<Rightarrow> gui_lease \<Rightarrow> tab_lease \<Rightarrow> tab_lease c" where
  "parse_leases_loop api [] lease tab = Inr tab"
| "parse_leases_loop api (element # elements) lease tab =
     cbind (member_address api element ''address'') (\<lambda>address.
     cbind (member_address api element ''subnet'') (\<lambda>subnet.
       let lease = lease\<lparr>gl_address := address, gl_subnet := subnet,
             gl_lease_start := cj_u32 api (cj_get api element ''lease_start''),
             gl_lease_expire := cj_u32 api (cj_get api element ''lease_expire''),
             gl_xid := cj_u32 api (cj_get api element ''xid''),
             gl_flags := cj_u8 api (cj_get api element ''flags'')\<rparr>
       in case member_string api element ''client_mac_address'' of
            None \<Rightarrow> Inl Null_deref
          | Some mac \<Rightarrow>
              cbind (mac_to_uint8_array mac (gl_mac lease)) (\<lambda>mac.
                let lease = lease\<lparr>gl_mac := mac\<rparr> in
                cbind (string_of (member_string api element ''address'')) (\<lambda>address.
                  parse_leases_loop api elements lease (tab\<lparr>tab_leases := tab_leases tab @ [lease],
                    leased_addresses := leased_addresses tab @ [address]\<rparr>)))))"

definition zero_gui_lease :: gui_lease where
  "zero_gui_lease = \<lparr>gl_address = 0, gl_subnet = 0, gl_pool_name = [], gl_lease_start = 0, gl_lease_expire = 0,
     gl_xid = 0, gl_flags = 0, gl_mac = zeros 6\<rparr>"

definition parse_json_leases :: "'j gui_json \<Rightarrow> 'j option \<Rightarrow> string \<Rightarrow> tab_lease \<Rightarrow> (int \<times> tab_lease) c" where
  "parse_json_leases g json pname tab =
     (case json of None \<Rightarrow> Inr (-1, tab)
      | Some json \<Rightarrow>
          let tab = tab\<lparr>tab_leases := [], leased_addresses := []\<rparr> in
          case cj_get (gj_json g) json ''leases'' of
            None \<Rightarrow> Inr (-1, tab)
          | Some arr \<Rightarrow>
              if \<not> gj_is_array g arr then Inr (-1, tab)
              else cbind (parse_leases_loop (gj_json g) (cj_items (gj_json g) arr) (zero_gui_lease\<lparr>gl_pool_name := pname\<rparr>) tab)
                     (\<lambda>tab. Inr (0, tab)))"

text \<open>
  The buffer has the size of the file and no NUL behind it: the parser gets what follows it in
  memory as well (\<open>behind\<close>).
\<close>

definition read_buffer :: "(string \<Rightarrow> bool) \<Rightarrow> files \<Rightarrow> string \<Rightarrow> string \<Rightarrow> string option" where
  "read_buffer can_open fs path behind =
     (if can_open path then map_option (\<lambda>s. s @ behind) (fs path) else None)"

definition load_leases ::
    "'j gui_json \<Rightarrow> (string \<Rightarrow> bool) \<Rightarrow> files \<Rightarrow> string \<Rightarrow> tab_lease \<Rightarrow> (int \<times> tab_lease) c" where
  "load_leases g can_open fs behind tab =
     (if pool_selected tab = pool_selected_last tab then Inr (0, tab)
      else if tab_pools tab = [] then Inr (-1, tab)
      else cbind (vec_get (tab_pools tab) (pool_selected tab)) (\<lambda>pool.
        case read_buffer can_open fs (leases_path @ butlast pool @ ''.lease'') behind of
          None \<Rightarrow> Inr (-1, tab)
        | Some buffer \<Rightarrow>
            (case cj_parse (gj_json g) buffer of
               None \<Rightarrow> Inr (-1, tab)
             | Some json_leases \<Rightarrow>
                 cbind (parse_json_leases g (Some json_leases) pool tab) (\<lambda>(rv, tab).
                   if rv \<noteq> 0 then Inr (-1, tab)
                   else Inr (0, tab\<lparr>pool_selected_last := pool_selected tab, lease_selected := 0,
                                    lease_selected_last := -1\<rparr>)))))"

definition load_lease_details :: "tab_lease \<Rightarrow> tab_lease c" where
  "load_lease_details tab =
     (if lease_selected tab = lease_selected_last tab then Inr tab
      else if tab_leases tab = [] then
        Inr (tab\<lparr>lease_details_pool_name := [], lease_details_address := [], lease_details_subnet := [],
          lease_details_xid := [], lease_details_start := [], lease_details_end := [], lease_details_mac := []\<rparr>)
      else cbind (vec_get (tab_leases tab) (lease_selected tab)) (\<lambda>lease.
        cbind (uint8_array_to_mac (gl_mac lease)) (\<lambda>mac.
          Inr (tab\<lparr>lease_details_pool_name := gl_pool_name lease,
            lease_details_address := uint32_to_ipv4_address (gl_address lease),
            lease_details_subnet := uint32_to_ipv4_address (gl_subnet lease),
            lease_details_xid := hex_text (gl_xid lease),
            lease_details_start := put_time (gmtime (gl_lease_start lease)),
            lease_details_end := put_time (gmtime (gl_lease_expire lease)),
            lease_details_mac := mac, lease_selected_last := lease_selected tab\<rparr>))))"

definition leases_refresh ::
    "'j gui_json \<Rightarrow> (string \<Rightarrow> bool) \<Rightarrow> files \<Rightarrow> string list \<Rightarrow> string \<Rightarrow> tab_lease \<Rightarrow> tab_lease c" where
  "leases_refresh g can_open fs dir behind tab =
     cbind (load_pools dir tab) (\<lambda>tab.
     cbind (load_leases g can_open fs behind tab) (\<lambda>(_, tab). load_lease_details tab))"

section \<open>Lemmas\<close>

text \<open>A lease of the server as the tab has it.\<close>

definition gui_lease_of :: "string \<Rightarrow> lease \<Rightarrow> gui_lease" where
  "gui_lease_of pname l = \<lparr>gl_address = lease_address l, gl_subnet = lease_subnet l, gl_pool_name = pname,
     gl_lease_start = lease_start l, gl_lease_expire = lease_expire l, gl_xid = lease_xid l,
     gl_flags = lease_flags l, gl_mac = client_mac_address l\<rparr>"

lemma find_last_of_ext: "c \<notin> set ext \<Longrightarrow> find_last_of c (s @ c # ext) = Some (length s)"
proof -
  assume c: "c \<notin> set ext"
  have "find_index (\<lambda>d. d = c) (rev ext @ c # rev s) = Some (length ext)"
    by (rule find_index_eqI) (use c nth_mem[of _ "rev ext"] in \<open>auto simp: nth_append simp del: rev_nth\<close>)
  then show ?thesis by (simp add: find_last_of_def)
qed

lemma pool_entry_name_eq: "pool_entry_name (leases_path @ pool @ ''.lease'') = Inr (pool @ '' '')"
proof -
  have "find_last_of (CHR ''.'') ((leases_path @ pool) @ CHR ''.'' # ''lease'') = Some (length leases_path + length pool)"
    by (subst find_last_of_ext) simp_all
  then show ?thesis by (simp add: pool_entry_name_def Let_def)
qed

lemma load_pools_names_eq:
  "load_pools_names (map (\<lambda>pool. leases_path @ pool @ ''.lease'') ps) = Inr (map (\<lambda>pool. pool @ '' '') ps)"
  by (induction ps) (simp_all add: pool_entry_name_eq del: append.simps)

lemma parse_leases_loop_eq:
  assumes "cjson_ok api" "\<forall>w. cj_u8 api (Some (cj_of_u32 api (ucast w))) = w"
  shows "\<forall>l \<in> set ls. wf_lease pool l \<Longrightarrow> gl_pool_name lease = pname \<Longrightarrow> length (gl_mac lease) = 6 \<Longrightarrow>
   parse_leases_loop api (map (lease_json api) ls) lease tab =
     Inr (tab\<lparr>tab_leases := tab_leases tab @ map (gui_lease_of pname) ls,
       leased_addresses := leased_addresses tab @ map (\<lambda>l. uint32_to_ipv4_address (lease_address l)) ls\<rparr>)"
proof (induction ls arbitrary: lease tab)
  case (Cons l ls)
  have vals: "cj_string api (cj_of_string api s) = Some s" "cj_u32 api (Some (cj_of_u32 api w)) = w" for s w
    using assms(1) by (simp_all add: cjson_ok_def)
  have wf: "wf_lease pool l" using Cons.prems by simp
  obtain s where s: "scan_mac s 6 = client_mac_address l"
    "cj_get api (lease_json api l) ''address'' = Some (cj_of_string api (uint32_to_ipv4_address (lease_address l)))"
    "cj_get api (lease_json api l) ''subnet'' = Some (cj_of_string api (uint32_to_ipv4_address (lease_subnet l)))"
    "cj_get api (lease_json api l) ''xid'' = Some (cj_of_u32 api (lease_xid l))"
    "cj_get api (lease_json api l) ''lease_start'' = Some (cj_of_u32 api (lease_start l))"
    "cj_get api (lease_json api l) ''lease_expire'' = Some (cj_of_u32 api (lease_expire l))"
    "cj_get api (lease_json api l) ''flags'' = Some (cj_of_u32 api (ucast (lease_flags l)))"
    "cj_get api (lease_json api l) ''client_mac_address'' = Some (cj_of_string api s)"
    using assms(1) wf by (rule lease_json_get)
  have "mac_to_uint8_array s (gl_mac lease) = Inr (client_mac_address l)"
    using s(1) wf Cons.prems(3) by (simp add: mac_to_uint8_array_def memcpy_def wf_lease_def)
  with s Cons wf assms(2) vals show ?case
    by (simp add: member_address_def member_string_def ipv4_string_inverse string_of_def gui_lease_of_def wf_lease_def)
qed simp

text \<open>The file of a pool, when there is one, has an array as its member \<open>leases\<close>.\<close>

definition array_file :: "'j gui_json \<Rightarrow> files \<Rightarrow> string \<Rightarrow> bool" where
  "array_file g fs pool \<longleftrightarrow> (\<forall>s root arr. fs (lease_path pool) = Some s \<longrightarrow> cj_parse (gj_json g) s = Some root \<longrightarrow>
     cj_get (gj_json g) root ''leases'' = Some arr \<longrightarrow> gj_is_array g arr)"

lemma open_array:
  assumes "gui_json_ok g" "array_file g fs pool" "can_open (lease_path pool)"
    and "lease_open_lease_file (gj_json g) can_open fs (Some pool) = (Some (lease_path pool), fs')"
    and "lease_load_lease_file (gj_json g) fs' (lease_path pool) = Some root" "cj_get (gj_json g) root ''leases'' = Some arr"
  shows "gj_is_array g arr"
proof (cases "fs (lease_path pool)")
  case (Some s)
  with assms(2-6) show ?thesis
    by (auto simp: array_file_def lease_open_lease_file_def lease_load_lease_file_def Let_def)
next
  case None
  let ?root = "cj_with_array (gj_json g) (cj_object (gj_json g) []) ''leases'' []"
  have "cj_parse (gj_json g) (cj_print (gj_json g) ?root @ []) = Some ?root"
    using json_laws(1)[OF assms(1)] unfolding cjson_ok_def by blast
  moreover obtain a where "cj_get (gj_json g) ?root ''leases'' = Some a" "gj_is_array g a"
    using json_laws(5)[OF assms(1)] unfolding json_arrays_def by blast
  ultimately show ?thesis using None assms(3-6)
    by (auto simp: lease_open_lease_file_def lease_load_lease_file_def init_leases_file_def Let_def)
qed

text \<open>What the server leaves in the file after adding a lease: the printed array, and perhaps more.\<close>

lemma lease_add_file:
  assumes "gui_json_ok g" "holds (gj_json g) fs pool ls" "array_file g fs pool" "can_open (lease_path pool)" "wf_lease pool l"
  obtains fs' s root arr where "lease_add (gj_json g) can_open fs l = Inr (LEASE_OK, fs')" "fs' (lease_path pool) = Some s"
    "\<forall>rest. cj_parse (gj_json g) (s @ rest) = Some root" "cj_get (gj_json g) root ''leases'' = Some arr"
    "gj_is_array g arr" "cj_items (gj_json g) arr = map (lease_json (gj_json g)) (ls @ [l])"
proof -
  note laws = json_laws[OF assms(1)]
  obtain fs1 root arr where o1:
    "lease_open_lease_file (gj_json g) can_open fs (Some pool) = (Some (lease_path pool), fs1)"
    "lease_load_lease_file (gj_json g) fs1 (lease_path pool) = Some root" "cj_get (gj_json g) root ''leases'' = Some arr"
    "cj_items (gj_json g) arr = map (lease_json (gj_json g)) ls"
    using laws(1) assms(2,4) by (rule open_load)
  let ?root = "cj_with_array (gj_json g) root ''leases'' (map (lease_json (gj_json g)) (ls @ [l]))"
  have "gj_is_array g arr" using assms(1,3,4) o1(1-3) by (rule open_array)
  with o1(3) laws(5) obtain a where a: "cj_get (gj_json g) ?root ''leases'' = Some a" "gj_is_array g a"
    "cj_items (gj_json g) a = map (lease_json (gj_json g)) (ls @ [l])"
    unfolding json_arrays_def by blast
  have j: "lease_to_cjson (gj_json g) l = Inr (lease_json (gj_json g) l)" using laws(1) assms(5) by (rule lease_json_get)
  obtain rest where add: "lease_add (gj_json g) can_open fs l =
      Inr (LEASE_OK, fs1(lease_path pool \<mapsto> cj_print (gj_json g) ?root @ rest))"
    using o1 j assms(5) by (simp add: lease_add_def overwrite_def Let_def wf_lease_def)
  have "\<forall>rest'. cj_parse (gj_json g) ((cj_print (gj_json g) ?root @ rest) @ rest') = Some ?root"
    using laws(1) unfolding cjson_ok_def append_assoc by blast
  from that[OF add _ this a] show thesis by simp
qed

section \<open>Properties\<close>



end
