(* ===== verification/Gui_command.thy ===== *)
theory Gui_command
  imports Gui_leases Config
begin

text \<open>
  The command tab of the user interface (\<open>gui/src/tab_command.cpp\<close>, \<open>gui/src/commands.cpp\<close>):
  a line that begins with the name of a command is either handled here or sent to the control
  socket of the server (\<open>Commands\<close>), whose answer is printed.
\<close>

section \<open>The state of the tab\<close>

datatype gui_func = Func_clear | Func_help | Func_config

record gui_command =
  gc_name :: string
  gc_ipc :: bool
  gc_func :: "gui_func option"
  gc_help :: string
  gc_usage :: string

record tab_command =
  output_selected :: int
  tab_output :: "string list"
  tab_input :: string
  tab_commands :: "gui_command list"

definition initialize_commands :: "gui_command list" where
  "initialize_commands =
    [\<lparr>gc_name = ''clear'', gc_ipc = False, gc_func = Some Func_clear, gc_help = ''Deletes all output'', gc_usage = ''clear''\<rparr>,
     \<lparr>gc_name = ''help'', gc_ipc = False, gc_func = Some Func_help, gc_help = ''Shows short help page for each command'',
       gc_usage = ''help | ?''\<rparr>,
     \<lparr>gc_name = ''?'', gc_ipc = False, gc_func = Some Func_help, gc_help = [], gc_usage = []\<rparr>,
     \<lparr>gc_name = ''config'', gc_ipc = False, gc_func = Some Func_config,
       gc_help = ''Set or get value of a config entry. For arrays use 0 base indexing'',
       gc_usage = ''config get/set path.to.config.entry [new_value]''\<rparr>,
     \<lparr>gc_name = ''echo'', gc_ipc = True, gc_func = None, gc_help = ''Echoes back what the user types in arguments'',
       gc_usage = ''echo param1 param2 ...''\<rparr>,
     \<lparr>gc_name = ''stop-server'', gc_ipc = True, gc_func = None, gc_help = ''Stops the running dhcp server'',
       gc_usage = ''stop-server''\<rparr>,
     \<lparr>gc_name = ''rogue-scan'', gc_ipc = True, gc_func = None,
       gc_help = ''Perform a scan for potential dhcp rogue servers (running server must have support for scanning)'',
       gc_usage = ''rogue-scan <mac-address> [legit-server-ip ...]''\<rparr>,
     \<lparr>gc_name = ''pool-status'', gc_ipc = True, gc_func = None,
       gc_help = ''See the current number of available addresses in each pool'', gc_usage = ''pool-status''\<rparr>]"

definition TabCommand :: tab_command where
  "TabCommand = \<lparr>output_selected = 0, tab_output = [], tab_input = [], tab_commands = initialize_commands\<rparr>"

definition push_output :: "string \<Rightarrow> tab_command \<Rightarrow> tab_command" where
  "push_output s tab = tab\<lparr>tab_output := tab_output tab @ [s]\<rparr>"

section \<open>The commands of the server\<close>

text \<open>The words an input stream gives: the pieces between white space.\<close>

fun split_space :: "string \<Rightarrow> string list" where
  "split_space [] = [[]]"
| "split_space (c # cs) =
     (if is_space c then [] # split_space cs
      else case split_space cs of [] \<Rightarrow> [[c]] | p # ps \<Rightarrow> (c # p) # ps)"

definition words :: "string \<Rightarrow> string list" where
  "words s = filter (\<lambda>w. w \<noteq> []) (split_space s)"

definition json_error :: "'j cjson \<Rightarrow> string \<Rightarrow> 'j" where
  "json_error api e = cj_array api [cj_of_string api e]"

definition json_create_command :: "'j cjson \<Rightarrow> string \<Rightarrow> string c" where
  "json_create_command api s =
     (case words s of [] \<Rightarrow> Inl Out_of_bounds
      | w # ws \<Rightarrow> Inr (cj_unformatted api (cj_object api
          [(''command'', cj_of_string api w), (''parameters'', cj_array api (map (cj_of_string api) ws))])))"

text \<open>
  What happens on the socket: it can not be made, connected or written to, or the request is
  sent and \<open>recv\<close> gives bytes (\<open>None\<close>: an error, or the connection was closed).
\<close>

datatype connection = No_socket | Connect_fails | Send_fails | Connected "string \<Rightarrow> string option"

text \<open>\<open>recv\<close> into \<open>BUFSIZ\<close> zeros: a text that fills the buffer is not terminated.\<close>

definition received_text :: "string \<Rightarrow> string c" where
  "received_text bytes =
     (let s = takeWhile (\<lambda>c. c \<noteq> CHR 0x00) (take 8192 bytes) in
      if 8192 \<le> length s then Inl Out_of_bounds else Inr s)"

definition send_command :: "'j cjson \<Rightarrow> connection \<Rightarrow> string \<Rightarrow> 'j option c" where
  "send_command api con s =
     (case con of
        No_socket \<Rightarrow> Inr (Some (json_error api ''Failed to create socket''))
      | Connect_fails \<Rightarrow> Inr (Some (json_error api ''Connection failed''))
      | Send_fails \<Rightarrow> cbind (json_create_command api s) (\<lambda>_. Inr (Some (json_error api ''Send failed'')))
      | Connected server \<Rightarrow> cbind (json_create_command api s) (\<lambda>request.
          case server request of
            None \<Rightarrow> Inr (Some (json_error api ''Receive failed or connection closed''))
          | Some bytes \<Rightarrow>
              if bytes = [] then Inr (Some (json_error api ''Receive failed or connection closed''))
              else cbind (received_text bytes) (\<lambda>buffer. Inr (cj_parse api buffer))))"

definition print_response :: "'j gui_json \<Rightarrow> 'j option \<Rightarrow> tab_command \<Rightarrow> tab_command" where
  "print_response g json tab =
     (case json of None \<Rightarrow> push_output ''ERROR: Invalid JSON retuned'' tab
      | Some json \<Rightarrow>
          if \<not> gj_is_array g json then push_output ''ERROR: returned value is not a JSON array'' tab
          else fold (\<lambda>e. push_output (case cj_string (gj_json g) e of
                 None \<Rightarrow> ''ERROR: This value is not a string'' | Some s \<Rightarrow> s)) (cj_items (gj_json g) json) tab)"

section \<open>The commands handled here\<close>

definition command_clear :: "tab_command \<Rightarrow> tab_command" where
  "command_clear tab = tab\<lparr>tab_output := [], output_selected := 0\<rparr>"

definition command_help :: "tab_command \<Rightarrow> tab_command" where
  "command_help tab =
     fold (\<lambda>entry tab. if gc_name entry \<noteq> ''?''
             then push_output (''    Usage: '' @ gc_usage entry) (push_output (''  '' @ gc_name entry @ '' : '' @ gc_help entry) tab)
             else tab)
       (tab_commands tab) (push_output ''Short description of each command'' tab)"

definition is_number :: "string \<Rightarrow> bool" where
  "is_number s \<longleftrightarrow> s \<noteq> [] \<and> (\<forall>c \<in> set s. is_dec c)"

text \<open>The words \<open>std::getline\<close> gives: nothing stands behind a separator at the end.\<close>

definition getlines :: "char \<Rightarrow> string \<Rightarrow> string list" where
  "getlines sep s = (let ps = split_on sep s in if last ps = [] then butlast ps else ps)"

text \<open>The path of an entry: positions in arrays and names of members.\<close>

datatype json_step = Index int | Key string

fun path_steps :: "string list \<Rightarrow> json_step list c" where
  "path_steps [] = Inr []"
| "path_steps (w # ws) =
     cbind (if is_number w then cbind (stoi w) (\<lambda>i. Inr (Index i)) else Inr (Key w)) (\<lambda>step.
     cbind (path_steps ws) (\<lambda>steps. Inr (step # steps)))"

text \<open>The functions of cJSON give NULL for a position or a name that is not there, and of NULL.\<close>

definition get_step :: "'j cjson \<Rightarrow> 'j \<Rightarrow> json_step \<Rightarrow> 'j option" where
  "get_step api j step = (case step of
     Index i \<Rightarrow> if 0 \<le> i \<and> nat i < length (cj_items api j) then Some (cj_items api j ! nat i) else None
   | Key k \<Rightarrow> cj_get api j k)"

fun get_path :: "'j cjson \<Rightarrow> 'j \<Rightarrow> json_step list \<Rightarrow> 'j option" where
  "get_path api j [] = Some j"
| "get_path api j (step # steps) = (case get_step api j step of None \<Rightarrow> None | Some j \<Rightarrow> get_path api j steps)"

text \<open>The result is a pointer into the tree: the path and what it leads to.\<close>

definition config_get_path :: "'j cjson \<Rightarrow> 'j \<Rightarrow> string \<Rightarrow> (json_step list \<times> 'j option) c" where
  "config_get_path api root path =
     cbind (path_steps (getlines (CHR ''.'') path)) (\<lambda>steps. Inr (steps, get_path api root steps))"

text \<open>The tree with another value in the place of the item the path leads to.\<close>

fun put_path :: "'j gui_json \<Rightarrow> 'j \<Rightarrow> json_step list \<Rightarrow> 'j \<Rightarrow> 'j" where
  "put_path g j [] v = v"
| "put_path g j (step # steps) v =
     (case get_step (gj_json g) j step of None \<Rightarrow> j
      | Some j' \<Rightarrow>
          let v' = put_path g j' steps v in
          case step of Index i \<Rightarrow> gj_put_nth g j (nat i) v' | Key k \<Rightarrow> gj_put g j k v')"

abbreviation (input) default_config_path :: string where
  "default_config_path \<equiv> ''/etc/dhcp/config.json''"

text \<open>The value of an entry as text.\<close>

definition show_conf :: "'j gui_json \<Rightarrow> 'j \<Rightarrow> string" where
  "show_conf g conf =
     (case cj_string (gj_json g) conf of Some s \<Rightarrow> s
      | None \<Rightarrow> if cj_is_number (gj_json g) conf then to_string (gj_valueint g conf)
                else if cj_is_bool (gj_json g) conf then (if cj_is_true (gj_json g) conf then ''True'' else ''False'')
                else ''Error: Cannot show value of this object'')"

text \<open>
  The new value of an entry, \<open>None\<close> when it keeps its value and an error is printed; the first
  result says whether the file is written.
\<close>

definition set_conf :: "'j gui_json \<Rightarrow> 'j \<Rightarrow> string \<Rightarrow> tab_command \<Rightarrow> (bool \<times> 'j option \<times> tab_command) c" where
  "set_conf g conf s tab =
     (if cj_is_string (gj_json g) conf then Inr (True, Some (cj_of_string (gj_json g) s), tab)
      else if cj_is_number (gj_json g) conf then
        (if \<not> is_number s then Inr (True, None, push_output ''Error: expected number'' tab)
         else cbind (stoi s) (\<lambda>i. Inr (True, Some (gj_of_int g i), tab)))
      else if cj_is_bool (gj_json g) conf then
        (if take 1 s \<noteq> ''0'' \<and> take 1 s \<noteq> ''1'' then Inr (True, None, push_output ''Error: expected boolean (0|1)'' tab)
         else Inr (True, Some (gj_of_bool g (take 1 s = ''1'')), tab))
      else Inr (False, None, push_output ''Error: Cannot set value of this object'' tab))"

text \<open>\<open>errno_text\<close> is \<open>errno\<close> as a number.\<close>

record 'j gui_env =
  ge_json :: "'j gui_json"
  ge_can_open :: "string \<Rightarrow> bool"
  ge_can_write :: "string \<Rightarrow> bool"
  ge_behind :: string
  ge_errno_text :: string
  ge_strerror :: string
  ge_connection :: connection

definition command_config :: "'j gui_env \<Rightarrow> files \<Rightarrow> tab_command \<Rightarrow> (tab_command \<times> files) c" where
  "command_config env fs tab =
     (let g = ge_json env in
      case read_buffer (ge_can_open env) fs default_config_path (ge_behind env) of
        None \<Rightarrow> Inr (push_output ''Error opening config file'' tab, fs)
      | Some buffer \<Rightarrow>
      case cj_parse (gj_json g) buffer of
        None \<Rightarrow> Inr (push_output ''Erorr: failed to parse JSON'' tab, fs)
      | Some json \<Rightarrow>
      let substrings = take 4 (getlines (CHR '' '') (tab_input tab)) in
      if length substrings < 3 then Inr (push_output ''Error: Bad input format, check usage'' tab, fs)
      else cbind (config_get_path (gj_json g) json (substrings ! 2)) (\<lambda>(steps, conf).
        case conf of
          None \<Rightarrow> Inr (push_output (''Error: Could not find config entry '' @ substrings ! 2) tab, fs)
        | Some conf \<Rightarrow>
        let tab = (if substrings ! 1 = ''get'' then push_output (show_conf g conf) tab else tab) in
        if substrings ! 1 \<noteq> ''set'' then Inr (tab, fs)
        else if length substrings \<noteq> 4 then Inr (push_output ''Error: Missing new value, check command usage'' tab, fs)
        else cbind (set_conf g conf (substrings ! 3) tab) (\<lambda>(write, v, tab).
          if \<not> write then Inr (tab, fs)
          else if \<not> ge_can_write env default_config_path
          then Inr (push_output (''Failed to open config file: '' @ ge_errno_text env) tab, fs)
          else
            let json = (case v of None \<Rightarrow> json | Some v \<Rightarrow> put_path g json steps v)
            in Inr (tab, fs(default_config_path \<mapsto> cj_print (gj_json g) json @ [CHR 0x0A])))))"

section \<open>A line is entered\<close>

definition gui_handle_command :: "'j gui_env \<Rightarrow> files \<Rightarrow> tab_command \<Rightarrow> (tab_command \<times> files) c" where
  "gui_handle_command env fs tab =
     (case List.find (\<lambda>entry. gc_name entry = takeWhile (\<lambda>c. c \<noteq> CHR '' '') (tab_input tab)) (tab_commands tab) of
        None \<Rightarrow> Inr (push_output (''Unknown command: '' @ tab_input tab @ ''. Use command '' @ [CHR 0x27] @ ''help'' @ [CHR 0x27] @
                  '' to show all commands'') tab, fs)
      | Some entry \<Rightarrow>
          let tab = push_output (''$ '' @ tab_input tab) tab in
          if gc_ipc entry then
            cbind (send_command (gj_json (ge_json env)) (ge_connection env) (tab_input tab)) (\<lambda>json.
              Inr (print_response (ge_json env) json tab, fs))
          else case gc_func entry of
            None \<Rightarrow> Inl Null_deref
          | Some Func_clear \<Rightarrow> Inr (command_clear tab, fs)
          | Some Func_help \<Rightarrow> Inr (command_help tab, fs)
          | Some Func_config \<Rightarrow> command_config env fs tab)"

text \<open>The handler of the return key.\<close>

definition enter :: "'j gui_env \<Rightarrow> files \<Rightarrow> tab_command \<Rightarrow> (tab_command \<times> files) c" where
  "enter env fs tab =
     (if tab_input tab = [] then Inr (tab, fs)
      else cbind (gui_handle_command env fs tab) (\<lambda>(tab, fs).
        Inr (tab\<lparr>tab_input := [], output_selected := int (length (tab_output tab)) - 1\<rparr>, fs)))"

section \<open>Lemmas\<close>

lemma fold_push: "fold (\<lambda>e. push_output (f e)) xs tab = tab\<lparr>tab_output := tab_output tab @ map f xs\<rparr>"
  by (induction xs arbitrary: tab) (simp_all add: push_output_def)

lemma print_strings:
  assumes "gui_json_ok g"
  shows "print_response g (Some (cj_array (gj_json g) (map (cj_of_string (gj_json g)) ss))) tab =
     tab\<lparr>tab_output := tab_output tab @ ss\<rparr>"
  using json_laws[OF assms]
  by (simp add: print_response_def fold_push json_arrays_def cjson_prints_def comp_def)

lemma received_text_eq: "CHR 0x00 \<notin> set s \<Longrightarrow> length s < 8192 \<Longrightarrow> received_text s = Inr s"
proof -
  assume "CHR 0x00 \<notin> set s" "length s < 8192"
  then have "takeWhile (\<lambda>c. c \<noteq> CHR 0x00) (take 8192 s) = s" by (auto simp: takeWhile_eq_all_conv)
  with \<open>length s < 8192\<close> show ?thesis by (simp only: received_text_def Let_def) simp
qed

lemma split_space_nonempty [simp]: "split_space s \<noteq> []"
  by (cases s) (auto split: list.splits)

lemma split_space_append: "is_space c \<Longrightarrow> split_space (a @ c # b) = split_space a @ split_space b"
  by (induction a) (auto simp: append_eq_Cons_conv split: list.splits)

lemma words_append: "is_space c \<Longrightarrow> words (a @ c # b) = words a @ words b"
  by (simp add: words_def split_space_append)

lemma words_single: "\<forall>c \<in> set w. \<not> is_space c \<Longrightarrow> w \<noteq> [] \<Longrightarrow> words w = [w]"
proof -
  have "\<forall>c \<in> set w. \<not> is_space c \<Longrightarrow> split_space w = [w]" for w by (induction w) auto
  then show "\<forall>c \<in> set w. \<not> is_space c \<Longrightarrow> w \<noteq> [] \<Longrightarrow> words w = [w]" by (simp add: words_def)
qed

text \<open>The server at the other end of the socket, in a state and with an allocator.\<close>

definition served_by :: "'j ctl_env \<Rightarrow> allocator \<Rightarrow> unix_server \<Rightarrow> string \<Rightarrow> string option" where
  "served_by cenv a us request =
     (case unix_server_handle cenv (Client (Some request) True) a us of
        Inl _ \<Rightarrow> None
      | Inr (_, us') \<Rightarrow> if length (replies us) < length (replies us') then Some (last (replies us')) else None)"

lemma command_members:
  assumes "cjson_ok api"
  shows "cj_get api (cj_object api [(''command'', c), (''parameters'', ps)]) ''command'' = Some c"
    "cj_get api (cj_object api [(''command'', c), (''parameters'', ps)]) ''parameters'' = Some ps"
  using assms by (simp_all add: cjson_ok_def lower_case_def)

text \<open>A line whose command the server answers by printing an array of strings.\<close>

lemma served_command:
  assumes ok: "gui_json_ok g" and cenv: "ctl_json cenv = gj_json g" and w: "words s = name # ws"
    and req: "request = cj_unformatted (gj_json g) (cj_object (gj_json g)
       [(''command'', cj_of_string (gj_json g) name), (''parameters'', cj_array (gj_json g) (map (cj_of_string (gj_json g)) ws))])"
    and rep: "reply = cj_unformatted (gj_json g) (cj_array (gj_json g) (map (cj_of_string (gj_json g)) ss))"
    and small: "CHR 0x00 \<notin> set request" "length request < 8192" "CHR 0x00 \<notin> set reply" "length reply < 8192" "reply \<noteq> []"
    and cmd: "List.find (\<lambda>cmd. cmd_name cmd = name) (commands us) = Some cmd"
      "\<And>us. call_command cenv a (cmd_func cmd) (cj_array (gj_json g) (map (cj_of_string (gj_json g)) ws)) us = Inr (reply, us)"
  shows "cbind (send_command (gj_json g) (Connected (served_by cenv a us)) s) (\<lambda>json. Inr (print_response g json tab)) =
    Inr (tab\<lparr>tab_output := tab_output tab @ ss\<rparr>)"
proof -
  note laws = json_laws[OF ok]
  let ?ps = "cj_array (gj_json g) (map (cj_of_string (gj_json g)) ws)" and ?c = "cj_of_string (gj_json g) name"
  have parse: "cj_parse (gj_json g) (cj_unformatted (gj_json g) j) = Some j" for j using laws(2) by (simp add: cjson_prints_def)
  have "unix_server_handle cenv (Client (Some request) True) a us = Inr (UNIX_STATUS_OK, us\<lparr>replies := replies us @ [reply]\<rparr>)"
  proof (rule request_answered)
    show "cj_parse (ctl_json cenv) request = Some (cj_object (gj_json g) [(''command'', ?c), (''parameters'', ?ps)])"
      using parse by (simp add: cenv req)
    show "cj_get (ctl_json cenv) (cj_object (gj_json g) [(''command'', ?c), (''parameters'', ?ps)]) ''command'' = Some ?c"
      "cj_get (ctl_json cenv) (cj_object (gj_json g) [(''command'', ?c), (''parameters'', ?ps)]) ''parameters'' = Some ?ps"
      unfolding cenv by (rule command_members[OF laws(1)])+
    show "cj_string (ctl_json cenv) ?c = Some name" using laws(2) by (simp add: cenv cjson_prints_def)
  qed (use small cmd in auto)
  then have "served_by cenv a us request = Some reply" by (simp add: served_by_def)
  with w req small have "send_command (gj_json g) (Connected (served_by cenv a us)) s =
      Inr (Some (cj_array (gj_json g) (map (cj_of_string (gj_json g)) ss)))"
    using parse by (simp add: send_command_def json_create_command_def received_text_eq rep)
  then show ?thesis using print_strings[OF ok] by simp
qed

subsection \<open>Entries of the configuration file\<close>

lemma split_on_nonempty [simp]: "split_on sep s \<noteq> []"
  by (cases s) (auto split: list.splits)

lemma split_on_append: "split_on sep (a @ sep # b) = split_on sep a @ split_on sep b"
  by (induction a) (auto simp: append_eq_Cons_conv split: list.splits)

lemma split_on_single: "sep \<notin> set a \<Longrightarrow> split_on sep a = [a]"
  by (induction a) auto

lemma set_line_parts:
  assumes "CHR '' '' \<notin> set path" "CHR '' '' \<notin> set v" "v \<noteq> []"
  shows "getlines (CHR '' '') (''config set '' @ path @ '' '' @ v) = [''config'', ''set'', path, v]"
proof -
  have "''config set '' @ path @ '' '' @ v = ''config'' @ CHR '' '' # ''set'' @ CHR '' '' # path @ CHR '' '' # v" by simp
  with assms show ?thesis by (simp only: getlines_def split_on_append) (simp add: split_on_single)
qed

lemma get_line_parts:
  assumes "CHR '' '' \<notin> set path" "path \<noteq> []"
  shows "getlines (CHR '' '') (''config get '' @ path) = [''config'', ''get'', path]"
proof -
  have "''config get '' @ path = ''config'' @ CHR '' '' # ''get'' @ CHR '' '' # path" by simp
  with assms show ?thesis by (simp only: getlines_def split_on_append) (simp add: split_on_single)
qed

text \<open>A path through objects, by lower case names, and arrays; two paths that part somewhere.\<close>

fun path_ok :: "'j gui_json \<Rightarrow> 'j \<Rightarrow> json_step list \<Rightarrow> bool" where
  "path_ok g j [] \<longleftrightarrow> True"
| "path_ok g j (step # steps) \<longleftrightarrow>
     (case step of Index _ \<Rightarrow> gj_is_array g j | Key k \<Rightarrow> gj_is_object g j \<and> lower_case k) \<and>
     (case get_step (gj_json g) j step of None \<Rightarrow> False | Some j' \<Rightarrow> path_ok g j' steps)"

fun parts :: "json_step list \<Rightarrow> json_step list \<Rightarrow> bool" where
  "parts (s # p) (t # q) \<longleftrightarrow> (if s = t then parts p q
     else case (s, t) of (Index _, Index _) \<Rightarrow> True | (Key _, Key k) \<Rightarrow> lower_case k | _ \<Rightarrow> False)"
| "parts _ _ \<longleftrightarrow> False"

lemma get_put_step:
  assumes "gui_json_ok g" "get_step (gj_json g) j step = Some j'"
    and "case step of Index _ \<Rightarrow> gj_is_array g j | Key k \<Rightarrow> gj_is_object g j \<and> lower_case k"
  shows "get_step (gj_json g) (case step of Index i \<Rightarrow> gj_put_nth g j (nat i) v | Key k \<Rightarrow> gj_put g j k v) step = Some v"
proof (cases step)
  case (Index i)
  then have "gj_is_array g j" using assms(3) by simp
  then have "cj_items (gj_json g) (gj_put_nth g j (nat i) v) = (cj_items (gj_json g) j)[nat i := v]"
    using json_laws(5)[OF assms(1)] unfolding json_arrays_def by blast
  with Index assms(2) show ?thesis by (auto simp: get_step_def split: if_splits)
next
  case (Key k)
  with json_laws(4)[OF assms(1)] assms(3) show ?thesis by (simp add: json_objects_def get_step_def)
qed

lemma get_put_other:
  assumes "gui_json_ok g" "case step of Index _ \<Rightarrow> gj_is_array g j | Key k \<Rightarrow> gj_is_object g j \<and> lower_case k"
    and "get_step (gj_json g) j step = Some j'" "s \<noteq> step" "parts [step] [s]"
  shows "get_step (gj_json g) (case step of Index i \<Rightarrow> gj_put_nth g j (nat i) v | Key k \<Rightarrow> gj_put g j k v) s =
     get_step (gj_json g) j s"
proof (cases step)
  case (Index i)
  then obtain k where s: "s = Index k" using assms(4,5) by (cases s) auto
  have "gj_is_array g j" using Index assms(2) by simp
  then have "cj_items (gj_json g) (gj_put_nth g j (nat i) v) = (cj_items (gj_json g) j)[nat i := v]"
    using json_laws(5)[OF assms(1)] unfolding json_arrays_def by blast
  moreover have "0 \<le> i" using assms(3) Index by (auto simp: get_step_def split: if_splits)
  ultimately show ?thesis using Index s assms(4) by (auto simp: get_step_def nth_list_update)
next
  case (Key k)
  then obtain k' where "s = Key k'" "lower_case k'" "k' \<noteq> k" using assms(4,5) by (cases s) auto
  with Key json_laws(4)[OF assms(1)] assms(2) show ?thesis by (simp add: json_objects_def get_step_def)
qed

lemma get_put_path:
  assumes "gui_json_ok g"
  shows "path_ok g j p \<Longrightarrow> get_path (gj_json g) (put_path g j p v) p = Some v"
proof (induction p arbitrary: j)
  case (Cons s p)
  then obtain j' where j': "get_step (gj_json g) j s = Some j'" "path_ok g j' p" by (auto split: option.splits)
  with Cons get_put_step[OF assms j'(1)] show ?case by (simp add: Let_def)
qed simp

lemma get_put_parted:
  assumes "gui_json_ok g"
  shows "path_ok g j p \<Longrightarrow> parts p q \<Longrightarrow> get_path (gj_json g) (put_path g j p v) q = get_path (gj_json g) j q"
proof (induction p q arbitrary: j rule: parts.induct)
  case (1 s p t q)
  then obtain j' where j': "get_step (gj_json g) j s = Some j'" "path_ok g j' p"
    and ok: "case s of Index _ \<Rightarrow> gj_is_array g j | Key k \<Rightarrow> gj_is_object g j \<and> lower_case k"
    by (auto split: option.splits)
  show ?case
  proof (cases "s = t")
    case True
    with 1 j' get_put_step[OF assms j'(1) ok] show ?thesis by (simp add: Let_def)
  next
    case False
    with 1(3) have "parts [s] [t]" by (auto split: json_step.splits)
    with False j' get_put_other[OF assms ok j'(1)] show ?thesis by (simp add: Let_def)
  qed
qed simp_all

lemma is_number_dec: "is_number (dec n)" "CHR '' '' \<notin> set (dec n)"
proof -
  obtain ds where ds: "dec n = map digit_char ds" "\<forall>d \<in> set ds. d < 10" using dec_digits by blast
  then have digits: "\<forall>c \<in> set (dec n). is_dec c" by auto
  then show "is_number (dec n)" using dec_nonempty[of n] by (simp add: is_number_def)
  have "\<not> is_dec (CHR '' '')" by (simp add: is_dec_def digit_val_def)
  with digits show "CHR '' '' \<notin> set (dec n)" by blast
qed

lemma stoi_dec: "n < 2 ^ 31 \<Longrightarrow> stoi (dec n) = Inr (int n)"
  using stoi_to_string[of "int n"] by (simp add: to_string_def)

section \<open>Properties\<close>


text \<open>A user interface that can open every file, with the given connection.\<close>

definition plain_gui :: "connection \<Rightarrow> string gui_env" where
  "plain_gui con = \<lparr>ge_json = gui_tagged, ge_can_open = (\<lambda>_. True), ge_can_write = (\<lambda>_. True), ge_behind = [],
     ge_errno_text = ''13'', ge_strerror = ''Permission denied'', ge_connection = con\<rparr>"

lemma lan_line: "pool_line lan_pool = ''lan (192.168.0.100 to 192.168.0.104): 5 available leases''"
  by (simp add: pool_line_def lan_pool_def uint32_to_ipv4_address_def dec.simps digit_char_def char_of_def bit_0)




end
