(* ===== verification/Gui_config.thy ===== *)
theory Gui_config
  imports Gui_command
begin

text \<open>
  The configuration tab of the user interface (\<open>gui/src/tab_config.cpp\<close>): it loads the
  configuration file of the server into texts, switches and lists, which the user changes, and
  writes them back. The pointers into the tree of the file are paths: an entry of a section
  belongs to the member of its name, the first element of \<open>options_config_entries\<close> to the member
  \<open>options\<close> of the file, and the element \<open>i + 1\<close> to the one of pool \<open>i\<close>. The descriptions of the
  entries are only shown and are left out.
\<close>

section \<open>The state of the tab\<close>

datatype conf_type = NUMERIC | STRING | BOOLEAN | IP

record conf_entry =
  en_name :: string
  en_json_path :: string
  en_type :: conf_type
  en_val :: string
  en_val_i :: int
  en_def_val :: string
  en_def_val_i :: int
  en_json :: bool

record option_conf =
  oc_tag :: int
  oc_lenght :: int
  oc_value :: string

record pool_conf =
  pc_name :: string
  pc_start :: string
  pc_end :: string
  pc_subnet :: string

record 'j tab_config =
  config_tree :: "'j option"
  config_entries :: "conf_entry list"
  security_acl_entries :: "string list"
  security_acl_entries_size_last :: nat
  pools_pools :: "pool_conf list"
  pools_entries :: "string list"
  pools_pool_selected :: int
  pools_pool_selected_last :: int
  options_list :: "string list"
  options_list_selected :: int
  options_list_selected_last :: int
  options_config_entries :: "option_conf list list"
  options_loaded_list :: "option_conf list"
  options_loaded_list_entries :: "string list"
  options_loaded_list_selected :: int
  options_loaded_list_selected_last :: int
  options_loaded_type :: string
  dhcp_option_ctl_input :: string
  error_msg :: string

text \<open>The positions of the enumeration \<open>ConfigName\<close>.\<close>

abbreviation (input) CONF_INTERFACE :: nat where "CONF_INTERFACE \<equiv> 0"
abbreviation (input) CONF_TICK_DELAY :: nat where "CONF_TICK_DELAY \<equiv> 1"
abbreviation (input) CONF_CACHE_SIZE :: nat where "CONF_CACHE_SIZE \<equiv> 2"
abbreviation (input) CONF_TRANSACTION_DURATION :: nat where "CONF_TRANSACTION_DURATION \<equiv> 3"
abbreviation (input) CONF_LEASE_EXPIRATION_CHECK :: nat where "CONF_LEASE_EXPIRATION_CHECK \<equiv> 4"
abbreviation (input) CONF_LOG_VERBOSITY :: nat where "CONF_LOG_VERBOSITY \<equiv> 5"
abbreviation (input) CONF_LEASE_TIME :: nat where "CONF_LEASE_TIME \<equiv> 6"
abbreviation (input) CONF_DB_ENABLE :: nat where "CONF_DB_ENABLE \<equiv> 7"
abbreviation (input) CONF_SEC_ACL_ENABLE :: nat where "CONF_SEC_ACL_ENABLE \<equiv> 8"
abbreviation (input) CONF_SEC_ACL_MODE :: nat where "CONF_SEC_ACL_MODE \<equiv> 9"
abbreviation (input) CONF_SEC_DYN_ACL_ENABLE :: nat where "CONF_SEC_DYN_ACL_ENABLE \<equiv> 10"
abbreviation (input) CONF_SEC_ACL_ENTRIES :: nat where "CONF_SEC_ACL_ENTRIES \<equiv> 11"
abbreviation (input) CONFIG_COUNT :: nat where "CONFIG_COUNT \<equiv> 12"

text \<open>An entry with a text and one with a switch; the fields an initializer leaves out are zero.\<close>

definition text_entry :: "string \<Rightarrow> string \<Rightarrow> conf_type \<Rightarrow> string \<Rightarrow> conf_entry" where
  "text_entry name path ty v = \<lparr>en_name = name, en_json_path = path, en_type = ty, en_val = v, en_val_i = 0,
     en_def_val = v, en_def_val_i = 0, en_json = False\<rparr>"

definition switch_entry :: "string \<Rightarrow> string \<Rightarrow> conf_entry" where
  "switch_entry name path = \<lparr>en_name = name, en_json_path = path, en_type = BOOLEAN, en_val = [], en_val_i = 1,
     en_def_val = [], en_def_val_i = 1, en_json = False\<rparr>"

text \<open>The entries; their number is \<open>CONFIG_COUNT\<close>.\<close>

definition initialize :: "conf_entry list" where
  "initialize =
    [text_entry ''Interface'' ''interface'' STRING [],
     text_entry ''Tick Delay'' ''tick_delay'' NUMERIC ''1000'',
     text_entry ''Cache Size'' ''cache_size'' NUMERIC ''25'',
     text_entry ''Transaction Duration'' ''transaction_duration'' NUMERIC ''60'',
     text_entry ''Lease Expiration Check'' ''lease_expiration_check'' NUMERIC ''60'',
     text_entry ''Log Verbosity'' ''log_verbosity'' NUMERIC ''4'',
     text_entry ''Lease Time'' ''lease_time'' NUMERIC ''43200'',
     switch_entry ''Database Enable'' ''db_enable'',
     switch_entry ''ACL enable'' ''acl_enable'',
     switch_entry ''ACL mode'' ''acl_blacklist'',
     switch_entry ''Dynamic ACL'' ''dynamic_acl'',
     text_entry ''ACL entries'' ''acl_entries'' STRING []]"

section \<open>Loading\<close>

definition load_option :: "'j gui_json \<Rightarrow> 'j \<Rightarrow> option_conf c" where
  "load_option g e =
     (let tag = gj_int g (cj_get (gj_json g) e ''tag''); lenght = gj_int g (cj_get (gj_json g) e ''lenght'');
          new = (\<lambda>v. \<lparr>oc_tag = tag, oc_lenght = lenght, oc_value = v\<rparr>)
      in case gui_tag_to_type tag of
        DHCP_OPTION_IP \<Rightarrow> cbind (string_of (member_string (gj_json g) e ''value'')) (\<lambda>v. Inr (new v))
      | DHCP_OPTION_STRING \<Rightarrow> cbind (string_of (member_string (gj_json g) e ''value'')) (\<lambda>v. Inr (new v))
      | DHCP_OPTION_NUMERIC \<Rightarrow> Inr (new (gj_fixed g (cj_get (gj_json g) e ''value'')))
      | DHCP_OPTION_BOOL \<Rightarrow> Inr (new (gj_fixed g (cj_get (gj_json g) e ''value'')))
      | DHCP_OPTION_BIN \<Rightarrow> Inr (new []))"

fun load_options :: "'j gui_json \<Rightarrow> 'j list \<Rightarrow> option_conf list c" where
  "load_options g [] = Inr []"
| "load_options g (e # es) =
     cbind (load_option g e) (\<lambda>oc. cbind (load_options g es) (\<lambda>ocs.
       Inr (if oc_value oc \<noteq> [] then oc # ocs else ocs)))"

definition load_dhcp_config :: "'j gui_json \<Rightarrow> 'j option \<Rightarrow> option_conf list c" where
  "load_dhcp_config g json = (case json of None \<Rightarrow> Inr [] | Some j \<Rightarrow> load_options g (cj_items (gj_json g) j))"

text \<open>
  One entry of the section \<open>server\<close>: the result of the function when it returns here (\<open>-1\<close>), the
  section and the entry. A missing entry is added with its default; the text of the entry
  stays as it is.
\<close>

definition load_entry :: "'j gui_json \<Rightarrow> 'j option \<Rightarrow> conf_entry \<Rightarrow> int \<times> 'j option \<times> conf_entry" where
  "load_entry g server e =
     (case member (gj_json g) server (en_json_path e) of
        None \<Rightarrow>
          let v = (case en_type e of NUMERIC \<Rightarrow> gj_of_int g (en_def_val_i e) | BOOLEAN \<Rightarrow> gj_of_bool g (en_def_val_i e \<noteq> 0)
                   | _ \<Rightarrow> cj_of_string (gj_json g) (en_def_val e))
          in (0, map_option (\<lambda>s. gj_put g s (en_json_path e) v) server, e\<lparr>en_json := server \<noteq> None\<rparr>)
      | Some j \<Rightarrow>
          let e = e\<lparr>en_json := True\<rparr> in
          (case en_type e of
             STRING \<Rightarrow> (case cj_string (gj_json g) j of None \<Rightarrow> (-1, server, e) | Some s \<Rightarrow> (0, server, e\<lparr>en_val := s\<rparr>))
           | IP \<Rightarrow> (case cj_string (gj_json g) j of None \<Rightarrow> (-1, server, e)
               | Some s \<Rightarrow> (if ipv4_address_to_uint32 s = 0 then -1 else 0, server, e\<lparr>en_val := s\<rparr>))
           | NUMERIC \<Rightarrow> if \<not> cj_is_number (gj_json g) j then (-1, server, e)
               else (0, server, e\<lparr>en_val := gj_fixed g (Some j)\<rparr>)
           | BOOLEAN \<Rightarrow> if \<not> cj_is_bool (gj_json g) j then (-1, server, e)
               else (0, server, e\<lparr>en_val_i := (if cj_is_true (gj_json g) j then 1 else 0)\<rparr>)))"

fun load_entries :: "'j gui_json \<Rightarrow> 'j option \<Rightarrow> conf_entry list \<Rightarrow> int \<times> 'j option \<times> conf_entry list" where
  "load_entries g server [] = (0, server, [])"
| "load_entries g server (e # es) =
     (case load_entry g server e of (rv, server, e) \<Rightarrow>
        if rv < 0 then (-1, server, e # es)
        else case load_entries g server es of (rv, server, es) \<Rightarrow> (rv, server, e # es))"

definition add_missing :: "'j gui_json \<Rightarrow> string \<Rightarrow> 'j \<Rightarrow> 'j \<Rightarrow> 'j" where
  "add_missing g k v j = (case cj_get (gj_json g) j k of None \<Rightarrow> gj_put g j k v | Some _ \<Rightarrow> j)"

text \<open>The section \<open>security\<close> with its members; the default of the dynamic list is that of the mode.\<close>

definition complete_security :: "'j gui_json \<Rightarrow> conf_entry list \<Rightarrow> 'j \<Rightarrow> 'j" where
  "complete_security g es j =
     add_missing g ''acl_entries'' (cj_array (gj_json g) [])
     (add_missing g ''dynamic_acl'' (gj_of_bool g (en_def_val_i (es ! CONF_SEC_ACL_MODE) \<noteq> 0))
     (add_missing g ''acl_blacklist'' (gj_of_bool g (en_def_val_i (es ! CONF_SEC_ACL_MODE) \<noteq> 0))
     (add_missing g ''acl_enable'' (gj_of_bool g (en_def_val_i (es ! CONF_SEC_ACL_ENABLE) \<noteq> 0)) j)))"

fun strings_of :: "string option list \<Rightarrow> string list c" where
  "strings_of [] = Inr []"
| "strings_of (p # ps) = cbind (string_of p) (\<lambda>s. cbind (strings_of ps) (\<lambda>ss. Inr (s # ss)))"

text \<open>The part of \<open>load_config_file\<close> on the section \<open>security\<close>.\<close>

definition load_security :: "'j gui_json \<Rightarrow> 'j \<Rightarrow> 'j tab_config \<Rightarrow> (int \<times> 'j \<times> 'j tab_config) c" where
  "load_security g cfg tab =
     (case cj_get (gj_json g) cfg ''security'' of
        None \<Rightarrow> Inr (-1, cfg, tab)
      | Some sec \<Rightarrow>
          let sec = complete_security g (config_entries tab) sec; cfg = gj_put g cfg ''security'' sec;
              tab = tab\<lparr>config_entries := take 8 (config_entries tab) @
                      map (\<lambda>e. e\<lparr>en_json := True\<rparr>) (drop 8 (config_entries tab))\<rparr>;
              is_bool = (\<lambda>k. case cj_get (gj_json g) sec k of None \<Rightarrow> False | Some j \<Rightarrow> cj_is_bool (gj_json g) j)
          in if \<not> is_bool ''acl_enable'' \<or> \<not> is_bool ''acl_blacklist'' then Inr (-1, cfg, tab)
             else case cj_get (gj_json g) sec ''acl_entries'' of
               None \<Rightarrow> Inr (-1, cfg, tab)
             | Some acl \<Rightarrow>
                 if \<not> gj_is_array g acl then Inr (-1, cfg, tab)
                 else cbind (strings_of (map (cj_string (gj_json g)) (cj_items (gj_json g) acl))) (\<lambda>ss.
                   Inr (0, cfg, tab\<lparr>security_acl_entries := ss, security_acl_entries_size_last := length ss\<rparr>)))"

definition load_pool_conf :: "'j gui_json \<Rightarrow> 'j \<Rightarrow> pool_conf c" where
  "load_pool_conf g e =
     cbind (string_of (member_string (gj_json g) e ''name'')) (\<lambda>name.
     cbind (string_of (member_string (gj_json g) e ''start'')) (\<lambda>start.
     cbind (string_of (member_string (gj_json g) e ''end'')) (\<lambda>end1.
     cbind (string_of (member_string (gj_json g) e ''subnet'')) (\<lambda>subnet.
       Inr \<lparr>pc_name = name, pc_start = start, pc_end = end1, pc_subnet = subnet\<rparr>))))"

definition pool_conf_ok :: "pool_conf \<Rightarrow> bool" where
  "pool_conf_ok p \<longleftrightarrow> pc_name p \<noteq> [] \<and> ipv4_address_to_uint32 (pc_start p) \<noteq> 0 \<and>
     ipv4_address_to_uint32 (pc_end p) \<noteq> 0 \<and> ipv4_address_to_uint32 (pc_subnet p) \<noteq> 0"

text \<open>The loop over the pools: the result, the pools and the elements, which get missing options.\<close>

fun load_pool_confs :: "'j gui_json \<Rightarrow> 'j list \<Rightarrow> (int \<times> pool_conf list \<times> 'j list) c" where
  "load_pool_confs g [] = Inr (0, [], [])"
| "load_pool_confs g (e # es) =
     cbind (load_pool_conf g e) (\<lambda>p.
       let e = add_missing g ''options'' (cj_array (gj_json g) []) e in
       if \<not> pool_conf_ok p then Inr (-1, [], e # es)
       else cbind (load_pool_confs g es) (\<lambda>(rv, ps, es). Inr (rv, p # ps, e # es)))"

fun load_pool_options :: "'j gui_json \<Rightarrow> 'j list \<Rightarrow> option_conf list list c" where
  "load_pool_options g [] = Inr []"
| "load_pool_options g (e # es) =
     cbind (load_dhcp_config g (cj_get (gj_json g) e ''options'')) (\<lambda>os.
     cbind (load_pool_options g es) (\<lambda>oss. Inr (os # oss)))"

text \<open>The parts of \<open>load_config_file\<close> on the pools and the options.\<close>

definition load_pools_part :: "'j gui_json \<Rightarrow> 'j \<Rightarrow> 'j tab_config \<Rightarrow> (int \<times> 'j tab_config) c" where
  "load_pools_part g cfg tab =
     cbind (load_pool_confs g (case cj_get (gj_json g) cfg ''pools'' of None \<Rightarrow> [] | Some j \<Rightarrow> cj_items (gj_json g) j))
       (\<lambda>(rv, ps, es).
         let cfg = (case cj_get (gj_json g) cfg ''pools'' of None \<Rightarrow> cfg | Some _ \<Rightarrow> cj_with_array (gj_json g) cfg ''pools'' es);
             tab = tab\<lparr>config_tree := Some cfg, pools_pools := ps, pools_entries := map pc_name ps\<rparr>
         in if rv < 0 then Inr (-1, tab)
            else cbind (load_dhcp_config g (cj_get (gj_json g) cfg ''options'')) (\<lambda>global.
                 cbind (load_pool_options g es) (\<lambda>oss.
                   Inr (0, tab\<lparr>options_list := ''Global'' # pools_entries tab,
                     options_config_entries := options_config_entries tab @ global # oss\<rparr>))))"

definition empty_config :: "'j cjson \<Rightarrow> 'j" where
  "empty_config api = cj_object api [(''server'', cj_object api []), (''pools'', cj_array api []),
     (''options'', cj_array api []), (''security'', cj_object api [])]"

text \<open>The sections of the file in turn.\<close>

definition load_tree :: "'j gui_json \<Rightarrow> 'j \<Rightarrow> 'j tab_config \<Rightarrow> (int \<times> 'j tab_config) c" where
  "load_tree g cfg tab =
     (case load_entries g (cj_get (gj_json g) cfg ''server'') (take 8 (config_entries tab)) of
        (rv, server, es) \<Rightarrow>
          let cfg = (case server of None \<Rightarrow> cfg | Some s \<Rightarrow> gj_put g cfg ''server'' s);
              tab = tab\<lparr>config_tree := Some cfg, config_entries := es @ drop 8 (config_entries tab)\<rparr>
          in if rv < 0 then Inr (-1, tab)
             else cbind (load_security g cfg tab) (\<lambda>(rv, cfg, tab).
               let tab = tab\<lparr>config_tree := Some cfg\<rparr> in
               if rv < 0 then Inr (-1, tab) else load_pools_part g cfg tab))"

definition load_config_file :: "'j gui_env \<Rightarrow> files \<Rightarrow> 'j tab_config \<Rightarrow> (int \<times> 'j tab_config) c" where
  "load_config_file env fs tab =
     (let g = ge_json env in
      case (case read_buffer (ge_can_open env) fs default_config_path (ge_behind env) of
              None \<Rightarrow> Some (empty_config (gj_json g)) | Some buffer \<Rightarrow> cj_parse (gj_json g) buffer) of
        None \<Rightarrow> Inr (-1, tab)
      | Some cfg \<Rightarrow> load_tree g cfg tab)"

text \<open>The constructor; the strings and vectors of a new object are empty.\<close>

definition new_tab :: "'j tab_config" where
  "new_tab = \<lparr>config_tree = None, config_entries = initialize, security_acl_entries = [],
     security_acl_entries_size_last = 0, pools_pools = [], pools_entries = [], pools_pool_selected = 0,
     pools_pool_selected_last = 0, options_list = [], options_list_selected = 0, options_list_selected_last = 0,
     options_config_entries = [], options_loaded_list = [], options_loaded_list_entries = [],
     options_loaded_list_selected = 0, options_loaded_list_selected_last = 0, options_loaded_type = [],
     dhcp_option_ctl_input = [], error_msg = []\<rparr>"

definition TabConfig :: "'j gui_env \<Rightarrow> files \<Rightarrow> 'j tab_config c" where
  "TabConfig env fs =
     cbind (load_config_file env fs new_tab) (\<lambda>(_, tab).
       Inr (tab\<lparr>pools_pool_selected := 0, options_list_selected := 0, options_list_selected_last := -1,
         options_loaded_list_selected := 0, options_loaded_list_selected_last := -1, pools_pool_selected_last := -1,
         security_acl_entries_size_last := 2147483647\<rparr>))"

section \<open>Applying\<close>

text \<open>The length of an option by its type, as it is saved.\<close>

definition sized :: "option_conf \<Rightarrow> option_conf" where
  "sized oc = oc\<lparr>oc_lenght := (case gui_tag_to_type (oc_tag oc) of
     DHCP_OPTION_BIN \<Rightarrow> int (length (oc_value oc))
   | DHCP_OPTION_STRING \<Rightarrow> int (length (oc_value oc))
   | DHCP_OPTION_IP \<Rightarrow> 4
   | DHCP_OPTION_BOOL \<Rightarrow> 1
   | DHCP_OPTION_NUMERIC \<Rightarrow> if oc_lenght oc = 0 then 4 else oc_lenght oc)\<rparr>"

definition option_value_json :: "'j gui_json \<Rightarrow> option_conf \<Rightarrow> 'j c" where
  "option_value_json g oc =
     (case gui_tag_to_type (oc_tag oc) of
        DHCP_OPTION_BOOL \<Rightarrow> cbind (stoi (oc_value oc)) (\<lambda>i. Inr (gj_of_bool g (i \<noteq> 0)))
      | DHCP_OPTION_NUMERIC \<Rightarrow> cbind (stoi (oc_value oc)) (\<lambda>i. Inr (gj_of_int g i))
      | _ \<Rightarrow> Inr (cj_of_string (gj_json g) (oc_value oc)))"

text \<open>
  The loop of \<open>apply_options\<close>: the options with their lengths set and the elements added to the
  array. A bad address ends it; options that are bytes are not added.
\<close>

fun apply_options :: "'j gui_json \<Rightarrow> option_conf list \<Rightarrow> (option_conf list \<times> 'j list) c" where
  "apply_options g [] = Inr ([], [])"
| "apply_options g (oc # ocs) =
     (if gui_tag_to_type (oc_tag oc) = DHCP_OPTION_IP \<and> ipv4_address_to_uint32 (oc_value oc) = 0 then Inr (oc # ocs, [])
      else
        let oc = sized oc in
        cbind (option_value_json g oc) (\<lambda>v.
        cbind (apply_options g ocs) (\<lambda>(ocs, js).
          Inr (oc # ocs,
            if gui_tag_to_type (oc_tag oc) \<noteq> DHCP_OPTION_BIN
            then cj_object (gj_json g) [(''tag'', gj_of_int g (oc_tag oc)), (''lenght'', gj_of_int g (oc_lenght oc)), (''value'', v)] # js
            else js))))"

text \<open>
  The loop over the entries of the section \<open>server\<close>. The variable \<open>entry\<close> is a reference to the
  first entry: assigning the next entry to it overwrites the first one.
\<close>

fun apply_entries :: "'j gui_json \<Rightarrow> nat list \<Rightarrow> conf_entry list \<Rightarrow> 'j option \<Rightarrow> (int \<times> conf_entry list \<times> 'j option) c" where
  "apply_entries g [] es server = Inr (0, es, server)"
| "apply_entries g (i # is) es server =
     cbind (array_get es i) (\<lambda>e.
     let item = member (gj_json g) server (en_json_path e);
         put = (\<lambda>v. map_option (\<lambda>s. gj_put g s (en_json_path e) v) server) in
     cbind (array_set es 0 (e\<lparr>en_json := item \<noteq> None\<rparr>)) (\<lambda>es.
       case item of
         None \<Rightarrow> apply_entries g is es server
       | Some j \<Rightarrow>
           (case en_type e of
              NUMERIC \<Rightarrow> if \<not> cj_is_number (gj_json g) j then Inr (-1, es, server)
                else cbind (stoi (en_val e)) (\<lambda>n. apply_entries g is es (put (gj_of_int g n)))
            | BOOLEAN \<Rightarrow> if \<not> cj_is_bool (gj_json g) j then Inr (-1, es, server)
                else apply_entries g is es (put (gj_of_bool g (en_val_i e \<noteq> 0)))
            | _ \<Rightarrow> if \<not> cj_is_string (gj_json g) j then Inr (-1, es, server)
                else apply_entries g is es (put (cj_of_string (gj_json g) (en_val e))))))"

text \<open>\<open>cJSON_SetBoolValue\<close> does nothing with NULL or an item that is no truth value.\<close>

definition set_bool :: "'j gui_json \<Rightarrow> conf_entry \<Rightarrow> 'j \<Rightarrow> 'j" where
  "set_bool g e j =
     (case cj_get (gj_json g) j (en_json_path e) of
        Some v \<Rightarrow> if en_json e \<and> cj_is_bool (gj_json g) v then gj_put g j (en_json_path e) (gj_of_bool g (en_val_i e \<noteq> 0)) else j
      | None \<Rightarrow> j)"

definition apply_security :: "'j gui_json \<Rightarrow> conf_entry list \<Rightarrow> string list \<Rightarrow> 'j \<Rightarrow> 'j" where
  "apply_security g es acl sec =
     (let sec = set_bool g (es ! CONF_SEC_ACL_MODE) (set_bool g (es ! CONF_SEC_ACL_ENABLE) (set_bool g (es ! CONF_SEC_DYN_ACL_ENABLE) sec))
      in if en_json (es ! CONF_SEC_ACL_ENTRIES)
         then cj_with_array (gj_json g) sec ''acl_entries'' (map (cj_of_string (gj_json g)) acl) else sec)"

definition pool_json :: "'j gui_json \<Rightarrow> pool_conf \<Rightarrow> 'j list \<Rightarrow> 'j" where
  "pool_json g p js = cj_object (gj_json g) [(''name'', cj_of_string (gj_json g) (pc_name p)),
     (''start'', cj_of_string (gj_json g) (pc_start p)), (''end'', cj_of_string (gj_json g) (pc_end p)),
     (''subnet'', cj_of_string (gj_json g) (pc_subnet p)), (''options'', cj_array (gj_json g) js)]"

fun apply_each :: "'j gui_json \<Rightarrow> option_conf list list \<Rightarrow> (option_conf list list \<times> 'j list list) c" where
  "apply_each g [] = Inr ([], [])"
| "apply_each g (os # oss) =
     cbind (apply_options g os) (\<lambda>(os, js). cbind (apply_each g oss) (\<lambda>(oss, jss). Inr (os # oss, js # jss)))"

text \<open>
  The pools and options. A pool without an element of \<open>options_config_entries\<close> is left out; an
  element without a pool still points into a pool that was deleted with the old array.
\<close>

definition apply_pools :: "'j gui_json \<Rightarrow> 'j \<Rightarrow> 'j tab_config \<Rightarrow> ('j \<times> 'j tab_config) c" where
  "apply_pools g cfg tab =
     (case options_config_entries tab of
        [] \<Rightarrow> Inl Out_of_bounds
      | global # oss \<Rightarrow>
          cbind (apply_options g global) (\<lambda>(global, js).
          if length (pools_pools tab) < length oss then Inl Use_after_free
          else cbind (apply_each g oss) (\<lambda>(oss, jss).
            let put = (\<lambda>k xs cfg. case cj_get (gj_json g) cfg k of None \<Rightarrow> cfg | Some _ \<Rightarrow> cj_with_array (gj_json g) cfg k xs)
            in Inr (put ''options'' js (put ''pools'' (map2 (pool_json g) (pools_pools tab) jss) cfg),
                    tab\<lparr>options_config_entries := global # oss\<rparr>))))"

definition write_config :: "'j gui_env \<Rightarrow> files \<Rightarrow> 'j \<Rightarrow> 'j tab_config \<Rightarrow> 'j tab_config \<times> files" where
  "write_config env fs cfg tab =
     (if \<not> ge_can_write env default_config_path then (tab\<lparr>error_msg := ge_strerror env\<rparr>, fs)
      else (tab, fs(default_config_path \<mapsto> cj_print (gj_json (ge_json env)) cfg @ [CHR 0x0A])))"

definition update_acl_entries :: "'j tab_config \<Rightarrow> 'j tab_config" where
  "update_acl_entries tab = tab\<lparr>security_acl_entries_size_last := length (security_acl_entries tab)\<rparr>"

definition delete_empty_entries :: "'j tab_config \<Rightarrow> 'j tab_config" where
  "delete_empty_entries tab = tab\<lparr>security_acl_entries := filter (\<lambda>s. s \<noteq> []) (security_acl_entries tab)\<rparr>"

text \<open>What follows the section \<open>server\<close>: the security settings, the pools and options, and the file.\<close>

definition apply_rest :: "'j gui_env \<Rightarrow> files \<Rightarrow> 'j \<Rightarrow> 'j tab_config \<Rightarrow> (int \<times> 'j tab_config \<times> files) c" where
  "apply_rest env fs cfg tab =
     (let g = ge_json env;
          tab = update_acl_entries (delete_empty_entries tab);
          cfg = (case cj_get (gj_json g) cfg ''security'' of None \<Rightarrow> cfg
                 | Some sec \<Rightarrow> gj_put g cfg ''security'' (apply_security g (config_entries tab) (security_acl_entries tab) sec))
      in cbind (apply_pools g cfg tab) (\<lambda>(cfg, tab).
           case write_config env fs cfg (tab\<lparr>config_tree := Some cfg\<rparr>) of (tab, fs) \<Rightarrow> Inr (0, tab, fs)))"

definition apply_settings :: "'j gui_env \<Rightarrow> files \<Rightarrow> 'j tab_config \<Rightarrow> (int \<times> 'j tab_config \<times> files) c" where
  "apply_settings env fs tab =
     (let g = ge_json env in
      case config_tree tab of None \<Rightarrow> Inl Uninitialised
      | Some cfg \<Rightarrow>
          cbind (apply_entries g [0..<8] (config_entries tab) (cj_get (gj_json g) cfg ''server'')) (\<lambda>(rv, es, server).
            let cfg = (case server of None \<Rightarrow> cfg | Some s \<Rightarrow> gj_put g cfg ''server'' s);
                tab = tab\<lparr>config_tree := Some cfg, config_entries := es\<rparr> in
            if rv < 0 then Inr (-1, tab, fs) else apply_rest env fs cfg tab))"

section \<open>The lists of options and pools\<close>

definition type_name :: "dhcp_option_type \<Rightarrow> string" where
  "type_name ty = (case ty of DHCP_OPTION_STRING \<Rightarrow> ''string'' | DHCP_OPTION_BOOL \<Rightarrow> ''boolean (0/1)''
     | DHCP_OPTION_NUMERIC \<Rightarrow> ''numeric'' | DHCP_OPTION_IP \<Rightarrow> ''IP (example: 192.168.1.1)'' | DHCP_OPTION_BIN \<Rightarrow> ''binary'')"

text \<open>The list of the selected pool, with bounds checked by \<open>at\<close>.\<close>

definition load_option_list :: "'j tab_config \<Rightarrow> 'j tab_config c" where
  "load_option_list tab =
     (let i = options_list_selected tab in
      if \<not> (i \<noteq> options_list_selected_last tab \<and> 0 \<le> i) then Inr tab
      else if \<not> nat i < length (options_config_entries tab) then Inl Uncaught
      else
        let os = options_config_entries tab ! nat i in
        Inr (tab\<lparr>options_loaded_list := os,
          options_loaded_list_entries := (if os = [] then [''No options'']
            else map (\<lambda>oc. to_string (oc_tag oc) @ '' - '' @ DHCPv4_tag_to_full_name (oc_tag oc)) os),
          options_loaded_list_selected_last := -2, options_loaded_list_selected := 0, options_list_selected_last := i\<rparr>))"

text \<open>The selected option; the input for its value refers to the element in \<open>options_config_entries\<close>.\<close>

definition options_load :: "'j tab_config \<Rightarrow> 'j tab_config c" where
  "options_load tab =
     cbind (load_option_list (tab\<lparr>options_list := ''General'' # pools_entries tab\<rparr>)) (\<lambda>tab.
       let k = options_loaded_list_selected tab in
       if \<not> (k \<noteq> options_loaded_list_selected_last tab \<and> 0 \<le> k) then Inr tab
       else if options_loaded_list tab = [] then Inr (tab\<lparr>options_loaded_type := []\<rparr>)
       else cbind (vec_get (options_loaded_list tab) k) (\<lambda>oc.
         let tab = tab\<lparr>options_loaded_type := type_name (gui_tag_to_type (oc_tag oc)), options_loaded_list_selected_last := k\<rparr> in
         if options_list_selected tab < 0 then Inr tab
         else cbind (vec_get (options_config_entries tab) (options_list_selected tab)) (\<lambda>os.
              cbind (vec_get os k) (\<lambda>_. Inr tab))))"

definition replace_options :: "'j tab_config \<Rightarrow> option_conf list \<Rightarrow> 'j tab_config" where
  "replace_options tab os = tab\<lparr>options_config_entries := (options_config_entries tab)[nat (options_list_selected tab) := os]\<rparr>"

definition dhcp_option_ctl :: "bool \<Rightarrow> 'j tab_config \<Rightarrow> 'j tab_config c" where
  "dhcp_option_ctl remove tab =
     (if dhcp_option_ctl_input tab = [] then Inr tab
      else cbind (stoi (dhcp_option_ctl_input tab)) (\<lambda>n.
        if 82 < n then Inr tab
        else
          let found = find_index (\<lambda>oc. oc_tag oc = n) (options_loaded_list tab) in
          if gui_tag_to_type n = DHCP_OPTION_BIN then Inr tab
          else cbind (case found of
              Some i \<Rightarrow>
                if \<not> remove then Inr tab
                else cbind (vec_get (options_config_entries tab) (options_list_selected tab)) (\<lambda>os.
                     cbind (erase_at i os) (\<lambda>os. Inr (replace_options (tab\<lparr>options_loaded_list_selected := 0\<rparr>) os)))
            | None \<Rightarrow>
                if remove then Inr tab
                else cbind (vec_get (options_config_entries tab) (options_list_selected tab)) (\<lambda>os.
                     Inr (replace_options (tab\<lparr>options_loaded_list_selected := int (length os)\<rparr>)
                       (os @ [\<lparr>oc_tag = n, oc_lenght = 0, oc_value = []\<rparr>])))) (\<lambda>tab.
            cbind (options_load (tab\<lparr>options_list_selected_last := -1\<rparr>)) (\<lambda>tab.
            cbind (vec_get (options_config_entries tab) (options_list_selected tab)) (\<lambda>os.
              Inr (tab\<lparr>options_loaded_list := os\<rparr>))))))"

definition pools_refresh :: "'j tab_config \<Rightarrow> 'j tab_config c" where
  "pools_refresh tab =
     (if pools_pool_selected tab = pools_pool_selected_last tab then Inr tab
      else
        let tab = tab\<lparr>pools_entries := map pc_name (pools_pools tab)\<rparr>;
            done = tab\<lparr>pools_pool_selected_last := pools_pool_selected tab\<rparr> in
        if pools_entries tab = [] then Inr done
        else cbind (vec_get (pools_pools tab) (pools_pool_selected tab)) (\<lambda>_. Inr done))"

definition new_pool_conf :: pool_conf where
  "new_pool_conf = \<lparr>pc_name = ''New pool'', pc_start = ''0.0.0.0'', pc_end = ''0.0.0.0'', pc_subnet = ''0.0.0.0''\<rparr>"

definition pool_ctl :: "bool \<Rightarrow> 'j tab_config \<Rightarrow> 'j tab_config c" where
  "pool_ctl remove tab =
     cbind (if remove then
              (if pools_pool_selected tab < 0 then Inl Out_of_bounds
               else cbind (erase_at (nat (pools_pool_selected tab)) (pools_pools tab)) (\<lambda>ps.
                    cbind (erase_at (nat (pools_pool_selected tab) + 1) (options_config_entries tab)) (\<lambda>oss.
                      Inr (tab\<lparr>pools_pools := ps, options_config_entries := oss, pools_pool_selected := 0\<rparr>))))
            else Inr (tab\<lparr>pools_pools := pools_pools tab @ [new_pool_conf],
                   options_config_entries := options_config_entries tab @ [[]],
                   pools_pool_selected := int (length (pools_pools tab))\<rparr>)) (\<lambda>tab.
     cbind (pools_refresh (tab\<lparr>pools_pool_selected_last := -1, options_list_selected := 0, options_list_selected_last := -1\<rparr>))
       options_load)"

definition config_refresh :: "'j tab_config \<Rightarrow> 'j tab_config c" where
  "config_refresh tab = cbind (options_load (update_acl_entries tab)) pools_refresh"

end
