(* ===== verification/Gui_session.thy ===== *)
theory Gui_session
  imports Gui_config
begin

text \<open>
  A session with the configuration tab: what the user can do with the widgets and buttons as a
  step relation, and what holds in every state of a session that began with a loaded file.
\<close>

section \<open>The steps\<close>

text \<open>
  A refresh before drawing, the buttons, typing into the inputs, moving the selections, and
  changes of the files by others.
\<close>

inductive config_step :: "'j gui_env \<Rightarrow> 'j tab_config \<times> files \<Rightarrow> 'j tab_config \<times> files \<Rightarrow> bool" for env where
  Refresh: "config_refresh tab = Inr tab' \<Longrightarrow> config_step env (tab, fs) (tab', fs)"
| Apply: "apply_settings env fs tab = Inr (rv, tab', fs') \<Longrightarrow> config_step env (tab, fs) (tab', fs')"
| Option_button: "dhcp_option_ctl remove tab = Inr tab' \<Longrightarrow> config_step env (tab, fs) (tab', fs)"
| Pool_button: "pool_ctl remove tab = Inr tab' \<Longrightarrow> config_step env (tab, fs) (tab', fs)"
| Edit_pool: "config_step env (tab, fs) (tab\<lparr>pools_pools := (pools_pools tab)[i := p]\<rparr>, fs)"
| Edit_option: "i < length (options_config_entries tab) \<Longrightarrow> k < length (options_config_entries tab ! i) \<Longrightarrow>
    config_step env (tab, fs) (tab\<lparr>options_config_entries := (options_config_entries tab)[i :=
      (options_config_entries tab ! i)[k := (options_config_entries tab ! i ! k)\<lparr>oc_value := v\<rparr>]]\<rparr>, fs)"
| Edit_entry: "i < length (config_entries tab) \<Longrightarrow>
    config_step env (tab, fs) (tab\<lparr>config_entries := (config_entries tab)[i := (config_entries tab ! i)\<lparr>en_val := v, en_val_i := n\<rparr>]\<rparr>, fs)"
| Edit_acl: "config_step env (tab, fs) (tab\<lparr>security_acl_entries := ss\<rparr>, fs)"
| Select: "config_step env (tab, fs) (tab\<lparr>pools_pool_selected := a, options_list_selected := b,
    options_loaded_list_selected := c, dhcp_option_ctl_input := s\<rparr>, fs)"
| Others: "config_step env (tab, fs) (tab, fs')"

inductive_cases config_stepE: "config_step env (tab, fs) (tab', fs')"

definition wf_tab :: "'j tab_config \<Rightarrow> bool" where
  "wf_tab tab \<longleftrightarrow> config_tree tab \<noteq> None \<and> length (config_entries tab) = CONFIG_COUNT \<and>
     length (options_config_entries tab) = length (pools_pools tab) + 1"

section \<open>Loading\<close>

lemma load_pool_confs_length: "load_pool_confs g es = Inr (rv, ps, es') \<Longrightarrow> \<not> rv < 0 \<Longrightarrow> length ps = length es'"
  by (induction es arbitrary: rv ps es') (auto simp: Let_def split: if_splits)

lemma load_pool_options_length: "load_pool_options g es = Inr oss \<Longrightarrow> length oss = length es"
  by (induction es arbitrary: oss) auto

lemma load_pools_lengths:
  "load_pool_confs g es = Inr (rv, ps, es') \<Longrightarrow> \<not> rv < 0 \<Longrightarrow> load_pool_options g es' = Inr oss \<Longrightarrow> length oss = length ps"
  using load_pool_confs_length[of g es rv ps es'] load_pool_options_length[of g es' oss] by simp

lemma load_entries_length: "load_entries g server es = (rv, server', es') \<Longrightarrow> length es' = length es"
  by (induction es arbitrary: server rv server' es') (auto split: prod.splits if_splits)

lemma load_pools_part_keeps:
  assumes "load_pools_part g cfg tab = Inr (rv, tab')" "options_config_entries tab = []" "length (config_entries tab) = CONFIG_COUNT"
  shows "wf_tab tab' \<or> options_config_entries tab' = []"
  using assms unfolding load_pools_part_def Let_def split_def
  by (elim cbindE if_cases)
    (auto simp: wf_tab_def intro: load_pools_lengths)

lemma load_security_keeps:
  assumes "load_security g cfg tab = Inr (rv, cfg', tab')"
  shows "options_config_entries tab' = options_config_entries tab \<and> length (config_entries tab') = length (config_entries tab)"
  using assms by (auto simp: load_security_def Let_def split: option.splits if_splits)

lemma load_tree_keeps:
  assumes "load_tree g cfg tab = Inr (rv, tab')" "options_config_entries tab = []" "length (config_entries tab) = CONFIG_COUNT"
  shows "wf_tab tab' \<or> options_config_entries tab' = []"
proof -
  obtain rv1 server es where es: "load_entries g (cj_get (gj_json g) cfg ''server'') (take 8 (config_entries tab)) = (rv1, server, es)"
    by (metis prod_cases3)
  with assms(3) have len: "length es = 8" by (auto dest: load_entries_length)
  define cfg1 where "cfg1 = (case server of None \<Rightarrow> cfg | Some s \<Rightarrow> gj_put g cfg ''server'' s)"
  define tab1 where "tab1 = tab\<lparr>config_tree := Some cfg1, config_entries := es @ drop 8 (config_entries tab)\<rparr>"
  have tab1: "options_config_entries tab1 = []" "length (config_entries tab1) = CONFIG_COUNT"
    using assms(2,3) len by (simp_all add: tab1_def)
  have "(if rv1 < 0 then Inr (-1, tab1) else cbind (load_security g cfg1 tab1) (\<lambda>(rv, cfg, tab).
      if rv < 0 then Inr (-1, tab\<lparr>config_tree := Some cfg\<rparr>) else load_pools_part g cfg (tab\<lparr>config_tree := Some cfg\<rparr>))) = Inr (rv, tab')"
    using assms(1)[unfolded load_tree_def Let_def es prod.case] by (simp only: cfg1_def tab1_def)
  then consider "tab' = tab1" | rv2 cfg2 tab2 where "load_security g cfg1 tab1 = Inr (rv2, cfg2, tab2)"
      "tab' = tab2\<lparr>config_tree := Some cfg2\<rparr> \<or> load_pools_part g cfg2 (tab2\<lparr>config_tree := Some cfg2\<rparr>) = Inr (rv, tab')"
    by (auto split: if_splits)
  then show ?thesis
  proof cases
    case 1
    then show ?thesis using tab1 by simp
  next
    case 2
    then have "options_config_entries tab2 = []" "length (config_entries tab2) = CONFIG_COUNT"
      using load_security_keeps[OF 2(1)] tab1 by simp_all
    with 2(2) load_pools_part_keeps[of g cfg2 "tab2\<lparr>config_tree := Some cfg2\<rparr>" rv tab'] show ?thesis by auto
  qed
qed

lemma new_tab_simps [simp]: "config_entries new_tab = initialize" "options_config_entries new_tab = []" "length initialize = CONFIG_COUNT"
  by (simp_all add: new_tab_def initialize_def)

text \<open>The constructor keeps what was loaded and resets the selections.\<close>

lemma TabConfig_load:
  assumes "load_config_file env fs new_tab = Inr (rv, tab')"
  obtains tab where "TabConfig env fs = Inr tab" "config_tree tab = config_tree tab'" "config_entries tab = config_entries tab'"
    "options_config_entries tab = options_config_entries tab'" "pools_pools tab = pools_pools tab'"
    "security_acl_entries tab = security_acl_entries tab'"
  using assms by (simp add: TabConfig_def)

lemma TabConfig_loaded:
  assumes "TabConfig env fs = Inr tab" "options_config_entries tab \<noteq> []"
  shows "wf_tab tab"
proof -
  obtain rv tab' where load: "load_config_file env fs new_tab = Inr (rv, tab')" using assms(1) by (auto simp: TabConfig_def)
  then have tab: "config_tree tab = config_tree tab'" "config_entries tab = config_entries tab'"
      "options_config_entries tab = options_config_entries tab'" "pools_pools tab = pools_pools tab'"
    using assms(1) by (auto elim!: TabConfig_load)
  from load have "tab' = new_tab \<or> (\<exists>cfg. load_tree (ge_json env) cfg new_tab = Inr (rv, tab'))"
    by (auto simp: load_config_file_def Let_def split: option.splits)
  then have "wf_tab tab' \<or> options_config_entries tab' = []"
    using load_tree_keeps[of "ge_json env" _ new_tab rv tab'] by auto
  with assms(2) tab show ?thesis by (simp add: wf_tab_def)
qed

section \<open>Steps\<close>

lemma apply_entries_step:
  assumes "apply_entries g (i # is) es server = Inr (rv, es', server')"
  obtains e server1 where "es' = es[0 := e] \<or> apply_entries g is (es[0 := e]) server1 = Inr (rv, es', server')"
proof -
  let ?e = "(es ! i)\<lparr>en_json := member (gj_json g) server (en_json_path (es ! i)) \<noteq> None\<rparr>"
  from assms have "i < length es" "es \<noteq> []" by (auto simp: array_get_def split: if_splits)
  with assms show thesis
    by (cases "member (gj_json g) server (en_json_path (es ! i))"; cases "en_type (es ! i)")
      (auto simp: Let_def split: if_splits intro: that[of ?e])
qed

lemma apply_entries_length: "apply_entries g is es server = Inr (rv, es', server') \<Longrightarrow> length es' = length es"
  by (induction "is" arbitrary: es server) (auto elim!: apply_entries_step simp del: apply_entries.simps(2))

lemma apply_each_length: "apply_each g oss = Inr (oss', jss) \<Longrightarrow> length oss' = length oss \<and> length jss = length oss"
  by (induction oss arbitrary: oss' jss) auto

lemma apply_pools_keeps:
  assumes "apply_pools g cfg tab = Inr (cfg', tab')"
  shows "length (options_config_entries tab') = length (options_config_entries tab) \<and> pools_pools tab' = pools_pools tab \<and>
     config_entries tab' = config_entries tab"
  using assms by (auto simp: apply_pools_def Let_def split: list.splits if_splits dest: apply_each_length)

lemma options_load_keeps:
  assumes "options_load tab = Inr tab'"
  shows "options_config_entries tab' = options_config_entries tab \<and> pools_pools tab' = pools_pools tab \<and>
     config_entries tab' = config_entries tab \<and> config_tree tab' = config_tree tab \<and>
     options_list_selected tab' = options_list_selected tab"
  using assms by (auto simp: options_load_def load_option_list_def Let_def split: if_splits)

lemma pools_refresh_keeps:
  assumes "pools_refresh tab = Inr tab'"
  shows "options_config_entries tab' = options_config_entries tab \<and> pools_pools tab' = pools_pools tab \<and>
     config_entries tab' = config_entries tab \<and> config_tree tab' = config_tree tab"
  using assms by (auto simp: pools_refresh_def Let_def split: if_splits)

lemma erase_at_length: "erase_at i xs = Inr ys \<Longrightarrow> length xs = length ys + 1"
  by (auto simp: erase_at_def split: if_splits)

lemma dhcp_option_ctl_keeps:
  assumes "dhcp_option_ctl remove tab = Inr tab'" "wf_tab tab"
  shows "wf_tab tab'"
  using assms(1) unfolding dhcp_option_ctl_def Let_def
  by (elim cbindE if_cases)
    (use assms(2) in \<open>auto simp: wf_tab_def replace_options_def split: option.splits if_splits dest!: options_load_keeps\<close>)

lemma pool_ctl_keeps:
  assumes "pool_ctl remove tab = Inr tab'" "wf_tab tab"
  shows "wf_tab tab'"
  using assms(1) unfolding pool_ctl_def
  by (elim cbindE if_cases)
    (use assms(2) in \<open>auto simp: wf_tab_def dest!: options_load_keeps pools_refresh_keeps erase_at_length\<close>)

lemma apply_rest_keeps:
  assumes "apply_rest env fs cfg tab = Inr (rv, tab', fs')" "wf_tab tab"
  shows "wf_tab tab'"
proof -
  let ?tab = "update_acl_entries (delete_empty_entries tab)"
  have "length (options_config_entries ?tab) = length (pools_pools ?tab) + 1" "length (config_entries ?tab) = 12"
    using assms(2) by (simp_all add: wf_tab_def update_acl_entries_def delete_empty_entries_def)
  moreover obtain cfg1 cfg2 tab2 where "apply_pools (ge_json env) cfg1 ?tab = Inr (cfg2, tab2)"
    "write_config env fs cfg2 (tab2\<lparr>config_tree := Some cfg2\<rparr>) = (tab', fs')"
    using assms(1) unfolding apply_rest_def Let_def by (auto split: prod.splits)
  ultimately show ?thesis
    using apply_pools_keeps[of "ge_json env" cfg1 ?tab cfg2 tab2]
    by (auto simp: wf_tab_def write_config_def split: if_splits)
qed

lemma apply_settings_keeps:
  assumes "apply_settings env fs tab = Inr (rv, tab', fs')" "wf_tab tab"
  shows "wf_tab tab'"
proof -
  obtain cfg where cfg: "config_tree tab = Some cfg" using assms(2) by (auto simp: wf_tab_def)
  from assms(1) cfg obtain rv1 es server cfg1 where es:
    "apply_entries (ge_json env) [0..<8] (config_entries tab) (cj_get (gj_json (ge_json env)) cfg ''server'') = Inr (rv1, es, server)"
    "tab' = tab\<lparr>config_tree := Some cfg1, config_entries := es\<rparr> \<or>
     apply_rest env fs cfg1 (tab\<lparr>config_tree := Some cfg1, config_entries := es\<rparr>) = Inr (rv, tab', fs')"
    unfolding apply_settings_def Let_def by (auto split: if_splits simp del: apply_entries.simps)
  moreover have "wf_tab (tab\<lparr>config_tree := Some cfg1, config_entries := es\<rparr>)"
    using assms(2) apply_entries_length[OF es(1)] by (simp add: wf_tab_def)
  ultimately show ?thesis by (auto intro: apply_rest_keeps)
qed

lemma config_refresh_keeps:
  assumes "config_refresh tab = Inr tab'" "wf_tab tab"
  shows "wf_tab tab'"
  using assms by (auto simp: config_refresh_def wf_tab_def update_acl_entries_def dest!: options_load_keeps pools_refresh_keeps)

lemma wf_tab_edits [simp]:
  "wf_tab (tab\<lparr>pools_pools := (pools_pools tab)[i := p]\<rparr>) = wf_tab tab"
  "wf_tab (tab\<lparr>options_config_entries := (options_config_entries tab)[i := os]\<rparr>) = wf_tab tab"
  "wf_tab (tab\<lparr>config_entries := (config_entries tab)[i := e]\<rparr>) = wf_tab tab"
  "wf_tab (tab\<lparr>security_acl_entries := ss\<rparr>) = wf_tab tab"
  "wf_tab (tab\<lparr>pools_pool_selected := a, options_list_selected := b, options_loaded_list_selected := c,
     dhcp_option_ctl_input := s\<rparr>) = wf_tab tab"
  by (simp_all add: wf_tab_def)

lemma config_step_wf: "config_step env (tab, fs) (tab', fs') \<Longrightarrow> wf_tab tab \<Longrightarrow> wf_tab tab'"
  by (erule config_stepE)
    (auto intro: config_refresh_keeps dhcp_option_ctl_keeps pool_ctl_keeps apply_settings_keeps)

interpretation config_tab: ui_session "config_step env" "\<lambda>s. wf_tab (fst s)" for env
proof
  fix s s' :: "'a tab_config \<times> files"
  assume "config_step env s s'" "wf_tab (fst s)"
  then show "wf_tab (fst s')" using config_step_wf[of env "fst s" "snd s" "fst s'" "snd s'"] by simp
qed

section \<open>Faults of Apply\<close>

lemma stoi_fault: "stoi s = Inl e \<Longrightarrow> e = Uncaught"
  by (auto simp: stoi_def Let_def split: prod.splits if_splits)

lemma apply_options_fault: "apply_options g os = Inl e \<Longrightarrow> e = Uncaught"
  by (induction os) (auto simp: Let_def cbind_eq_Inl option_value_json_def split: if_splits dhcp_option_type.splits dest: stoi_fault)

lemma apply_each_fault: "apply_each g oss = Inl e \<Longrightarrow> e = Uncaught"
  by (induction oss) (auto simp: cbind_eq_Inl dest: apply_options_fault)

lemma apply_entries_fault:
  "apply_entries g is es server = Inl e \<Longrightarrow> \<forall>i \<in> set is. i < length es \<Longrightarrow> es \<noteq> [] \<Longrightarrow> e = Uncaught"
proof (induction "is" arbitrary: es server)
  case (Cons i "is")
  then have "i < length es" "es \<noteq> []" by auto
  with Cons.prems(1,2) show ?case
    by (cases "member (gj_json g) server (en_json_path (es ! i))"; cases "en_type (es ! i)")
      (auto simp: Let_def cbind_eq_Inl split: if_splits dest: stoi_fault intro: Cons.IH[of "es[0 := _]"])
qed simp

lemma apply_settings_fault:
  assumes "wf_tab tab" "apply_settings env fs tab = Inl e"
  shows "e = Uncaught"
proof -
  obtain cfg where cfg: "config_tree tab = Some cfg" using assms(1) by (auto simp: wf_tab_def)
  have ne: "config_entries tab \<noteq> []" "\<forall>i \<in> set [0..<8]. i < length (config_entries tab)"
    using assms(1) by (auto simp: wf_tab_def)
  have rest: "e = Uncaught" if "apply_rest env fs cfg' (tab\<lparr>config_tree := t, config_entries := es\<rparr>) = Inl e" for cfg' t es
    using that assms(1)
    by (auto simp: apply_rest_def apply_pools_def Let_def cbind_eq_Inl wf_tab_def update_acl_entries_def delete_empty_entries_def
        split: list.splits if_splits prod.splits dest: apply_options_fault apply_each_fault)
  from assms(2) cfg show ?thesis
    unfolding apply_settings_def Let_def
    by (auto simp: cbind_eq_Inl split: if_splits simp del: apply_entries.simps upt.simps
        dest: apply_entries_fault[OF _ ne(2,1)] rest)
qed

end
