(* ===== verification/Gui_apply.thy ===== *)
theory Gui_apply
  imports Gui_session
begin

text \<open>
  What the button "Apply" of the configuration tab writes, and what the server makes of it when
  it starts with this file (\<open>Config\<close>): the two programs meet in the file only.
\<close>

section \<open>Options\<close>

text \<open>An option whose value suits its type.\<close>

definition good_option :: "option_conf \<Rightarrow> bool" where
  "good_option oc \<longleftrightarrow> 0 < oc_tag oc \<and> oc_tag oc < 256 \<and>
     (case gui_tag_to_type (oc_tag oc) of
        DHCP_OPTION_IP \<Rightarrow> ipv4_address_to_uint32 (oc_value oc) \<noteq> 0
      | DHCP_OPTION_STRING \<Rightarrow> oc_value oc \<noteq> [] \<and> length (oc_value oc) < 256
      | DHCP_OPTION_BOOL \<Rightarrow> oc_value oc = ''0'' \<or> oc_value oc = ''1''
      | DHCP_OPTION_NUMERIC \<Rightarrow> 0 \<le> oc_lenght oc \<and> oc_lenght oc \<le> 4 \<and>
          (case stoi (oc_value oc) of Inr n \<Rightarrow> 0 \<le> n | Inl _ \<Rightarrow> False)
      | DHCP_OPTION_BIN \<Rightarrow> False)"

text \<open>The option of the server that it stands for.\<close>

definition text_number :: "string \<Rightarrow> int" where
  "text_number s = (case stoi s of Inr n \<Rightarrow> n | Inl _ \<Rightarrow> 0)"

definition option_bytes :: "option_conf \<Rightarrow> u8 list" where
  "option_bytes oc = (case gui_tag_to_type (oc_tag oc) of
     DHCP_OPTION_IP \<Rightarrow> le_bytes (ipv4_address_to_uint32 (oc_value oc))
   | DHCP_OPTION_BOOL \<Rightarrow> [if oc_value oc = ''1'' then 1 else 0]
   | DHCP_OPTION_NUMERIC \<Rightarrow> le_bytes (word_of_int (text_number (oc_value oc)))
   | _ \<Rightarrow> string_bytes (oc_value oc))"

definition served_option :: "option_conf \<Rightarrow> dhcp_option" where
  "served_option oc = (let n = nat (oc_lenght (sized oc)) in
     \<lparr>opt_type = gui_tag_to_type (oc_tag oc), opt_tag = of_int (oc_tag oc), opt_lenght = of_nat n,
      opt_value = take n (option_bytes oc) @ zeros (union_size - n)\<rparr>)"

definition option_json :: "'j gui_json \<Rightarrow> option_conf \<Rightarrow> 'j" where
  "option_json g oc = cj_object (gj_json g) [(''tag'', gj_of_int g (oc_tag oc)), (''lenght'', gj_of_int g (oc_lenght (sized oc))),
     (''value'', case option_value_json g (sized oc) of Inr v \<Rightarrow> v | Inl _ \<Rightarrow> gj_of_int g 0)]"

lemma stoi_range: "stoi s = Inr n \<Longrightarrow> - (2 ^ 31) \<le> n \<and> n < 2 ^ 31"
  by (auto simp: stoi_def Let_def split: prod.splits if_splits)

lemma stoi_bit: "stoi ''0'' = Inr 0" "stoi ''1'' = Inr 1"
  using stoi_to_string[of 0] stoi_to_string[of 1] by (simp_all add: to_string_def dec.simps digit_char_def char_of_def bit_0)

lemma sized_simps [simp]: "oc_tag (sized oc) = oc_tag oc" "oc_value (sized oc) = oc_value oc"
  by (simp_all add: sized_def)

lemma good_option_cases:
  assumes "good_option oc"
  obtains (IP) "gui_tag_to_type (oc_tag oc) = DHCP_OPTION_IP" "ipv4_address_to_uint32 (oc_value oc) \<noteq> 0" "oc_lenght (sized oc) = 4"
  | (STRING) "gui_tag_to_type (oc_tag oc) = DHCP_OPTION_STRING" "oc_value oc \<noteq> []" "length (oc_value oc) < 256"
      "oc_lenght (sized oc) = int (length (oc_value oc))"
  | (BOOL) "gui_tag_to_type (oc_tag oc) = DHCP_OPTION_BOOL" "oc_value oc = ''0'' \<or> oc_value oc = ''1''" "oc_lenght (sized oc) = 1"
  | (NUMERIC) n where "gui_tag_to_type (oc_tag oc) = DHCP_OPTION_NUMERIC" "stoi (oc_value oc) = Inr n" "0 \<le> n" "n < 2 ^ 31"
      "0 < oc_lenght (sized oc)" "oc_lenght (sized oc) \<le> 4"
  using assms by (cases "gui_tag_to_type (oc_tag oc)") (auto simp: good_option_def sized_def split: sum.splits dest: stoi_range)

lemma good_option_value:
  assumes "good_option oc"
  obtains v where "option_value_json g (sized oc) = Inr v"
  using assms
proof (cases rule: good_option_cases)
  case BOOL
  then show ?thesis using that by (auto simp: option_value_json_def stoi_bit)
qed (auto simp: option_value_json_def intro: that)

lemma apply_options_good:
  "\<forall>oc \<in> set ocs. good_option oc \<Longrightarrow> apply_options g ocs = Inr (map sized ocs, map (option_json g) ocs)"
proof (induction ocs)
  case (Cons oc ocs)
  then have good: "good_option oc" by simp
  then have "\<not> (gui_tag_to_type (oc_tag oc) = DHCP_OPTION_IP \<and> ipv4_address_to_uint32 (oc_value oc) = 0)"
    "gui_tag_to_type (oc_tag oc) \<noteq> DHCP_OPTION_BIN"
    by (auto simp: good_option_def)
  moreover obtain v where "option_value_json g (sized oc) = Inr v" using good by (rule good_option_value)
  ultimately show ?case using Cons by (simp add: Let_def option_json_def)
qed simp

lemma apply_each_good:
  "\<forall>os \<in> set oss. \<forall>oc \<in> set os. good_option oc \<Longrightarrow>
   apply_each g oss = Inr (map (map sized) oss, map (map (option_json g)) oss)"
  by (induction oss) (simp_all add: apply_options_good)

lemma new_values_eq:
  "0 \<le> n \<Longrightarrow> nat n \<le> length bytes \<Longrightarrow> nat n \<le> union_size \<Longrightarrow>
   dhcp_option_new_values tag n bytes = Inr \<lparr>opt_type = dhcp_option_tag_to_type tag, opt_tag = of_int tag, opt_lenght = of_int n,
     opt_value = take (nat n) bytes @ zeros (union_size - nat n)\<rparr>"
  by (simp add: dhcp_option_new_values_def memcpy_def dhcp_option_new_def zeros_def)

lemma u8_of_int: "0 \<le> i \<Longrightarrow> i < 256 \<Longrightarrow> uint (of_int i :: u8) = i"
  by (simp add: uint_word_of_int_eq take_bit_int_eq_self)

lemma option_of_json_served:
  assumes "gui_json_ok g" "good_option oc" "option_value_json g (sized oc) = Inr v"
  shows "option_of_json (gj_json g) (of_int (oc_tag oc)) (of_int (oc_lenght (sized oc))) v = Inr (Some (served_option oc))"
proof -
  note laws = json_laws(2,3)[OF assms(1)]
  have tag: "uint (of_int (oc_tag oc) :: u8) = oc_tag oc" using assms(2) by (auto simp: good_option_def intro!: u8_of_int)
  have ty: "dhcp_option_tag_to_type (oc_tag oc) = gui_tag_to_type (oc_tag oc)"
    using assms(2) by (auto simp: gui_types good_option_def)
  show ?thesis
    using assms(2)
  proof (cases rule: good_option_cases)
    case IP
    then have v: "v = cj_of_string (gj_json g) (oc_value oc)" using assms(3) by (simp add: option_value_json_def)
    then have "cj_is_string (gj_json g) v" "cj_string (gj_json g) v = Some (oc_value oc)"
      using laws by (simp_all add: json_values_def cjson_prints_def)
    with IP tag ty u8_of_int[of 4] show ?thesis
      by (simp add: option_of_json_def Let_def new_values_eq served_option_def option_bytes_def union_size_def)
  next
    case STRING
    then have v: "v = cj_of_string (gj_json g) (oc_value oc)" using assms(3) by (simp add: option_value_json_def)
    then have "cj_is_string (gj_json g) v" "cj_string (gj_json g) v = Some (oc_value oc)"
      using laws by (simp_all add: json_values_def cjson_prints_def)
    with STRING tag ty u8_of_int[of "int (length (oc_value oc))"] show ?thesis
      by (simp add: option_of_json_def Let_def new_values_eq served_option_def option_bytes_def union_size_def string_bytes_def)
  next
    case BOOL
    then have "v = gj_of_bool g (oc_value oc = ''1'')" using assms(3) by (auto simp: option_value_json_def stoi_bit)
    then have "cj_is_bool (gj_json g) v" "cj_is_true (gj_json g) v \<longleftrightarrow> oc_value oc = ''1''"
      using laws by (simp_all add: json_values_def)
    with BOOL tag ty u8_of_int[of 1] show ?thesis
      by (simp add: option_of_json_def Let_def new_values_eq served_option_def option_bytes_def union_size_def)
  next
    case (NUMERIC n)
    then have "v = gj_of_int g n" using assms(3) by (simp add: option_value_json_def)
    then have "cj_is_number (gj_json g) v" "cj_u32 (gj_json g) (Some v) = word_of_int n"
      using laws NUMERIC by (simp_all add: json_values_def)
    with NUMERIC tag ty u8_of_int[of "oc_lenght (sized oc)"] show ?thesis
      by (simp add: option_of_json_def Let_def new_values_eq served_option_def option_bytes_def union_size_def text_number_def)
  qed
qed

lemma good_option_range:
  assumes "good_option oc"
  shows "0 < oc_lenght (sized oc)" "oc_lenght (sized oc) < 256"
  using assms by (cases rule: good_option_cases; simp)+

lemma option_json_get:
  assumes "gui_json_ok g" "option_value_json g (sized oc) = Inr v"
  shows "cj_get (gj_json g) (option_json g oc) ''tag'' = Some (gj_of_int g (oc_tag oc))"
    "cj_get (gj_json g) (option_json g oc) ''lenght'' = Some (gj_of_int g (oc_lenght (sized oc)))"
    "cj_get (gj_json g) (option_json g oc) ''value'' = Some v"
  using json_laws(1)[OF assms(1)] assms(2) by (simp_all add: option_json_def cjson_ok_def lower_case_def)

text \<open>The options of a list, added one after the other.\<close>

definition add_served :: "option_conf list \<Rightarrow> dhcp_option list \<Rightarrow> dhcp_option list" where
  "add_served ocs dest = fold (\<lambda>oc dest. snd (dhcp_option_add dest (Some (served_option oc)))) ocs dest"

lemma load_options_good:
  assumes ok: "gui_json_ok g"
  shows "\<forall>oc \<in> set ocs. good_option oc \<Longrightarrow>
    load_options_loop (gj_json g) (map (option_json g) ocs) dest = Inr (0, add_served ocs dest)"
proof (induction ocs arbitrary: dest)
  case (Cons oc ocs)
  then have good: "good_option oc" by simp
  obtain v where v: "option_value_json g (sized oc) = Inr v" using good by (rule good_option_value)
  note len = good_option_range[OF good]
  have tag: "0 < oc_tag oc" "oc_tag oc < 256" using good by (simp_all add: good_option_def)
  note get = option_json_get[OF ok v]
  have u8: "cj_u8 (gj_json g) (Some (gj_of_int g i)) = of_int i" if "0 < i" "i < 256" for i
    using json_laws(3)[OF ok] that by (simp add: json_values_def)
  have nz: "(of_int i :: u8) \<noteq> 0" if "0 < i" "i < 256" for i
    using u8_of_int[of i] that by (metis less_irrefl order_less_imp_le unsigned_0)
  show ?case
    using Cons get u8[OF tag] u8[OF len] nz[OF tag] nz[OF len] option_of_json_served[OF ok good v]
    by (simp add: Let_def add_served_def)
qed (simp add: add_served_def)

section \<open>Pools\<close>

text \<open>The pool of the server that a pool of the tab and its options stand for, added to an allocator.\<close>

definition served_pool :: "pool_conf \<times> option_conf list \<Rightarrow> allocator \<Rightarrow> allocator" where
  "served_pool = (\<lambda>(p, ocs) a.
     case address_pool_new (Some (pc_name p)) (ipv4_address_to_uint32 (pc_start p)) (ipv4_address_to_uint32 (pc_end p))
            (ipv4_address_to_uint32 (pc_subnet p)) of
       None \<Rightarrow> a
     | Some np \<Rightarrow> snd (allocator_add_pool a (Some (np\<lparr>dhcp_option_override := add_served ocs (dhcp_option_override np)\<rparr>))))"

lemma pool_json_get:
  assumes "gui_json_ok g"
  shows "cj_get (gj_json g) (pool_json g p js) ''name'' = Some (cj_of_string (gj_json g) (pc_name p))"
    "cj_get (gj_json g) (pool_json g p js) ''start'' = Some (cj_of_string (gj_json g) (pc_start p))"
    "cj_get (gj_json g) (pool_json g p js) ''end'' = Some (cj_of_string (gj_json g) (pc_end p))"
    "cj_get (gj_json g) (pool_json g p js) ''subnet'' = Some (cj_of_string (gj_json g) (pc_subnet p))"
    "cj_get (gj_json g) (pool_json g p js) ''options'' = Some (cj_array (gj_json g) js)"
  using json_laws(1)[OF assms] by (simp_all add: pool_json_def cjson_ok_def lower_case_def)

lemma load_pool_served:
  assumes "gui_json_ok g" "pool_conf_ok p" "\<forall>oc \<in> set ocs. good_option oc"
  obtains vars' where "load_pool (gj_json g) (pool_json g p (map (option_json g) ocs)) vars a = Inr (vars', served_pool (p, ocs) a)"
proof -
  note get = pool_json_get[OF assms(1), of p "map (option_json g) ocs"]
  have laws: "cj_string (gj_json g) (cj_of_string (gj_json g) t) = Some t" "cj_items (gj_json g) (cj_array (gj_json g) js) = js" for t js
    using json_laws(2)[OF assms(1)] by (simp_all add: cjson_prints_def)
  have "config_load_dhcp_options (gj_json g) dest (Some (cj_array (gj_json g) (map (option_json g) ocs))) = Inr (0, add_served ocs dest)" for dest
    using load_options_good[OF assms(1,3)] by (simp add: config_load_dhcp_options_def laws)
  then have add: "add_loaded_pool (gj_json g) (pool_json g p (map (option_json g) ocs))
      (address_pool_new (Some (pc_name p)) (ipv4_address_to_uint32 (pc_start p)) (ipv4_address_to_uint32 (pc_end p))
        (ipv4_address_to_uint32 (pc_subnet p))) a = Inr (served_pool (p, ocs) a)"
    by (simp add: add_loaded_pool_def served_pool_def get split: option.splits)
  obtain name pstart pend pmask where vars: "vars = (name, pstart, pend, pmask)" by (metis prod_cases4)
  show thesis
    by (rule that[of "(Some (pc_name p), ipv4_address_to_uint32 (pc_start p), ipv4_address_to_uint32 (pc_end p),
        ipv4_address_to_uint32 (pc_subnet p))"])
      (use assms(2) add in \<open>simp add: load_pool_def vars get laws pool_attribute_def pool_conf_ok_def Let_def\<close>)
qed

lemma load_pools_served:
  assumes "gui_json_ok g"
  shows "length ps = length oss \<Longrightarrow> \<forall>p \<in> set ps. pool_conf_ok p \<Longrightarrow> \<forall>os \<in> set oss. \<forall>oc \<in> set os. good_option oc \<Longrightarrow>
    load_pools_loop (gj_json g) (map2 (pool_json g) ps (map (map (option_json g)) oss)) vars a = Inr (fold served_pool (zip ps oss) a)"
proof (induction ps oss arbitrary: vars a rule: list_induct2)
  case (Cons p ps os oss)
  then have "pool_conf_ok p" "\<forall>oc \<in> set os. good_option oc" by simp_all
  then obtain vars' where "load_pool (gj_json g) (pool_json g p (map (option_json g) os)) vars a = Inr (vars', served_pool (p, os) a)"
    using assms by (elim load_pool_served)
  with Cons show ?case by simp
qed simp

section \<open>Settings\<close>

text \<open>An item that the code can set from an entry, and the value it gets.\<close>

definition typed_item :: "'j gui_json \<Rightarrow> conf_entry \<Rightarrow> 'j \<Rightarrow> bool" where
  "typed_item g e j = (case en_type e of NUMERIC \<Rightarrow> cj_is_number (gj_json g) j | BOOLEAN \<Rightarrow> cj_is_bool (gj_json g) j
     | _ \<Rightarrow> cj_is_string (gj_json g) j)"

definition entry_value :: "'j gui_json \<Rightarrow> conf_entry \<Rightarrow> 'j" where
  "entry_value g e = (case en_type e of NUMERIC \<Rightarrow> gj_of_int g (text_number (en_val e))
     | BOOLEAN \<Rightarrow> gj_of_bool g (en_val_i e \<noteq> 0) | _ \<Rightarrow> cj_of_string (gj_json g) (en_val e))"

definition good_entry :: "conf_entry \<Rightarrow> bool" where
  "good_entry e \<longleftrightarrow> lower_case (en_json_path e) \<and> (en_type e = NUMERIC \<longrightarrow> (case stoi (en_val e) of Inl _ \<Rightarrow> False | Inr _ \<Rightarrow> True))"

lemma apply_entry_eq:
  assumes "i < length es" "cj_get (gj_json g) s (en_json_path (es ! i)) = Some j" "typed_item g (es ! i) j" "good_entry (es ! i)"
  shows "apply_entries g (i # is) es (Some s) =
    apply_entries g is (es[0 := (es ! i)\<lparr>en_json := True\<rparr>]) (Some (gj_put g s (en_json_path (es ! i)) (entry_value g (es ! i))))"
proof -
  have "0 < length es" using assms(1) by auto
  with assms show ?thesis
    by (cases "en_type (es ! i)")
      (auto simp: member_def typed_item_def entry_value_def good_entry_def text_number_def Let_def split: sum.splits)
qed

text \<open>An entry that the loop will set, also after another one was set.\<close>

definition settable :: "'j gui_json \<Rightarrow> 'j \<Rightarrow> conf_entry list \<Rightarrow> nat \<Rightarrow> bool" where
  "settable g s es i \<longleftrightarrow> i < length es \<and> good_entry (es ! i) \<and>
     (\<exists>j. cj_get (gj_json g) s (en_json_path (es ! i)) = Some j \<and> typed_item g (es ! i) j)"

lemma settable_after:
  assumes "gui_json_ok g" "gj_is_object g s" "settable g s es i" "settable g s es k" "0 < k" "en_json_path (es ! k) \<noteq> en_json_path (es ! i)"
  shows "settable g (gj_put g s (en_json_path (es ! i)) v) (es[0 := e]) k"
proof -
  have "lower_case (en_json_path (es ! i))" "lower_case (en_json_path (es ! k))" using assms(3,4) by (auto simp: settable_def good_entry_def)
  then show ?thesis using assms(4-6) json_put(2)[OF assms(1,2)] by (auto simp: settable_def)
qed

lemma find_by_key: "distinct (map f xs) \<Longrightarrow> x \<in> set xs \<Longrightarrow> List.find (\<lambda>y. f y = f x) xs = Some x"
  by (induction xs) (auto simp: image_iff)

text \<open>The member of a section after the loop: the value of the entry with its name, or as before.\<close>

definition applied :: "'j gui_json \<Rightarrow> nat list \<Rightarrow> conf_entry list \<Rightarrow> 'j \<Rightarrow> string \<Rightarrow> 'j option" where
  "applied g is es s k = (case List.find (\<lambda>i. en_json_path (es ! i) = k) is of None \<Rightarrow> cj_get (gj_json g) s k
     | Some i \<Rightarrow> Some (entry_value g (es ! i)))"

lemma applied_Cons:
  assumes "gui_json_ok g" "gj_is_object g s" "lower_case (en_json_path (es ! i))" "lower_case k"
    and "\<forall>i \<in> set is. 0 < i" "en_json_path (es ! i) \<notin> (\<lambda>i. en_json_path (es ! i)) ` set is"
  shows "applied g is (es[0 := e]) (gj_put g s (en_json_path (es ! i)) (entry_value g (es ! i))) k = applied g (i # is) es s k"
proof -
  have nth: "es[0 := e] ! m = es ! m" if "m \<in> set is" for m using assms(5) that by simp
  then have "List.find (\<lambda>i. en_json_path (es[0 := e] ! i) = k) is = List.find (\<lambda>i. en_json_path (es ! i) = k) is"
    by (intro find_cong refl) simp
  moreover have "m \<in> set is \<and> en_json_path (es ! m) = k" if "List.find (\<lambda>i. en_json_path (es ! i) = k) is = Some m" for m
    using that by (auto simp: find_Some_iff)
  ultimately show ?thesis
    using json_put(2)[OF assms(1-3) assms(4)] assms(6) nth
    by (cases "List.find (\<lambda>i. en_json_path (es ! i) = k) is") (auto simp: applied_def)
qed

lemma apply_entries_eq:
  assumes ok: "gui_json_ok g"
  shows "gj_is_object g s \<Longrightarrow> \<forall>i \<in> set is. settable g s es i \<Longrightarrow> \<forall>i \<in> set (tl is). 0 < i \<Longrightarrow>
    distinct (map (\<lambda>i. en_json_path (es ! i)) is) \<Longrightarrow>
    \<exists>s' e. apply_entries g is es (Some s) = Inr (0, es[0 := e], Some s') \<and> gj_is_object g s' \<and>
      (is \<noteq> [] \<longrightarrow> e = (es ! last is)\<lparr>en_json := True\<rparr>) \<and> (\<forall>k. lower_case k \<longrightarrow> cj_get (gj_json g) s' k = applied g is es s k)"
proof (induction "is" arbitrary: es s)
  case Nil
  then show ?case by (intro exI[of _ s] exI[of _ "es ! 0"]) (simp add: applied_def)
next
  case (Cons i "is")
  let ?e = "es ! i"
  let ?s = "gj_put g s (en_json_path ?e) (entry_value g ?e)" and ?es = "es[0 := ?e\<lparr>en_json := True\<rparr>]"
  have i: "settable g s es i" and pos: "\<forall>k \<in> set is. 0 < k" using Cons.prems(2,3) by simp_all
  then have low: "lower_case (en_json_path ?e)" by (simp add: settable_def good_entry_def)
  have nth: "?es ! k = es ! k" if "k \<in> set is" for k using pos that by simp
  have neq: "en_json_path ?e \<notin> (\<lambda>i. en_json_path (es ! i)) ` set is" using Cons.prems(4) by simp
  have "\<exists>s' e. apply_entries g is ?es (Some ?s) = Inr (0, ?es[0 := e], Some s') \<and> gj_is_object g s' \<and>
      (is \<noteq> [] \<longrightarrow> e = (?es ! last is)\<lparr>en_json := True\<rparr>) \<and> (\<forall>k. lower_case k \<longrightarrow> cj_get (gj_json g) s' k = applied g is ?es ?s k)"
  proof (rule Cons.IH)
    show "\<forall>k \<in> set is. settable g ?s ?es k"
      using Cons.prems(2) pos neq by (intro ballI settable_after[OF ok Cons.prems(1) i]) (auto simp: image_iff)
    show "distinct (map (\<lambda>i. en_json_path (?es ! i)) is)" using Cons.prems(4) nth by (simp cong: map_cong)
    show "\<forall>k \<in> set (tl is). 0 < k" using pos by (cases "is") simp_all
  qed (rule json_put(1)[OF ok Cons.prems(1) low])
  then obtain s' e where IH: "apply_entries g is ?es (Some ?s) = Inr (0, ?es[0 := e], Some s')" "gj_is_object g s'"
    "is \<noteq> [] \<longrightarrow> e = (?es ! last is)\<lparr>en_json := True\<rparr>" "\<forall>k. lower_case k \<longrightarrow> cj_get (gj_json g) s' k = applied g is ?es ?s k" by blast
  have "\<forall>k. lower_case k \<longrightarrow> cj_get (gj_json g) s' k = applied g (i # is) es s k"
    using IH(4) applied_Cons[OF ok Cons.prems(1) low _ pos neq] by simp
  moreover have "apply_entries g (i # is) es (Some s) = apply_entries g is ?es (Some ?s)"
    using i unfolding settable_def by (elim conjE exE) (rule apply_entry_eq)
  ultimately show ?case
    using IH(1-3) nth[of "last is"]
    by (intro exI[of _ s'] exI[of _ "if is = [] then ?e\<lparr>en_json := True\<rparr> else e"])
      (cases "is = []"; simp del: apply_entries.simps(2))
qed

section \<open>The file\<close>

text \<open>
  A tree as it is after loading a file with the sections \<open>server\<close>, \<open>pools\<close> and \<open>options\<close>, and a tab
  with values that suit their types.
\<close>

definition loaded_tree :: "'j gui_json \<Rightarrow> conf_entry list \<Rightarrow> 'j \<Rightarrow> bool" where
  "loaded_tree g es cfg \<longleftrightarrow> gj_is_object g cfg \<and>
     (\<exists>s. cj_get (gj_json g) cfg ''server'' = Some s \<and> gj_is_object g s \<and>
        (\<forall>i < 8. \<exists>j. cj_get (gj_json g) s (en_json_path (es ! i)) = Some j \<and> typed_item g (es ! i) j)) \<and>
     (\<exists>a. cj_get (gj_json g) cfg ''pools'' = Some a \<and> gj_is_array g a) \<and>
     (\<exists>a. cj_get (gj_json g) cfg ''options'' = Some a \<and> gj_is_array g a)"

definition good_tab :: "'j tab_config \<Rightarrow> bool" where
  "good_tab tab \<longleftrightarrow> wf_tab tab \<and>
     map (\<lambda>e. (en_json_path e, en_type e)) (config_entries tab) = map (\<lambda>e. (en_json_path e, en_type e)) initialize \<and>
     (\<forall>i < 8. good_entry (config_entries tab ! i)) \<and> (\<forall>p \<in> set (pools_pools tab). pool_conf_ok p) \<and>
     (\<forall>os \<in> set (options_config_entries tab). \<forall>oc \<in> set os. good_option oc)"

lemma initial_paths:
  assumes "map (\<lambda>e. (en_json_path e, en_type e)) es = map (\<lambda>e. (en_json_path e, en_type e)) initialize"
  shows "map en_json_path es = [''interface'', ''tick_delay'', ''cache_size'', ''transaction_duration'', ''lease_expiration_check'',
      ''log_verbosity'', ''lease_time'', ''db_enable'', ''acl_enable'', ''acl_blacklist'', ''dynamic_acl'', ''acl_entries'']"
    "map en_type es = [STRING, NUMERIC, NUMERIC, NUMERIC, NUMERIC, NUMERIC, NUMERIC, BOOLEAN, BOOLEAN, BOOLEAN, BOOLEAN, STRING]"
proof -
  have "map en_json_path es = map fst (map (\<lambda>e. (en_json_path e, en_type e)) es)" "map en_type es = map snd (map (\<lambda>e. (en_json_path e, en_type e)) es)"
    by simp_all
  then show "map en_json_path es = [''interface'', ''tick_delay'', ''cache_size'', ''transaction_duration'', ''lease_expiration_check'',
      ''log_verbosity'', ''lease_time'', ''db_enable'', ''acl_enable'', ''acl_blacklist'', ''dynamic_acl'', ''acl_entries'']"
    "map en_type es = [STRING, NUMERIC, NUMERIC, NUMERIC, NUMERIC, NUMERIC, NUMERIC, BOOLEAN, BOOLEAN, BOOLEAN, BOOLEAN, STRING]"
    unfolding assms by (simp_all add: initialize_def text_entry_def switch_entry_def)
qed

text \<open>The section \<open>server\<close> after the loop over all its entries.\<close>

lemma apply_server:
  assumes ok: "gui_json_ok g" and len: "8 \<le> length es" and s: "gj_is_object g s"
    and items: "\<forall>i < 8. good_entry (es ! i) \<and> (\<exists>j. cj_get (gj_json g) s (en_json_path (es ! i)) = Some j \<and> typed_item g (es ! i) j)"
    and dist: "distinct (map (\<lambda>i. en_json_path (es ! i)) [0..<8])"
  obtains s' where "apply_entries g [0..<8] es (Some s) = Inr (0, es[0 := (es ! 7)\<lparr>en_json := True\<rparr>], Some s')"
    "gj_is_object g s'" "\<forall>i < 8. cj_get (gj_json g) s' (en_json_path (es ! i)) = Some (entry_value g (es ! i))"
    "\<forall>k. lower_case k \<and> (\<forall>i < 8. en_json_path (es ! i) \<noteq> k) \<longrightarrow> cj_get (gj_json g) s' k = cj_get (gj_json g) s k"
proof -
  have "\<forall>i \<in> set [0..<8]. settable g s es i" using len items by (auto simp: settable_def)
  moreover have "\<forall>i \<in> set (tl [0..<8]). 0 < i" by simp
  ultimately obtain s' where s': "apply_entries g [0..<8] es (Some s) = Inr (0, es[0 := (es ! last [0..<8])\<lparr>en_json := True\<rparr>], Some s')"
    "gj_is_object g s'" "\<forall>k. lower_case k \<longrightarrow> cj_get (gj_json g) s' k = applied g [0..<8] es s k"
    using apply_entries_eq[OF ok s _ _ dist] by auto
  have "applied g [0..<8] es s (en_json_path (es ! i)) = Some (entry_value g (es ! i))" if "i < 8" for i
    using find_by_key[OF dist, of i] that by (simp add: applied_def del: upt.simps)
  moreover have "applied g [0..<8] es s k = cj_get (gj_json g) s k" if "\<forall>i < 8. en_json_path (es ! i) \<noteq> k" for k
  proof -
    have "List.find (\<lambda>i. en_json_path (es ! i) = k) [0..<8] = None" using that by (auto simp: find_None_iff)
    then show ?thesis by (simp add: applied_def)
  qed
  ultimately show thesis using s' items by (intro that[of s']) (auto simp: good_entry_def)
qed

text \<open>The pools and options of a tab whose values suit their types.\<close>

lemma apply_pools_eq:
  assumes ok: "gui_json_ok g" and cfg: "gj_is_object g cfg" "cj_get (gj_json g) cfg ''pools'' = Some po" "gj_is_array g po"
      "cj_get (gj_json g) cfg ''options'' = Some op" "gj_is_array g op"
    and tab: "options_config_entries tab = global # oss" "length oss = length (pools_pools tab)"
      "\<forall>os \<in> set (global # oss). \<forall>oc \<in> set os. good_option oc"
  obtains cfg' po' op' where "apply_pools g cfg tab = Inr (cfg', tab\<lparr>options_config_entries := map (map sized) (global # oss)\<rparr>)"
    "gj_is_object g cfg'" "cj_get (gj_json g) cfg' ''pools'' = Some po'" "cj_get (gj_json g) cfg' ''options'' = Some op'"
    "cj_items (gj_json g) po' = map2 (pool_json g) (pools_pools tab) (map (map (option_json g)) oss)"
    "cj_items (gj_json g) op' = map (option_json g) global"
    "\<forall>k. lower_case k \<and> k \<noteq> ''pools'' \<and> k \<noteq> ''options'' \<longrightarrow> cj_get (gj_json g) cfg' k = cj_get (gj_json g) cfg k"
proof -
  let ?pools = "map2 (pool_json g) (pools_pools tab) (map (map (option_json g)) oss)" and ?opts = "map (option_json g) global"
  let ?c1 = "cj_with_array (gj_json g) cfg ''pools'' ?pools"
  let ?c2 = "cj_with_array (gj_json g) ?c1 ''options'' ?opts"
  note low = section_names(3,4)
  note frame = json_with_array[OF ok] and array = json_array[OF ok]
  obtain po' where po': "cj_get (gj_json g) ?c1 ''pools'' = Some po'" "cj_items (gj_json g) po' = ?pools"
    using cfg(2,3) by (rule array)
  have c1: "gj_is_object g ?c1" "cj_get (gj_json g) ?c1 ''options'' = Some op"
    using frame[OF cfg(1) low(1,2)] cfg(4) by simp_all
  obtain op' where op': "cj_get (gj_json g) ?c2 ''options'' = Some op'" "cj_items (gj_json g) op' = ?opts"
    using c1(2) cfg(5) by (rule array)
  have c2: "gj_is_object g ?c2" "cj_get (gj_json g) ?c2 ''pools'' = Some po'"
    using frame[OF c1(1) low(2,1)] po'(1) by simp_all
  have "apply_pools g cfg tab = Inr (?c2, tab\<lparr>options_config_entries := map (map sized) (global # oss)\<rparr>)"
    using tab cfg(2) c1(2) by (simp add: apply_pools_def apply_options_good apply_each_good Let_def)
  moreover have "cj_get (gj_json g) ?c2 k = cj_get (gj_json g) cfg k" if "lower_case k" "k \<noteq> ''pools''" "k \<noteq> ''options''" for k
    using frame[OF cfg(1) low(1) that(1,2)] frame[OF c1(1) low(2) that(1,3)] by simp
  ultimately show thesis using c2 po'(2) op' by (intro that[of ?c2 po' op']) simp_all
qed

lemma apply_rest_eq:
  assumes ok: "gui_json_ok (ge_json env)" and wr: "ge_can_write env ''/etc/dhcp/config.json''"
    and cfg: "gj_is_object (ge_json env) cfg" "cj_get (gj_json (ge_json env)) cfg ''pools'' = Some po" "gj_is_array (ge_json env) po"
      "cj_get (gj_json (ge_json env)) cfg ''options'' = Some op" "gj_is_array (ge_json env) op"
    and tab: "options_config_entries tab = global # oss" "length oss = length (pools_pools tab)"
      "\<forall>os \<in> set (global # oss). \<forall>oc \<in> set os. good_option oc"
  obtains tab' cfg' po' op' where
    "apply_rest env fs cfg tab = Inr (0, tab', fs(''/etc/dhcp/config.json'' \<mapsto> cj_print (gj_json (ge_json env)) cfg' @ [CHR 0x0A]))"
    "config_entries tab' = config_entries tab"
    "cj_get (gj_json (ge_json env)) cfg' ''pools'' = Some po'" "cj_get (gj_json (ge_json env)) cfg' ''options'' = Some op'"
    "cj_items (gj_json (ge_json env)) po' = map2 (pool_json (ge_json env)) (pools_pools tab) (map (map (option_json (ge_json env))) oss)"
    "cj_items (gj_json (ge_json env)) op' = map (option_json (ge_json env)) global"
    "cj_get (gj_json (ge_json env)) cfg' ''server'' = cj_get (gj_json (ge_json env)) cfg ''server''" "gj_is_object (ge_json env) cfg'"
    "cj_get (gj_json (ge_json env)) cfg' ''security'' = map_option (apply_security (ge_json env) (config_entries tab)
       (filter (\<lambda>s. s \<noteq> []) (security_acl_entries tab))) (cj_get (gj_json (ge_json env)) cfg ''security'')"
proof -
  let ?g = "ge_json env" and ?api = "gj_json (ge_json env)"
  define tab1 where "tab1 = update_acl_entries (delete_empty_entries tab)"
  define c2 where "c2 = (case cj_get ?api cfg ''security'' of None \<Rightarrow> cfg
     | Some sec \<Rightarrow> gj_put ?g cfg ''security'' (apply_security ?g (config_entries tab1) (security_acl_entries tab1) sec))"
  have c2: "gj_is_object ?g c2" "cj_get ?api c2 ''server'' = cj_get ?api cfg ''server''"
    "cj_get ?api c2 ''pools'' = Some po" "cj_get ?api c2 ''options'' = Some op"
    using cfg(1,2,4) json_put[OF ok cfg(1) section_names(2)] section_names by (simp_all add: c2_def split: option.splits)
  have tab1: "options_config_entries tab1 = global # oss" "length oss = length (pools_pools tab1)"
    "pools_pools tab1 = pools_pools tab" "config_entries tab1 = config_entries tab"
    "security_acl_entries tab1 = filter (\<lambda>s. s \<noteq> []) (security_acl_entries tab)"
    using tab by (simp_all add: tab1_def update_acl_entries_def delete_empty_entries_def)
  obtain cfg' po' op' where pools: "apply_pools ?g c2 tab1 = Inr (cfg', tab1\<lparr>options_config_entries := map (map sized) (global # oss)\<rparr>)"
    "gj_is_object ?g cfg'" "cj_get ?api cfg' ''pools'' = Some po'" "cj_get ?api cfg' ''options'' = Some op'"
    "cj_items ?api po' = map2 (pool_json ?g) (pools_pools tab1) (map (map (option_json ?g)) oss)"
    "cj_items ?api op' = map (option_json ?g) global"
    "\<forall>k. lower_case k \<and> k \<noteq> ''pools'' \<and> k \<noteq> ''options'' \<longrightarrow> cj_get ?api cfg' k = cj_get ?api c2 k"
    using ok c2(1,3) cfg(3) c2(4) cfg(5) tab1(1,2) tab(3) by (rule apply_pools_eq)
  have srv: "cj_get ?api cfg' ''server'' = cj_get ?api cfg ''server''" using pools(7) section_names(1) c2(2) by simp
  have "cj_get ?api c2 ''security'' = map_option (apply_security ?g (config_entries tab)
      (filter (\<lambda>s. s \<noteq> []) (security_acl_entries tab))) (cj_get ?api cfg ''security'')"
    using json_put(2)[OF ok cfg(1) section_names(2,2)] tab1(4,5) by (simp add: c2_def split: option.splits)
  then have sec: "cj_get ?api cfg' ''security'' = map_option (apply_security ?g (config_entries tab)
      (filter (\<lambda>s. s \<noteq> []) (security_acl_entries tab))) (cj_get ?api cfg ''security'')"
    using pools(7) section_names(2) by simp
  show thesis
  proof (rule that[OF _ _ pools(3,4) _ pools(6) srv pools(2) sec])
    show "apply_rest env fs cfg tab = Inr (0, tab1\<lparr>options_config_entries := map (map sized) (global # oss), config_tree := Some cfg'\<rparr>,
        fs(''/etc/dhcp/config.json'' \<mapsto> cj_print ?api cfg' @ [CHR 0x0A]))"
      unfolding apply_rest_def Let_def tab1_def[symmetric] c2_def[symmetric] pools(1) using wr by (simp add: write_config_def)
  qed (use tab1(3,4) pools(5) in simp_all)
qed

lemma apply_settings_eq:
  assumes ok: "gui_json_ok (ge_json env)" and wr: "ge_can_write env ''/etc/dhcp/config.json''" and good: "good_tab tab"
    and tree: "config_tree tab = Some cfg" "loaded_tree (ge_json env) (config_entries tab) cfg"
  obtains tab' cfg' s s' po' op' where
    "apply_settings env fs tab = Inr (0, tab', fs(''/etc/dhcp/config.json'' \<mapsto> cj_print (gj_json (ge_json env)) cfg' @ [CHR 0x0A]))"
    "config_entries tab' = (config_entries tab)[0 := (config_entries tab ! 7)\<lparr>en_json := True\<rparr>]"
    "cj_get (gj_json (ge_json env)) cfg' ''pools'' = Some po'" "cj_get (gj_json (ge_json env)) cfg' ''options'' = Some op'"
    "cj_items (gj_json (ge_json env)) po' = map2 (pool_json (ge_json env)) (pools_pools tab)
       (map (map (option_json (ge_json env))) (tl (options_config_entries tab)))"
    "cj_items (gj_json (ge_json env)) op' = map (option_json (ge_json env)) (hd (options_config_entries tab))"
    "cj_get (gj_json (ge_json env)) cfg' ''server'' = Some s'" "cj_get (gj_json (ge_json env)) cfg ''server'' = Some s"
    "\<forall>i < 8. cj_get (gj_json (ge_json env)) s' (en_json_path (config_entries tab ! i)) =
       Some (entry_value (ge_json env) (config_entries tab ! i))"
    "\<forall>k. lower_case k \<and> (\<forall>i < 8. en_json_path (config_entries tab ! i) \<noteq> k) \<longrightarrow>
       cj_get (gj_json (ge_json env)) s' k = cj_get (gj_json (ge_json env)) s k"
    "gj_is_object (ge_json env) cfg'" "gj_is_object (ge_json env) s'"
    "cj_get (gj_json (ge_json env)) cfg' ''security'' = map_option (apply_security (ge_json env) (config_entries tab')
       (filter (\<lambda>s. s \<noteq> []) (security_acl_entries tab))) (cj_get (gj_json (ge_json env)) cfg ''security'')"
proof -
  let ?g = "ge_json env" and ?api = "gj_json (ge_json env)" and ?es = "config_entries tab"
  let ?es' = "?es[0 := (?es ! 7)\<lparr>en_json := True\<rparr>]"
  obtain s po op where s: "gj_is_object ?g cfg" "cj_get ?api cfg ''server'' = Some s" "gj_is_object ?g s"
    "\<forall>i < 8. \<exists>j. cj_get ?api s (en_json_path (?es ! i)) = Some j \<and> typed_item ?g (?es ! i) j"
    "cj_get ?api cfg ''pools'' = Some po" "gj_is_array ?g po" "cj_get ?api cfg ''options'' = Some op" "gj_is_array ?g op"
    using tree(2) unfolding loaded_tree_def by blast
  have len: "8 \<le> length ?es" using good by (simp add: good_tab_def wf_tab_def)
  have "map (\<lambda>i. en_json_path (?es ! i)) [0..<8] = take 8 (map en_json_path ?es)"
    using len by (intro nth_equalityI) simp_all
  also have "distinct \<dots>" using good unfolding good_tab_def by (simp only: initial_paths(1)[of ?es]) simp
  finally have dist: "distinct (map (\<lambda>i. en_json_path (?es ! i)) [0..<8])" .
  have items: "\<forall>i < 8. good_entry (?es ! i) \<and> (\<exists>j. cj_get ?api s (en_json_path (?es ! i)) = Some j \<and> typed_item ?g (?es ! i) j)"
    using good s(4) unfolding good_tab_def by blast
  obtain s' where s': "apply_entries ?g [0..<8] ?es (Some s) = Inr (0, ?es', Some s')"
    "gj_is_object ?g s'" "\<forall>i < 8. cj_get ?api s' (en_json_path (?es ! i)) = Some (entry_value ?g (?es ! i))"
    "\<forall>k. lower_case k \<and> (\<forall>i < 8. en_json_path (?es ! i) \<noteq> k) \<longrightarrow> cj_get ?api s' k = cj_get ?api s k"
    using ok len s(3) items dist by (rule apply_server)
  define c1 where "c1 = gj_put ?g cfg ''server'' s'"
  define tab1 where "tab1 = tab\<lparr>config_tree := Some c1, config_entries := ?es'\<rparr>"
  have c1: "gj_is_object ?g c1" "cj_get ?api c1 ''server'' = Some s'" "cj_get ?api c1 ''pools'' = Some po" "cj_get ?api c1 ''options'' = Some op"
    "cj_get ?api c1 ''security'' = cj_get ?api cfg ''security''"
    using json_put[OF ok s(1) section_names(1)] s(5,7) section_names by (simp_all add: c1_def)
  obtain global oss where oss: "options_config_entries tab = global # oss" "length oss = length (pools_pools tab)"
    using good by (cases "options_config_entries tab") (auto simp: good_tab_def wf_tab_def)
  then have tab1: "options_config_entries tab1 = global # oss" "length oss = length (pools_pools tab1)" by (simp_all add: tab1_def)
  have goods: "\<forall>os \<in> set (global # oss). \<forall>oc \<in> set os. good_option oc" using good oss(1) by (simp add: good_tab_def)
  obtain tab' cfg' po' op' where rest:
    "apply_rest env fs c1 tab1 = Inr (0, tab', fs(''/etc/dhcp/config.json'' \<mapsto> cj_print ?api cfg' @ [CHR 0x0A]))"
    "config_entries tab' = config_entries tab1"
    "cj_get ?api cfg' ''pools'' = Some po'" "cj_get ?api cfg' ''options'' = Some op'"
    "cj_items ?api po' = map2 (pool_json ?g) (pools_pools tab1) (map (map (option_json ?g)) oss)"
    "cj_items ?api op' = map (option_json ?g) global" "cj_get ?api cfg' ''server'' = cj_get ?api c1 ''server''"
    "gj_is_object ?g cfg'" "cj_get ?api cfg' ''security'' = map_option (apply_security ?g (config_entries tab1)
       (filter (\<lambda>s. s \<noteq> []) (security_acl_entries tab1))) (cj_get ?api c1 ''security'')"
    using ok wr c1(1,3) s(6) c1(4) s(8) tab1 goods by (rule apply_rest_eq)
  have "apply_settings env fs tab = apply_rest env fs c1 tab1"
    by (simp add: apply_settings_def tree(1) s(2) s'(1) Let_def c1_def tab1_def del: apply_entries.simps upt.simps)
  then show thesis
    using rest oss c1(2,5) s(2) s'(2-4) by (intro that[of tab' cfg' po' op' s' s]) (simp_all add: tab1_def)
qed

section \<open>From the file to the tab\<close>

lemma default_typed:
  assumes "gui_json_ok g"
  shows "typed_item g e (case en_type e of NUMERIC \<Rightarrow> gj_of_int g n | BOOLEAN \<Rightarrow> gj_of_bool g b | _ \<Rightarrow> cj_of_string (gj_json g) t)"
  using json_laws(2,3)[OF assms]
  by (cases "en_type e") (auto simp: typed_item_def json_values_def cjson_prints_def)

text \<open>Loading an entry leaves an item of its type in the section.\<close>

lemma load_entry_typed:
  assumes "gui_json_ok g" "gj_is_object g s" "lower_case (en_json_path e)" "load_entry g (Some s) e = (rv, s', e')" "\<not> rv < 0"
  obtains t where "s' = Some t" "gj_is_object g t" "en_json_path e' = en_json_path e" "en_type e' = en_type e"
    "\<exists>j. cj_get (gj_json g) t (en_json_path e) = Some j \<and> typed_item g e j"
    "\<forall>k. lower_case k \<and> k \<noteq> en_json_path e \<longrightarrow> cj_get (gj_json g) t k = cj_get (gj_json g) s k"
proof (cases "cj_get (gj_json g) s (en_json_path e)")
  case None
  then show ?thesis
    using assms(3-5) json_put[OF assms(1-3)] default_typed[OF assms(1), of e]
    by (intro that[of "the s'"]) (auto simp: load_entry_def member_def Let_def)
next
  case (Some j)
  have "cj_is_string (gj_json g) j \<longleftrightarrow> cj_string (gj_json g) j \<noteq> None" using json_laws(3)[OF assms(1)] by (simp add: json_values_def)
  then have "s' = Some s" "en_json_path e' = en_json_path e" "en_type e' = en_type e" "typed_item g e j"
    using assms(4,5) Some
    by (auto simp: load_entry_def member_def Let_def typed_item_def split: conf_type.splits option.splits if_splits)
  then show ?thesis using assms(2) Some by (intro that[of s]) auto
qed

lemma load_entries_typed:
  assumes ok: "gui_json_ok g"
  shows "gj_is_object g s \<Longrightarrow> \<forall>e \<in> set es. lower_case (en_json_path e) \<Longrightarrow> distinct (map en_json_path es) \<Longrightarrow>
    load_entries g (Some s) es = (rv, s', es') \<Longrightarrow> \<not> rv < 0 \<Longrightarrow>
    \<exists>t. s' = Some t \<and> gj_is_object g t \<and> map en_json_path es' = map en_json_path es \<and> map en_type es' = map en_type es \<and>
      (\<forall>e \<in> set es. \<exists>j. cj_get (gj_json g) t (en_json_path e) = Some j \<and> typed_item g e j) \<and>
      (\<forall>k. lower_case k \<and> k \<notin> en_json_path ` set es \<longrightarrow> cj_get (gj_json g) t k = cj_get (gj_json g) s k)"
proof (induction es arbitrary: s rv s' es')
  case (Cons e es)
  obtain rv1 s1 e1 where e1: "load_entry g (Some s) e = (rv1, s1, e1)" by (metis prod_cases3)
  obtain rv2 s2 es2 where es2: "load_entries g s1 es = (rv2, s2, es2)" by (metis prod_cases3)
  have rv: "\<not> rv1 < 0" "\<not> rv2 < 0" "s' = s2" "es' = e1 # es2"
    using Cons.prems(4,5) e1 es2 by (auto split: if_splits)
  obtain t1 where t1: "s1 = Some t1" "gj_is_object g t1" "en_json_path e1 = en_json_path e" "en_type e1 = en_type e"
    "\<exists>j. cj_get (gj_json g) t1 (en_json_path e) = Some j \<and> typed_item g e j"
    "\<forall>k. lower_case k \<and> k \<noteq> en_json_path e \<longrightarrow> cj_get (gj_json g) t1 k = cj_get (gj_json g) s k"
    by (rule load_entry_typed[OF ok Cons.prems(1) _ e1 rv(1)]) (use Cons.prems(2) in auto)
  obtain t where t: "s2 = Some t" "gj_is_object g t" "map en_json_path es2 = map en_json_path es" "map en_type es2 = map en_type es"
    "\<forall>e \<in> set es. \<exists>j. cj_get (gj_json g) t (en_json_path e) = Some j \<and> typed_item g e j"
    "\<forall>k. lower_case k \<and> k \<notin> en_json_path ` set es \<longrightarrow> cj_get (gj_json g) t k = cj_get (gj_json g) t1 k"
    using Cons.IH[of t1 rv2 s2 es2] t1(1,2) Cons.prems(2,3) es2 rv(2) by auto
  have "cj_get (gj_json g) t (en_json_path e) = cj_get (gj_json g) t1 (en_json_path e)"
    using t(6) Cons.prems(2,3) by auto
  with t t1 rv(3,4) show ?case by (intro exI[of _ t]) auto
qed simp

lemma load_security_tree:
  assumes "gui_json_ok g" "gj_is_object g cfg" "load_security g cfg tab = Inr (rv, cfg', tab')"
  shows "gj_is_object g cfg'" "\<And>k. lower_case k \<Longrightarrow> k \<noteq> ''security'' \<Longrightarrow> cj_get (gj_json g) cfg' k = cj_get (gj_json g) cfg k"
    "config_entries tab' = config_entries tab \<or> config_entries tab' = take 8 (config_entries tab) @
       map (\<lambda>e. e\<lparr>en_json := True\<rparr>) (drop 8 (config_entries tab))"
proof -
  have "cfg' = cfg \<or> (\<exists>sec. cfg' = gj_put g cfg ''security'' sec)"
    "config_entries tab' = config_entries tab \<or> config_entries tab' = take 8 (config_entries tab) @
       map (\<lambda>e. e\<lparr>en_json := True\<rparr>) (drop 8 (config_entries tab))"
    using assms(3) by (auto simp: load_security_def Let_def split: option.splits if_splits)
  then show "gj_is_object g cfg'" "\<And>k. lower_case k \<Longrightarrow> k \<noteq> ''security'' \<Longrightarrow> cj_get (gj_json g) cfg' k = cj_get (gj_json g) cfg k"
    "config_entries tab' = config_entries tab \<or> config_entries tab' = take 8 (config_entries tab) @
       map (\<lambda>e. e\<lparr>en_json := True\<rparr>) (drop 8 (config_entries tab))"
    using assms(2) json_put[OF assms(1,2) section_names(2)] by auto
qed

lemma load_pools_part_tree:
  assumes "gui_json_ok g" "gj_is_object g cfg" "cj_get (gj_json g) cfg ''pools'' = Some po" "gj_is_array g po"
    and "load_pools_part g cfg tab = Inr (rv, tab')"
  obtains cfg' po' where "config_tree tab' = Some cfg'" "gj_is_object g cfg'" "cj_get (gj_json g) cfg' ''pools'' = Some po'" "gj_is_array g po'"
    "cj_get (gj_json g) cfg' ''server'' = cj_get (gj_json g) cfg ''server''" "cj_get (gj_json g) cfg' ''options'' = cj_get (gj_json g) cfg ''options''"
    "config_entries tab' = config_entries tab"
proof -
  have "\<exists>es. config_tree tab' = Some (cj_with_array (gj_json g) cfg ''pools'' es) \<and> config_entries tab' = config_entries tab"
    using assms(5) unfolding load_pools_part_def Let_def split_def assms(3) option.case by (elim cbindE if_cases) auto
  then obtain es where tab': "config_tree tab' = Some (cj_with_array (gj_json g) cfg ''pools'' es)" "config_entries tab' = config_entries tab"
    by blast
  have "gj_is_object g (cj_with_array (gj_json g) cfg ''pools'' es)"
    "cj_get (gj_json g) (cj_with_array (gj_json g) cfg ''pools'' es) ''server'' = cj_get (gj_json g) cfg ''server''"
    "cj_get (gj_json g) (cj_with_array (gj_json g) cfg ''pools'' es) ''options'' = cj_get (gj_json g) cfg ''options''"
    using json_with_array[OF assms(1,2) section_names(3,1)] json_with_array[OF assms(1,2) section_names(3,4)] by simp_all
  moreover obtain po' where "cj_get (gj_json g) (cj_with_array (gj_json g) cfg ''pools'' es) ''pools'' = Some po'" "gj_is_array g po'"
    using assms(1,3,4) by (rule json_array)
  ultimately show thesis using tab' by (intro that[of "cj_with_array (gj_json g) cfg ''pools'' es" po']) simp_all
qed

text \<open>Without a configuration file the tab starts with the defaults and a tree that has all sections.\<close>

lemma load_entries_missing:
  assumes ok: "gui_json_ok g"
  shows "gj_is_object g s \<Longrightarrow> \<forall>e \<in> set es. lower_case (en_json_path e) \<and> cj_get (gj_json g) s (en_json_path e) = None \<Longrightarrow>
    distinct (map en_json_path es) \<Longrightarrow> \<exists>t. load_entries g (Some s) es = (0, Some t, map (\<lambda>e. e\<lparr>en_json := True\<rparr>) es)"
proof (induction es arbitrary: s)
  case (Cons e es)
  define v where "v = (case en_type e of NUMERIC \<Rightarrow> gj_of_int g (en_def_val_i e) | BOOLEAN \<Rightarrow> gj_of_bool g (en_def_val_i e \<noteq> 0)
     | _ \<Rightarrow> cj_of_string (gj_json g) (en_def_val e))"
  have low: "lower_case (en_json_path e)" "cj_get (gj_json g) s (en_json_path e) = None" using Cons.prems(2) by simp_all
  have "load_entry g (Some s) e = (0, Some (gj_put g s (en_json_path e) v), e\<lparr>en_json := True\<rparr>)"
    using low(2) by (simp add: load_entry_def member_def Let_def v_def)
  moreover have "\<exists>t. load_entries g (Some (gj_put g s (en_json_path e) v)) es = (0, Some t, map (\<lambda>e. e\<lparr>en_json := True\<rparr>) es)"
    using Cons.prems(2,3) json_put[OF ok Cons.prems(1) low(1)] by (intro Cons.IH) (auto simp: image_iff)
  ultimately show ?case by auto
qed simp

lemma add_missing_get:
  assumes "gui_json_ok g" "gj_is_object g j" "lower_case k"
  shows "gj_is_object g (add_missing g k v j)"
    "lower_case k' \<Longrightarrow> cj_get (gj_json g) (add_missing g k v j) k' =
       (if k' = k \<and> cj_get (gj_json g) j k = None then Some v else cj_get (gj_json g) j k')"
  using assms(2) json_put[OF assms] by (auto simp: add_missing_def split: option.splits)

definition has_bool :: "'j gui_json \<Rightarrow> 'j \<Rightarrow> string \<Rightarrow> bool" where
  "has_bool g sec k \<longleftrightarrow> (\<exists>v. cj_get (gj_json g) sec k = Some v \<and> cj_is_bool (gj_json g) v)"

text \<open>A section with its three switches and its list.\<close>

definition typed_security :: "'j gui_json \<Rightarrow> 'j \<Rightarrow> bool" where
  "typed_security g sec \<longleftrightarrow> gj_is_object g sec \<and> has_bool g sec ''acl_enable'' \<and> has_bool g sec ''acl_blacklist'' \<and>
     has_bool g sec ''dynamic_acl'' \<and> (\<exists>a. cj_get (gj_json g) sec ''acl_entries'' = Some a \<and> gj_is_array g a)"

lemma security_names: "lower_case ''acl_enable''" "lower_case ''acl_blacklist''" "lower_case ''dynamic_acl''" "lower_case ''acl_entries''"
  by (simp_all add: lower_case_def)

lemma load_security_missing:
  assumes ok: "gui_json_ok g" and sec: "cj_get (gj_json g) cfg ''security'' = Some sec" "gj_is_object g sec"
    and empty: "\<forall>k. lower_case k \<longrightarrow> cj_get (gj_json g) sec k = None"
  shows "\<exists>sec'. typed_security g sec' \<and> load_security g cfg tab = Inr (0, gj_put g cfg ''security'' sec', tab\<lparr>config_entries := take 8 (config_entries tab) @
     map (\<lambda>e. e\<lparr>en_json := True\<rparr>) (drop 8 (config_entries tab)), security_acl_entries := [], security_acl_entries_size_last := 0\<rparr>)"
proof -
  let ?sec = "complete_security g (config_entries tab) sec"
  note get = add_missing_get[OF ok] and low = security_names
  have sec': "cj_get (gj_json g) ?sec ''acl_enable'' = Some (gj_of_bool g (en_def_val_i (config_entries tab ! CONF_SEC_ACL_ENABLE) \<noteq> 0))"
    "cj_get (gj_json g) ?sec ''acl_blacklist'' = Some (gj_of_bool g (en_def_val_i (config_entries tab ! CONF_SEC_ACL_MODE) \<noteq> 0))"
    "cj_get (gj_json g) ?sec ''dynamic_acl'' = Some (gj_of_bool g (en_def_val_i (config_entries tab ! CONF_SEC_ACL_MODE) \<noteq> 0))"
    "cj_get (gj_json g) ?sec ''acl_entries'' = Some (cj_array (gj_json g) [])" "gj_is_object g ?sec"
    using sec(2) empty low by (simp_all add: complete_security_def get)
  have val: "cj_is_bool (gj_json g) (gj_of_bool g b)" "gj_is_array g (cj_array (gj_json g) [])" "cj_items (gj_json g) (cj_array (gj_json g) []) = []" for b
    using json_laws(2,3,5)[OF ok] by (simp_all add: json_values_def json_arrays_def cjson_prints_def)
  have "typed_security g ?sec" using sec' val by (simp add: typed_security_def has_bool_def)
  moreover have "load_security g cfg tab = Inr (0, gj_put g cfg ''security'' ?sec, tab\<lparr>config_entries := take 8 (config_entries tab) @
     map (\<lambda>e. e\<lparr>en_json := True\<rparr>) (drop 8 (config_entries tab)), security_acl_entries := [], security_acl_entries_size_last := 0\<rparr>)"
    using sec(1) sec' val by (simp add: load_security_def Let_def)
  ultimately show ?thesis by blast
qed

lemma server_entries:
  "take 8 initialize @ drop 8 initialize = initialize" "\<forall>e \<in> set (take 8 initialize). lower_case (en_json_path e)"
  "distinct (map en_json_path (take 8 initialize))" "length initialize = 12"
  by (simp_all add: initialize_def text_entry_def switch_entry_def lower_case_def)

lemma empty_config_get:
  assumes "gui_json_ok g"
  shows "gj_is_object g (empty_config (gj_json g))"
    "cj_get (gj_json g) (empty_config (gj_json g)) ''server'' = Some (cj_object (gj_json g) [])"
    "cj_get (gj_json g) (empty_config (gj_json g)) ''pools'' = Some (cj_array (gj_json g) [])"
    "cj_get (gj_json g) (empty_config (gj_json g)) ''options'' = Some (cj_array (gj_json g) [])"
    "cj_get (gj_json g) (empty_config (gj_json g)) ''security'' = Some (cj_object (gj_json g) [])"
    "gj_is_object g (cj_object (gj_json g) [])" "lower_case k \<Longrightarrow> cj_get (gj_json g) (cj_object (gj_json g) []) k = None"
    "gj_is_array g (cj_array (gj_json g) [])" "cj_items (gj_json g) (cj_array (gj_json g) xs) = xs"
proof -
  have obj: "cj_get (gj_json g) (cj_object (gj_json g) kvs) k = map_of kvs k"
    if "distinct (map fst kvs)" "\<forall>x \<in> set (k # map fst kvs). lower_case x" for kvs k
    using json_laws(1)[OF assms] that unfolding cjson_ok_def by blast
  show "cj_get (gj_json g) (empty_config (gj_json g)) ''server'' = Some (cj_object (gj_json g) [])"
    "cj_get (gj_json g) (empty_config (gj_json g)) ''pools'' = Some (cj_array (gj_json g) [])"
    "cj_get (gj_json g) (empty_config (gj_json g)) ''options'' = Some (cj_array (gj_json g) [])"
    "cj_get (gj_json g) (empty_config (gj_json g)) ''security'' = Some (cj_object (gj_json g) [])"
    "lower_case k \<Longrightarrow> cj_get (gj_json g) (cj_object (gj_json g) []) k = None"
    by (simp_all add: empty_config_def obj lower_case_def)
  have "\<forall>kvs. gj_is_object g (cj_object (gj_json g) kvs)" using json_laws(4)[OF assms] unfolding json_objects_def by (rule conjunct1)
  then show "gj_is_object g (empty_config (gj_json g))" "gj_is_object g (cj_object (gj_json g) [])" by (simp_all add: empty_config_def)
  have "\<forall>xs. gj_is_array g (cj_array (gj_json g) xs)" using json_laws(5)[OF assms] unfolding json_arrays_def by (rule conjunct1)
  then show "gj_is_array g (cj_array (gj_json g) [])" ..
  show "cj_items (gj_json g) (cj_array (gj_json g) xs) = xs" using json_laws(2)[OF assms] by (simp add: cjson_prints_def)
qed

lemma loaded_treeI:
  assumes "gj_is_object g cfg" "cj_get (gj_json g) cfg ''server'' = Some s" "gj_is_object g s"
    and "\<forall>e \<in> set (take 8 es). \<exists>j. cj_get (gj_json g) s (en_json_path e) = Some j \<and> typed_item g e j" "8 \<le> length es"
    and "cj_get (gj_json g) cfg ''pools'' = Some po" "gj_is_array g po" "cj_get (gj_json g) cfg ''options'' = Some op" "gj_is_array g op"
  shows "loaded_tree g es cfg"
proof -
  have "\<exists>j. cj_get (gj_json g) s (en_json_path (es ! i)) = Some j \<and> typed_item g (es ! i) j" if "i < 8" for i
    using assms(4,5) that nth_mem[of i "take 8 es"] by simp
  then show ?thesis using assms unfolding loaded_tree_def by blast
qed

lemma load_tree_empty:
  assumes ok: "gui_json_ok g" and tab: "config_entries tab = initialize"
  obtains tab' cfg where "load_tree g (empty_config (gj_json g)) tab = Inr (0, tab')"
    "config_tree tab' = Some cfg" "loaded_tree g initialize cfg" "config_entries tab' = map (\<lambda>e. e\<lparr>en_json := True\<rparr>) initialize"
    "pools_pools tab' = []" "options_config_entries tab' = options_config_entries tab @ [[]]"
    "\<exists>sec. cj_get (gj_json g) cfg ''security'' = Some sec \<and> typed_security g sec"
proof -
  let ?api = "gj_json g" and ?set = "\<lambda>es. map (\<lambda>e. e\<lparr>en_json := True\<rparr>) es"
  let ?es = "?set (take 8 initialize) @ drop 8 initialize"
  note e = empty_config_get[OF ok]
  obtain t where t: "load_entries g (Some (cj_object ?api [])) (take 8 initialize) = (0, Some t, ?set (take 8 initialize))"
    using load_entries_missing[OF ok e(6) _ server_entries(3)] server_entries(2) e(7) by blast
  have s: "gj_is_object g t" "\<forall>e \<in> set (take 8 initialize). \<exists>j. cj_get ?api t (en_json_path e) = Some j \<and> typed_item g e j"
    using load_entries_typed[OF ok e(6) server_entries(2,3) t] by auto
  define c1 where "c1 = gj_put g (empty_config ?api) ''server'' t"
  have c1: "gj_is_object g c1" "cj_get ?api c1 ''server'' = Some t" "cj_get ?api c1 ''pools'' = Some (cj_array ?api [])"
    "cj_get ?api c1 ''options'' = Some (cj_array ?api [])" "cj_get ?api c1 ''security'' = Some (cj_object ?api [])"
    using json_put[OF ok e(1) section_names(1)] section_names e(2-5) by (simp_all add: c1_def)
  define tab1 where "tab1 = tab\<lparr>config_tree := Some c1, config_entries := ?es\<rparr>"
  obtain sec c2 where sec: "typed_security g sec" "c2 = gj_put g c1 ''security'' sec" "load_security g c1 tab1 = Inr (0, c2, tab1\<lparr>config_entries := take 8 (config_entries tab1) @
      ?set (drop 8 (config_entries tab1)), security_acl_entries := [], security_acl_entries_size_last := 0\<rparr>)"
    using load_security_missing[OF ok c1(5) e(6)] e(7) by blast
  note keep = load_security_tree(1,2)[OF ok c1(1) sec(3)]
  have c2: "gj_is_object g c2" "cj_get ?api c2 ''server'' = Some t" "cj_get ?api c2 ''pools'' = Some (cj_array ?api [])"
    "cj_get ?api c2 ''options'' = Some (cj_array ?api [])" "cj_get ?api c2 ''security'' = Some sec"
    using json_put(2)[OF ok c1(1) section_names(2,2)] sec(2) keep(1) keep(2)[OF section_names(1)] keep(2)[OF section_names(3)] keep(2)[OF section_names(4)] c1 by simp_all
  have es: "take 8 ?es @ ?set (drop 8 ?es) = ?set initialize"
    by (simp add: initialize_def)
  define tab2 where "tab2 = tab1\<lparr>config_entries := ?set initialize, security_acl_entries := [],
    security_acl_entries_size_last := 0, config_tree := Some c2\<rparr>"
  define c3 where "c3 = cj_with_array ?api c2 ''pools'' []"
  obtain po where po: "cj_get ?api c3 ''pools'' = Some po" "gj_is_array g po"
    using c2(3) e(8) unfolding c3_def by (rule json_array[OF ok])
  have c3: "gj_is_object g c3" "cj_get ?api c3 ''server'' = Some t" "cj_get ?api c3 ''options'' = Some (cj_array ?api [])"
    "cj_get ?api c3 ''security'' = Some sec"
    using json_with_array(2)[OF ok c2(1) section_names(3,2)] c2(5) json_with_array[OF ok c2(1) section_names(3,1)] json_with_array[OF ok c2(1) section_names(3,4)] c2(2,4) by (simp_all add: c3_def)
  have "load_tree g (empty_config ?api) tab = load_pools_part g c2 tab2"
    unfolding load_tree_def e(2) tab t Let_def prod.case option.case c1_def[symmetric] tab1_def[symmetric]
    using sec(3) es by (simp add: tab1_def tab2_def)
  also have "\<dots> = Inr (0, tab2\<lparr>config_tree := Some c3, pools_pools := [], pools_entries := [], options_list := [''Global''],
      options_config_entries := options_config_entries tab2 @ [[]]\<rparr>)"
    using c2(3) c3(3) by (simp add: load_pools_part_def Let_def load_dhcp_config_def e(9) c3_def)
  finally show thesis
    by (rule that[of _ c3]) (use loaded_treeI[OF c3(1,2) s(1) s(2) _ po c3(3) e(8)] server_entries(4) c3(4) sec(1) in \<open>simp_all add: tab2_def tab1_def\<close>)
qed

lemma default_numbers:
  "stoi ''1000'' = Inr 1000" "stoi ''25'' = Inr 25" "stoi ''60'' = Inr 60" "stoi ''4'' = Inr 4" "stoi ''43200'' = Inr 43200"
  using stoi_to_string[of 1000] stoi_to_string[of 25] stoi_to_string[of 60] stoi_to_string[of 4] stoi_to_string[of 43200]
  by (simp_all add: to_string_def dec.simps digit_char_def char_of_def bit_0)

lemma default_entries: "\<forall>e \<in> set (take 8 initialize). good_entry (e\<lparr>en_json := True\<rparr>)"
  by (simp add: initialize_def text_entry_def switch_entry_def good_entry_def lower_case_def default_numbers)

text \<open>The tab of a new session without a configuration file.\<close>

lemma TabConfig_fresh:
  assumes ok: "gui_json_ok (ge_json env)" and none: "fs ''/etc/dhcp/config.json'' = None"
  obtains tab cfg where "TabConfig env fs = Inr tab" "config_tree tab = Some cfg" "loaded_tree (ge_json env) (config_entries tab) cfg"
    "config_entries tab = map (\<lambda>e. e\<lparr>en_json := True\<rparr>) initialize" "pools_pools tab = []" "options_config_entries tab = [[]]" "good_tab tab"
    "\<exists>sec. cj_get (gj_json (ge_json env)) cfg ''security'' = Some sec \<and> typed_security (ge_json env) sec"
proof -
  obtain tab' cfg where t: "load_tree (ge_json env) (empty_config (gj_json (ge_json env))) new_tab = Inr (0, tab')"
    "config_tree tab' = Some cfg" "loaded_tree (ge_json env) initialize cfg"
    "config_entries tab' = map (\<lambda>e. e\<lparr>en_json := True\<rparr>) initialize" "pools_pools tab' = []"
    "options_config_entries tab' = [[]]" "\<exists>sec. cj_get (gj_json (ge_json env)) cfg ''security'' = Some sec \<and> typed_security (ge_json env) sec"
    by (rule load_tree_empty[OF ok, of new_tab]) simp_all
  have "load_config_file env fs new_tab = Inr (0, tab')" using none t(1) by (simp add: load_config_file_def read_buffer_def)
  then obtain tab where tab: "TabConfig env fs = Inr tab" "config_tree tab = config_tree tab'" "config_entries tab = config_entries tab'"
    "options_config_entries tab = options_config_entries tab'" "pools_pools tab = pools_pools tab'"
    by (rule TabConfig_load)
  have "loaded_tree (ge_json env) (config_entries tab) cfg"
    using t(3) tab(3) t(4) server_entries(4) by (simp add: loaded_tree_def typed_item_def)
  moreover have "good_entry (map (\<lambda>e. e\<lparr>en_json := True\<rparr>) initialize ! i)" if "i < 8" for i
    using default_entries server_entries(4) that nth_mem[of i "take 8 initialize"] by simp
  then have "good_tab tab" using tab t server_entries(4) by (simp add: good_tab_def wf_tab_def)
  ultimately show thesis using tab t by (intro that[of tab cfg]) simp_all
qed

section \<open>Properties\<close>

lemma entry_path_nth:
  assumes "good_tab tab" "i < 12"
  shows "en_json_path (config_entries tab ! i) = [''interface'', ''tick_delay'', ''cache_size'', ''transaction_duration'',
      ''lease_expiration_check'', ''log_verbosity'', ''lease_time'', ''db_enable'', ''acl_enable'', ''acl_blacklist'', ''dynamic_acl'',
      ''acl_entries''] ! i"
proof -
  have "i < length (config_entries tab)" using assms by (simp add: good_tab_def wf_tab_def)
  then show ?thesis
    using initial_paths(1)[of "config_entries tab"] assms(1) nth_map[of i "config_entries tab" en_json_path] by (simp add: good_tab_def)
qed

lemma entry_paths:
  assumes "good_tab tab"
  shows "en_json_path (config_entries tab ! 1) = ''tick_delay''" "en_json_path (config_entries tab ! 2) = ''cache_size''"
    "en_json_path (config_entries tab ! 3) = ''transaction_duration''" "en_json_path (config_entries tab ! 4) = ''lease_expiration_check''"
    "en_json_path (config_entries tab ! 5) = ''log_verbosity''" "en_json_path (config_entries tab ! 6) = ''lease_time''"
    "en_json_path (config_entries tab ! 7) = ''db_enable''" "i < 8 \<Longrightarrow> en_json_path (config_entries tab ! i) \<noteq> ''trans_duration''"
    "en_type (config_entries tab ! 1) = NUMERIC" "en_type (config_entries tab ! 2) = NUMERIC" "en_type (config_entries tab ! 4) = NUMERIC"
    "en_type (config_entries tab ! 5) = NUMERIC" "en_type (config_entries tab ! 6) = NUMERIC" "en_type (config_entries tab ! 7) = BOOLEAN"
proof -
  let ?es = "config_entries tab"
  have len: "length ?es = 12" using assms by (simp add: good_tab_def wf_tab_def)
  note paths = entry_path_nth[OF assms]
  have types: "en_type (?es ! i) = [STRING, NUMERIC, NUMERIC, NUMERIC, NUMERIC, NUMERIC, NUMERIC, BOOLEAN, BOOLEAN, BOOLEAN, BOOLEAN, STRING] ! i"
    if "i < 12" for i
    using initial_paths(2)[of ?es] assms nth_map[of i ?es en_type] that len by (simp add: good_tab_def)
  show "en_json_path (?es ! 1) = ''tick_delay''" "en_json_path (?es ! 2) = ''cache_size''"
    "en_json_path (?es ! 3) = ''transaction_duration''" "en_json_path (?es ! 4) = ''lease_expiration_check''"
    "en_json_path (?es ! 5) = ''log_verbosity''" "en_json_path (?es ! 6) = ''lease_time''" "en_json_path (?es ! 7) = ''db_enable''"
    "en_type (?es ! 1) = NUMERIC" "en_type (?es ! 2) = NUMERIC" "en_type (?es ! 4) = NUMERIC"
    "en_type (?es ! 5) = NUMERIC" "en_type (?es ! 6) = NUMERIC" "en_type (?es ! 7) = BOOLEAN"
    by (simp_all add: paths types)
  show "en_json_path (?es ! i) \<noteq> ''trans_duration''" if "i < 8"
    using that paths[of i] by (auto simp: less_Suc_eq numeral_eq_Suc)
qed

text \<open>A configuration of the server that the command line left as it is at the start.\<close>

definition unset_config :: "config \<Rightarrow> bool" where
  "unset_config c \<longleftrightarrow> tick_delay c = 0 \<and> cache_size c = 0 \<and> trans_duration c = 0 \<and> conf_lease_check c = 0 \<and> lease_time c = 0 \<and>
     log_verbosity c = 0 \<and> db_enable c = CONFIG_UNTOUCHED"

text \<open>A server that starts on the same host.\<close>

definition bare_config :: config where
  "bare_config = \<lparr>config_path = [], interface = [], conf_bound_ip = 0, conf_broadcast_addr = 0, tick_delay = 0, cache_size = 0,
     trans_duration = 0, conf_lease_check = 0, lease_time = 0, log_verbosity = 0, acl_enable = CONFIG_UNTOUCHED,
     dynamic_acl_enable = CONFIG_UNTOUCHED, acl_blacklist = CONFIG_UNTOUCHED, db_enable = CONFIG_UNTOUCHED\<rparr>"

definition gui_host :: "string conf_env" where
  "gui_host = \<lparr>ce_json = tagged_json, ce_open = (\<lambda>_. True), ce_files = Map.empty, ce_ifaddrs = None\<rparr>"

text \<open>Typing a value of the right type into an entry.\<close>

lemma edited_entry:
  assumes "good_tab tab" "i < length (config_entries tab)" "en_type (config_entries tab ! i) = NUMERIC \<longrightarrow> (\<exists>n. stoi v = Inr n)"
  shows "good_tab (tab\<lparr>config_entries := (config_entries tab)[i := (config_entries tab ! i)\<lparr>en_val := v\<rparr>]\<rparr>)"
proof -
  let ?f = "\<lambda>e. (en_json_path e, en_type e)" and ?es = "config_entries tab"
  have "map ?f (?es[i := (?es ! i)\<lparr>en_val := v\<rparr>]) = (map ?f ?es)[i := map ?f ?es ! i]" using assms(2) by (simp add: map_update)
  then have "map ?f (?es[i := (?es ! i)\<lparr>en_val := v\<rparr>]) = map ?f ?es" by simp
  moreover have "good_entry ((?es ! i)\<lparr>en_val := v\<rparr>)" if "i < 8"
    using assms(1,3) that by (auto simp: good_tab_def good_entry_def)
  ultimately show ?thesis using assms(1,2) by (auto simp: good_tab_def nth_list_update wf_tab_def)
qed

lemma edited_tree:
  assumes "loaded_tree g es cfg"
  shows "loaded_tree g (es[i := (es ! i)\<lparr>en_val := v\<rparr>]) cfg"
proof -
  let ?es = "es[i := (es ! i)\<lparr>en_val := v\<rparr>]"
  have "en_json_path (?es ! k) = en_json_path (es ! k) \<and> typed_item g (?es ! k) j = typed_item g (es ! k) j" for k j
    by (cases "k = i"; cases "i < length es") (simp_all add: typed_item_def list_update_beyond)
  then show ?thesis using assms by (simp add: loaded_tree_def)
qed

text \<open>The tab of a host without a configuration file.\<close>

lemma plain_host:
  "gui_json_ok (ge_json (plain_gui con))" "ge_can_write (plain_gui con) ''/etc/dhcp/config.json''"
  "ce_json gui_host = gj_json (ge_json (plain_gui con))" "ce_open gui_host ''/etc/dhcp/config.json''" "unset_config bare_config"
  "ce_json gui_host = tagged_json"
  by (simp_all add: plain_gui_def gui_tagged_ok gui_host_def unset_config_def bare_config_def) (simp add: gui_tagged_def)

lemma plain_tab:
  obtains tab cfg where "TabConfig (plain_gui con) Map.empty = Inr tab" "config_tree tab = Some cfg"
    "loaded_tree (ge_json (plain_gui con)) (config_entries tab) cfg"
    "config_entries tab = map (\<lambda>e. e\<lparr>en_json := True\<rparr>) initialize" "pools_pools tab = []" "options_config_entries tab = [[]]" "good_tab tab"
    "\<exists>sec. cj_get (gj_json (ge_json (plain_gui con))) cfg ''security'' = Some sec \<and> typed_security (ge_json (plain_gui con)) sec"
  using plain_host(1) by (rule TabConfig_fresh) simp




definition lan_conf :: pool_conf where
  "lan_conf = \<lparr>pc_name = ''lan'', pc_start = uint32_to_ipv4_address 0xC0A80064, pc_end = uint32_to_ipv4_address 0xC0A80068,
     pc_subnet = uint32_to_ipv4_address 0xFFFFFF00\<rparr>"


text \<open>
  Apply damages the entry of the interface: it works through a reference to the first entry, so
  that afterwards this entry is the one of the database switch and no entry of the tab is the
  one of the interface any more; the input of the interface then changes the database switch's
  text, and the next Apply does not write the interface.
\<close>

theorem apply_overwrites_interface:
  assumes "gui_json_ok (ge_json env)" "ge_can_write env ''/etc/dhcp/config.json''" "good_tab tab"
    and "config_tree tab = Some cfg" "loaded_tree (ge_json env) (config_entries tab) cfg"
  shows "\<exists>tab' fs'. apply_settings env fs tab = Inr (0, tab', fs') \<and>
     config_entries tab' = (config_entries tab)[0 := (config_entries tab ! 7)\<lparr>en_json := True\<rparr>] \<and>
     (\<forall>e \<in> set (config_entries tab'). en_json_path e \<noteq> ''interface'')"
proof -
  let ?es = "config_entries tab"
  have len: "length ?es = 12" using assms(3) by (simp add: good_tab_def wf_tab_def)
  have "en_json_path (?es[0 := (?es ! 7)\<lparr>en_json := True\<rparr>] ! i) \<noteq> ''interface''" if "i < 12" for i
  proof (cases "i = 0")
    case True
    then show ?thesis using len entry_paths(7)[OF assms(3)] by (simp add: nth_list_update)
  next
    case False
    then have "i \<in> {1, 2, 3, 4, 5, 6, 7, 8, 9, 10, 11}" using that unfolding insert_iff empty_iff by presburger
    then show ?thesis using entry_path_nth[OF assms(3) that] False by auto
  qed
  then have "\<forall>e \<in> set (?es[0 := (?es ! 7)\<lparr>en_json := True\<rparr>]). en_json_path e \<noteq> ''interface''"
    using len by (auto simp: in_set_conv_nth)
  moreover obtain tab' fs' where "apply_settings env fs tab = Inr (0, tab', fs')" "config_entries tab' = ?es[0 := (?es ! 7)\<lparr>en_json := True\<rparr>]"
    using assms by (rule apply_settings_eq)
  ultimately show ?thesis by auto
qed

theorem apply_overwrites_interface_witness:
  "\<exists>tab tab' fs'. TabConfig (plain_gui No_socket) Map.empty = Inr tab \<and> en_json_path (config_entries tab ! 0) = ''interface'' \<and>
     apply_settings (plain_gui No_socket) Map.empty tab = Inr (0, tab', fs') \<and> en_json_path (config_entries tab' ! 0) = ''db_enable''"
proof -
  obtain tab cfg where tab: "TabConfig (plain_gui No_socket) Map.empty = Inr tab" "config_tree tab = Some cfg"
    "loaded_tree (ge_json (plain_gui No_socket)) (config_entries tab) cfg"
    "config_entries tab = map (\<lambda>e. e\<lparr>en_json := True\<rparr>) initialize" "pools_pools tab = []" "options_config_entries tab = [[]]" "good_tab tab"
    by (rule plain_tab)
  show ?thesis
    using apply_overwrites_interface[OF plain_host(1,2) tab(7,2,3), of Map.empty] tab(1,4)
    by (auto simp: initialize_def text_entry_def switch_entry_def)
qed

text \<open>
  C20. A session with the configuration tab keeps the lists of pools and of options in step: whatever
  the user does after a file was loaded, there is one list of options for each pool and one for
  all, and the twelve entries stay. Apply then never leaves its arrays or follows a dangling
  pointer; the only way it fails is an exception of a text that is no number.
\<close>

theorem config_session_wf:
  assumes "TabConfig env fs0 = Inr tab0" "options_config_entries tab0 \<noteq> []" "(config_step env)\<^sup>*\<^sup>* (tab0, fs0) (tab, fs)"
  shows "length (options_config_entries tab) = length (pools_pools tab) + 1 \<and> length (config_entries tab) = CONFIG_COUNT \<and>
     (apply_settings env fs tab = Inl e \<longrightarrow> e = Uncaught)"
proof -
  have "wf_tab tab" using config_tab.run_keeps[OF assms(3)] TabConfig_loaded[OF assms(1,2)] by simp
  then show ?thesis using apply_settings_fault[of tab env fs e] by (simp add: wf_tab_def)
qed

theorem config_session_wf_witness:
  "\<exists>tab0 tab. TabConfig (plain_gui No_socket) Map.empty = Inr tab0 \<and> pool_ctl False tab0 = Inr tab \<and>
     pools_pools tab = [new_pool_conf] \<and> length (options_config_entries tab) = 2 \<and> length (config_entries tab) = 12"
proof -
  obtain tab0 where tab0: "TabConfig (plain_gui No_socket) Map.empty = Inr tab0" "pools_pools tab0 = []" "options_config_entries tab0 = [[]]"
    by (rule plain_tab)
  then obtain tab where tab: "pool_ctl False tab0 = Inr tab" "pools_pools tab = [new_pool_conf]"
    by (simp add: pool_ctl_def pools_refresh_def options_load_def load_option_list_def Let_def vec_get_def)
  then have "(config_step (plain_gui No_socket))\<^sup>*\<^sup>* (tab0, Map.empty) (tab, Map.empty)"
    by (intro r_into_rtranclp config_step.Pool_button)
  from config_session_wf[OF tab0(1) _ this] tab0 tab show ?thesis by auto
qed

end
