(* ===== verification/Gui_reload.thy ===== *)
theory Gui_reload
  imports Gui_apply
begin

text \<open>
  Loading the configuration file again after the button "Apply" of the configuration tab: what the
  tab shows then, and what it has lost.
\<close>

section \<open>Options and pools\<close>

text \<open>An option that is loaded as it was saved: no truth value, and a number as it is printed.\<close>

definition clean_option :: "option_conf \<Rightarrow> bool" where
  "clean_option oc \<longleftrightarrow> good_option oc \<and> gui_tag_to_type (oc_tag oc) \<noteq> DHCP_OPTION_BOOL \<and>
     (gui_tag_to_type (oc_tag oc) = DHCP_OPTION_NUMERIC \<longrightarrow> oc_value oc = to_string (text_number (oc_value oc)))"

lemma to_string_nonempty [simp]: "to_string i \<noteq> []" "[] \<noteq> to_string i"
  by (simp_all add: to_string_def dec.simps)

lemma no_address: "ipv4_address_to_uint32 [] = 0"
  by (simp add: ipv4_address_to_uint32_def scan_ipv4_def scan_u_def scan_sign_def)

lemma clean_option_value: "clean_option oc \<Longrightarrow> oc_value oc \<noteq> []"
  by (auto simp: clean_option_def good_option_def no_address split: dhcp_option_type.splits)

lemma load_option_saved:
  assumes ok: "gui_json_ok g" and clean: "clean_option oc"
  shows "load_option g (option_json g oc) = Inr (sized oc)"
proof -
  have good: "good_option oc" using clean by (simp add: clean_option_def)
  then obtain v where v: "option_value_json g (sized oc) = Inr v" by (rule good_option_value)
  note get = option_json_get[OF ok v]
  have len: "0 < oc_lenght (sized oc)" "oc_lenght (sized oc) < 256" "0 < oc_tag oc" "oc_tag oc < 256"
    using good_option_range[OF good] good by (simp_all add: good_option_def)
  have int: "gj_int g (Some (gj_of_int g i)) = i \<and> gj_fixed g (Some (gj_of_int g i)) = to_string i" if "0 \<le> i" "i < 2 ^ 31" for i
    using json_laws(3)[OF ok] that by (simp add: json_values_def)
  have str: "cj_string (gj_json g) (cj_of_string (gj_json g) t) = Some t" for t
    using json_laws(2)[OF ok] by (simp add: cjson_prints_def)
  have new: "\<lparr>oc_tag = oc_tag oc, oc_lenght = oc_lenght (sized oc), oc_value = oc_value oc\<rparr> = sized oc" by (simp add: sized_def)
  show ?thesis
    using good
  proof (cases rule: good_option_cases)
    case (NUMERIC n)
    then have "oc_value oc = to_string n" using clean by (simp add: clean_option_def text_number_def)
    moreover have "v = gj_of_int g n" using NUMERIC v by (simp add: option_value_json_def)
    ultimately show ?thesis using NUMERIC len int new by (simp add: load_option_def get Let_def)
  qed (use clean v len int str new in \<open>auto simp: load_option_def get option_value_json_def clean_option_def member_string_def string_of_def Let_def\<close>)
qed

lemma load_options_saved:
  assumes "gui_json_ok g"
  shows "\<forall>oc \<in> set ocs. clean_option oc \<Longrightarrow> load_options g (map (option_json g) ocs) = Inr (map sized ocs)"
  by (induction ocs) (simp_all add: load_option_saved[OF assms] clean_option_value)

lemma load_pool_conf_saved:
  assumes "gui_json_ok g"
  shows "load_pool_conf g (pool_json g p js) = Inr p" "add_missing g ''options'' v (pool_json g p js) = pool_json g p js"
proof -
  have "cj_string (gj_json g) (cj_of_string (gj_json g) t) = Some t" for t
    using json_laws(2)[OF assms] by (simp add: cjson_prints_def)
  then show "load_pool_conf g (pool_json g p js) = Inr p"
    by (simp add: load_pool_conf_def member_string_def pool_json_get[OF assms] string_of_def)
  show "add_missing g ''options'' v (pool_json g p js) = pool_json g p js" by (simp add: add_missing_def pool_json_get[OF assms])
qed

lemma load_pool_confs_saved:
  assumes "gui_json_ok g"
  shows "length ps = length jss \<Longrightarrow> \<forall>p \<in> set ps. pool_conf_ok p \<Longrightarrow>
    load_pool_confs g (map2 (pool_json g) ps jss) = Inr (0, ps, map2 (pool_json g) ps jss)"
  by (induction ps jss rule: list_induct2) (simp_all add: load_pool_conf_saved[OF assms] Let_def)

lemma load_pool_options_saved:
  assumes ok: "gui_json_ok g"
  shows "length ps = length oss \<Longrightarrow> \<forall>os \<in> set oss. \<forall>oc \<in> set os. clean_option oc \<Longrightarrow>
    load_pool_options g (map2 (pool_json g) ps (map (map (option_json g)) oss)) = Inr (map (map sized) oss)"
  by (induction ps oss rule: list_induct2)
    (simp_all add: load_dhcp_config_def pool_json_get[OF ok] empty_config_get(9)[OF ok] load_options_saved[OF ok])

section \<open>Entries\<close>

text \<open>What a new entry shows after the value of a saved one was loaded.\<close>

definition reloaded :: "conf_entry \<Rightarrow> conf_entry \<Rightarrow> conf_entry" where
  "reloaded e f = (case en_type e of
     NUMERIC \<Rightarrow> e\<lparr>en_json := True, en_val := to_string (text_number (en_val f))\<rparr>
   | BOOLEAN \<Rightarrow> e\<lparr>en_json := True, en_val_i := (if en_val_i f \<noteq> 0 then 1 else 0)\<rparr>
   | _ \<Rightarrow> e\<lparr>en_json := True, en_val := en_val f\<rparr>)"

lemma load_entry_saved:
  assumes "gui_json_ok g" "cj_get (gj_json g) s (en_json_path e) = Some (entry_value g f)" "en_type f = en_type e" "en_type e \<noteq> IP"
  shows "load_entry g (Some s) e = (0, Some s, reloaded e f)"
proof -
  have "- (2 ^ 31) \<le> text_number t \<and> text_number t < 2 ^ 31" for t
    by (auto simp: text_number_def split: sum.splits dest: stoi_range)
  then have num: "cj_is_number (gj_json g) (gj_of_int g (text_number t))"
    "gj_fixed g (Some (gj_of_int g (text_number t))) = to_string (text_number t)" for t
    using json_laws(3)[OF assms(1)] by (auto simp: json_values_def)
  have "cj_is_bool (gj_json g) (gj_of_bool g b)" "cj_is_true (gj_json g) (gj_of_bool g b) = b"
    "cj_string (gj_json g) (cj_of_string (gj_json g) t) = Some t" for b t
    using json_laws(2,3)[OF assms(1)] by (simp_all add: json_values_def cjson_prints_def)
  with num show ?thesis
    using assms(2-4) by (cases "en_type e") (simp_all add: load_entry_def member_def entry_value_def reloaded_def Let_def)
qed

lemma load_entries_saved:
  assumes "gui_json_ok g"
  shows "list_all2 (\<lambda>e f. cj_get (gj_json g) s (en_json_path e) = Some (entry_value g f) \<and> en_type f = en_type e \<and> en_type e \<noteq> IP) es fs \<Longrightarrow>
    load_entries g (Some s) es = (0, Some s, map2 reloaded es fs)"
  by (induction es fs rule: list_all2_induct) (simp_all add: load_entry_saved[OF assms])

section \<open>The section \<open>security\<close>\<close>

lemma set_bool_typed:
  assumes ok: "gui_json_ok g" and sec: "typed_security g sec" and e: "lower_case (en_json_path e)" "en_json_path e \<noteq> ''acl_entries''"
  shows "typed_security g (set_bool g e sec)"
proof -
  have bool: "cj_is_bool (gj_json g) (gj_of_bool g b)" for b using json_laws(3)[OF ok] by (simp add: json_values_def)
  show ?thesis
  proof (cases "set_bool g e sec = sec")
    case False
    then have set: "set_bool g e sec = gj_put g sec (en_json_path e) (gj_of_bool g (en_val_i e \<noteq> 0))"
      by (auto simp: set_bool_def split: option.splits if_splits)
    have "gj_is_object g sec" using sec by (simp add: typed_security_def)
    note put = json_put[OF ok this e(1)]
    show ?thesis using sec e(2) bool unfolding set typed_security_def has_bool_def
      by (simp add: put security_names)
  qed (simp add: sec)
qed

lemma apply_security_typed:
  assumes ok: "gui_json_ok g" and sec: "typed_security g sec" and json: "en_json (es ! CONF_SEC_ACL_ENTRIES)"
    and paths: "en_json_path (es ! CONF_SEC_ACL_ENABLE) = ''acl_enable''" "en_json_path (es ! CONF_SEC_ACL_MODE) = ''acl_blacklist''"
      "en_json_path (es ! CONF_SEC_DYN_ACL_ENABLE) = ''dynamic_acl''"
  obtains a where "typed_security g (apply_security g es acl sec)"
    "cj_get (gj_json g) (apply_security g es acl sec) ''acl_entries'' = Some a" "gj_is_array g a"
    "cj_items (gj_json g) a = map (cj_of_string (gj_json g)) acl"
proof -
  define t where "t = set_bool g (es ! CONF_SEC_ACL_MODE) (set_bool g (es ! CONF_SEC_ACL_ENABLE) (set_bool g (es ! CONF_SEC_DYN_ACL_ENABLE) sec))"
  have t: "typed_security g t" unfolding t_def using sec paths by (intro set_bool_typed[OF ok]) (simp_all add: security_names)
  have eq: "apply_security g es acl sec = cj_with_array (gj_json g) t ''acl_entries'' (map (cj_of_string (gj_json g)) acl)"
    using json by (simp add: apply_security_def t_def)
  obtain a0 where a0: "cj_get (gj_json g) t ''acl_entries'' = Some a0" "gj_is_array g a0" and obj: "gj_is_object g t"
    using t by (auto simp: typed_security_def)
  obtain a where a: "cj_get (gj_json g) (apply_security g es acl sec) ''acl_entries'' = Some a" "gj_is_array g a"
    "cj_items (gj_json g) a = map (cj_of_string (gj_json g)) acl"
    unfolding eq using a0 by (rule json_array[OF ok])
  have "cj_get (gj_json g) (apply_security g es acl sec) k = cj_get (gj_json g) t k" "gj_is_object g (apply_security g es acl sec)"
    if "lower_case k" "k \<noteq> ''acl_entries''" for k
    unfolding eq using json_with_array[OF ok obj security_names(4) that] by simp_all
  note keep = this(1)[OF security_names(1)] this(1)[OF security_names(2)] this(1)[OF security_names(3)] this(2)[OF security_names(1)]
  have "typed_security g (apply_security g es acl sec)"
    using t a(1,2) keep by (simp add: typed_security_def has_bool_def)
  with a show thesis by (intro that)
qed

lemma strings_of_Some: "strings_of (map Some ss) = Inr ss"
  by (induction ss) (simp_all add: string_of_def)

lemma load_security_saved:
  assumes ok: "gui_json_ok g" and sec: "cj_get (gj_json g) cfg ''security'' = Some sec" "typed_security g sec"
    and acl: "cj_get (gj_json g) sec ''acl_entries'' = Some a" "gj_is_array g a" "cj_items (gj_json g) a = map (cj_of_string (gj_json g)) ss"
  shows "load_security g cfg tab = Inr (0, gj_put g cfg ''security'' sec, tab\<lparr>config_entries := take 8 (config_entries tab) @
     map (\<lambda>e. e\<lparr>en_json := True\<rparr>) (drop 8 (config_entries tab)), security_acl_entries := ss, security_acl_entries_size_last := length ss\<rparr>)"
proof -
  have "complete_security g (config_entries tab) sec = sec"
    using sec(2) acl(1) by (auto simp: complete_security_def add_missing_def typed_security_def has_bool_def)
  moreover have "map (cj_string (gj_json g)) (map (cj_of_string (gj_json g)) ss) = map Some ss"
    using json_laws(2)[OF ok] by (simp add: cjson_prints_def comp_def)
  ultimately show ?thesis
    using sec acl strings_of_Some[of ss]
    by (auto simp: load_security_def Let_def typed_security_def has_bool_def simp del: map_map)
qed

section \<open>The file\<close>

lemma load_pools_part_saved:
  assumes ok: "gui_json_ok g" and cfg: "gj_is_object g cfg" "cj_get (gj_json g) cfg ''pools'' = Some po" "cj_get (gj_json g) cfg ''options'' = Some op"
    and items: "cj_items (gj_json g) po = map2 (pool_json g) ps (map (map (option_json g)) oss)" "cj_items (gj_json g) op = map (option_json g) global"
    and good: "length ps = length oss" "\<forall>p \<in> set ps. pool_conf_ok p" "\<forall>os \<in> set (global # oss). \<forall>oc \<in> set os. clean_option oc"
  obtains tab' where "load_pools_part g cfg tab = Inr (0, tab')" "config_entries tab' = config_entries tab" "pools_pools tab' = ps"
    "options_config_entries tab' = options_config_entries tab @ map (map sized) (global # oss)" "security_acl_entries tab' = security_acl_entries tab"
proof -
  let ?es = "map2 (pool_json g) ps (map (map (option_json g)) oss)"
  have confs: "load_pool_confs g ?es = Inr (0, ps, ?es)" using good(1,2) by (intro load_pool_confs_saved[OF ok]) simp_all
  have opts: "load_pool_options g ?es = Inr (map (map sized) oss)" using good(1,3) by (intro load_pool_options_saved[OF ok]) simp_all
  have "cj_get (gj_json g) (cj_with_array (gj_json g) cfg ''pools'' ?es) ''options'' = Some op"
    using json_with_array(2)[OF ok cfg(1) section_names(3,4)] cfg(3) by simp
  moreover have "load_dhcp_config g (Some op) = Inr (map sized global)"
    using good(3) by (simp add: load_dhcp_config_def items(2) load_options_saved[OF ok])
  ultimately have eq: "load_pools_part g cfg tab = Inr (0, tab\<lparr>config_tree := Some (cj_with_array (gj_json g) cfg ''pools'' ?es), pools_pools := ps,
      pools_entries := map pc_name ps, options_list := ''Global'' # map pc_name ps,
      options_config_entries := options_config_entries tab @ map (map sized) (global # oss)\<rparr>)"
    by (simp add: load_pools_part_def cfg(2) items(1) confs opts Let_def del: cbind_eq_Inr)
  show thesis by (rule that[OF eq]) simp_all
qed

lemma load_tree_saved:
  assumes ok: "gui_json_ok g" and cfg: "gj_is_object g cfg" "cj_get (gj_json g) cfg ''server'' = Some s" "cj_get (gj_json g) cfg ''security'' = Some sec"
      "cj_get (gj_json g) cfg ''pools'' = Some po" "cj_get (gj_json g) cfg ''options'' = Some op"
    and entries: "list_all2 (\<lambda>e f. cj_get (gj_json g) s (en_json_path e) = Some (entry_value g f) \<and> en_type f = en_type e \<and> en_type e \<noteq> IP)
      (take 8 initialize) fs"
    and sec: "typed_security g sec" "cj_get (gj_json g) sec ''acl_entries'' = Some a" "gj_is_array g a"
      "cj_items (gj_json g) a = map (cj_of_string (gj_json g)) ss"
    and items: "cj_items (gj_json g) po = map2 (pool_json g) ps (map (map (option_json g)) oss)" "cj_items (gj_json g) op = map (option_json g) global"
    and good: "length ps = length oss" "\<forall>p \<in> set ps. pool_conf_ok p" "\<forall>os \<in> set (global # oss). \<forall>oc \<in> set os. clean_option oc"
    and tab: "config_entries tab = initialize"
  obtains tab' where "load_tree g cfg tab = Inr (0, tab')"
    "config_entries tab' = map2 reloaded (take 8 initialize) fs @ map (\<lambda>e. e\<lparr>en_json := True\<rparr>) (drop 8 initialize)" "pools_pools tab' = ps"
    "options_config_entries tab' = options_config_entries tab @ map (map sized) (global # oss)" "security_acl_entries tab' = ss"
proof -
  let ?api = "gj_json g" and ?es = "map2 reloaded (take 8 initialize) fs"
  have len: "length ?es = 8" using list_all2_lengthD[OF entries] server_entries(4) by simp
  define c1 where "c1 = gj_put g cfg ''server'' s"
  define c2 where "c2 = gj_put g c1 ''security'' sec"
  have c1: "gj_is_object g c1" "\<And>k. lower_case k \<Longrightarrow> cj_get ?api c1 k = cj_get ?api cfg k"
    using json_put[OF ok cfg(1) section_names(1), where v = s] cfg(2) by (auto simp: c1_def)
  have c2: "gj_is_object g c2" "\<And>k. lower_case k \<Longrightarrow> cj_get ?api c2 k = cj_get ?api cfg k"
    using json_put[OF ok c1(1) section_names(2), where v = sec] c1(2) cfg(3) by (auto simp: c2_def)
  define tab1 where "tab1 = tab\<lparr>config_tree := Some c1, config_entries := ?es @ drop 8 initialize\<rparr>"
  have "cj_get ?api c1 ''security'' = Some sec" using c1(2)[OF section_names(2)] cfg(3) by simp
  note security = load_security_saved[OF ok this sec, of tab1, folded c2_def]
  define tab2 where "tab2 = tab1\<lparr>config_entries := ?es @ map (\<lambda>e. e\<lparr>en_json := True\<rparr>) (drop 8 initialize), security_acl_entries := ss,
    security_acl_entries_size_last := length ss, config_tree := Some c2\<rparr>"
  have "load_tree g cfg tab = load_pools_part g c2 tab2"
    unfolding load_tree_def cfg(2) tab load_entries_saved[OF ok entries] Let_def prod.case option.case c1_def[symmetric] tab1_def[symmetric]
    using security len by (simp add: tab1_def tab2_def)
  moreover obtain tab' where "load_pools_part g c2 tab2 = Inr (0, tab')" "config_entries tab' = config_entries tab2" "pools_pools tab' = ps"
    "options_config_entries tab' = options_config_entries tab2 @ map (map sized) (global # oss)" "security_acl_entries tab' = security_acl_entries tab2"
    by (rule load_pools_part_saved[OF ok c2(1) _ _ items good]) (use c2(2) section_names cfg(4,5) in simp_all)
  ultimately show thesis by (intro that[of tab']) (simp_all add: tab2_def tab1_def)
qed

text \<open>Two entries that show the same setting.\<close>

definition same_setting :: "conf_entry \<Rightarrow> conf_entry \<Rightarrow> bool" where
  "same_setting e f \<longleftrightarrow> (case en_type f of NUMERIC \<Rightarrow> text_number (en_val e) = text_number (en_val f)
     | BOOLEAN \<Rightarrow> (en_val_i e \<noteq> 0) = (en_val_i f \<noteq> 0) | _ \<Rightarrow> en_val e = en_val f)"

lemma reloaded_same: "en_type f = en_type e \<Longrightarrow> same_setting (reloaded e f) f"
proof -
  have "- (2 ^ 31) \<le> text_number t \<and> text_number t < 2 ^ 31" for t
    by (auto simp: text_number_def split: sum.splits dest: stoi_range)
  then have "text_number (to_string (text_number t)) = text_number t" for t
    using stoi_to_string[of "text_number t"] by (simp add: text_number_def[of "to_string _"])
  then show "en_type f = en_type e \<Longrightarrow> same_setting (reloaded e f) f"
    by (cases "en_type e") (simp_all add: same_setting_def reloaded_def)
qed

lemma initial_types: "e \<in> set initialize \<Longrightarrow> en_type e \<noteq> IP"
  by (auto simp: initialize_def text_entry_def switch_entry_def)

lemma saved_entries:
  assumes tab: "good_tab tab" and s: "\<forall>i < 8. cj_get (gj_json g) s (en_json_path (config_entries tab ! i)) = Some (entry_value g (config_entries tab ! i))"
  shows "list_all2 (\<lambda>e f. cj_get (gj_json g) s (en_json_path e) = Some (entry_value g f) \<and> en_type f = en_type e \<and> en_type e \<noteq> IP)
    (take 8 initialize) (take 8 (config_entries tab))"
proof -
  let ?f = "\<lambda>e. (en_json_path e, en_type e)"
  have len: "length (config_entries tab) = 12" "length initialize = 12" and "map ?f (config_entries tab) = map ?f initialize"
    using tab server_entries(4) by (simp_all add: good_tab_def wf_tab_def)
  then have "?f (config_entries tab ! i) = ?f (initialize ! i)" if "i < 12" for i
    using that nth_map[of i "config_entries tab" ?f] nth_map[of i initialize ?f] by simp
  then show ?thesis
    using s len initial_types[OF nth_mem] by (auto simp: list_all2_conv_all_nth)
qed

text \<open>A new session on a file with the values of a tab.\<close>

lemma TabConfig_saved:
  assumes ok: "gui_json_ok (ge_json env)" and tab: "good_tab tab"
    and text_file: "fs ''/etc/dhcp/config.json'' = Some (cj_print (gj_json (ge_json env)) cfg @ [CHR 0x0A])" "ge_can_open env ''/etc/dhcp/config.json''"
    and cfg: "gj_is_object (ge_json env) cfg" "cj_get (gj_json (ge_json env)) cfg ''server'' = Some s"
      "cj_get (gj_json (ge_json env)) cfg ''security'' = Some sec"
      "cj_get (gj_json (ge_json env)) cfg ''pools'' = Some po" "cj_get (gj_json (ge_json env)) cfg ''options'' = Some op"
    and s: "\<forall>i < 8. cj_get (gj_json (ge_json env)) s (en_json_path (config_entries tab ! i)) = Some (entry_value (ge_json env) (config_entries tab ! i))"
    and sec: "typed_security (ge_json env) sec" "cj_get (gj_json (ge_json env)) sec ''acl_entries'' = Some a" "gj_is_array (ge_json env) a"
      "cj_items (gj_json (ge_json env)) a = map (cj_of_string (gj_json (ge_json env))) ss"
    and items: "cj_items (gj_json (ge_json env)) po = map2 (pool_json (ge_json env)) (pools_pools tab)
        (map (map (option_json (ge_json env))) (tl (options_config_entries tab)))"
      "cj_items (gj_json (ge_json env)) op = map (option_json (ge_json env)) (hd (options_config_entries tab))"
    and clean: "\<forall>os \<in> set (options_config_entries tab). \<forall>oc \<in> set os. clean_option oc"
  obtains tab' where "TabConfig env fs = Inr tab'" "pools_pools tab' = pools_pools tab" "security_acl_entries tab' = ss"
    "options_config_entries tab' = map (map sized) (options_config_entries tab)"
    "\<forall>i < 8. same_setting (config_entries tab' ! i) (config_entries tab ! i)" "\<forall>i \<in> {8, 9, 10}. en_val_i (config_entries tab' ! i) = 1"
proof -
  let ?g = "ge_json env" and ?api = "gj_json (ge_json env)" and ?es = "config_entries tab"
  note entries = saved_entries[OF tab s]
  have len: "length ?es = 12" "length (options_config_entries tab) = length (pools_pools tab) + 1" "\<forall>p \<in> set (pools_pools tab). pool_conf_ok p"
    using tab by (simp_all add: good_tab_def wf_tab_def)
  obtain global oss where oss: "options_config_entries tab = global # oss" "length (pools_pools tab) = length oss"
    using len(2) by (cases "options_config_entries tab") simp_all
  obtain t where t: "load_tree ?g cfg new_tab = Inr (0, t)"
    "config_entries t = map2 reloaded (take 8 initialize) (take 8 ?es) @ map (\<lambda>e. e\<lparr>en_json := True\<rparr>) (drop 8 initialize)"
    "pools_pools t = pools_pools tab" "options_config_entries t = map (map sized) (global # oss)"
    "security_acl_entries t = ss"
    by (rule load_tree_saved[OF ok cfg entries sec items[unfolded oss(1) list.sel] oss(2) len(3) clean[unfolded oss(1)] new_tab_simps(1)])
      (simp add: that)
  have "cj_parse ?api (cj_print ?api cfg @ [CHR 0x0A] @ ge_behind env) = Some cfg" using json_laws(1)[OF ok] unfolding cjson_ok_def by blast
  then have "load_config_file env fs new_tab = Inr (0, t)" using t(1) text_file by (simp add: load_config_file_def read_buffer_def)
  then obtain tab' where new: "TabConfig env fs = Inr tab'" "config_entries tab' = config_entries t"
    "options_config_entries tab' = options_config_entries t" "pools_pools tab' = pools_pools t" "security_acl_entries tab' = security_acl_entries t"
    by (rule TabConfig_load)
  have "same_setting (config_entries tab' ! i) (?es ! i)" if "i < 8" for i
  proof -
    have "en_type (?es ! i) = en_type (initialize ! i)"
      using entries that len(1) server_entries(4) by (auto simp: list_all2_conv_all_nth)
    then show ?thesis using that len(1) server_entries(4) by (simp add: new(2) t(2) nth_append reloaded_same)
  qed
  moreover have "en_val_i (config_entries tab' ! i) = 1" if "i \<in> {8, 9, 10}" for i
    using that len(1) by (auto simp: new(2) t(2) nth_append initialize_def switch_entry_def)
  ultimately show thesis using new t(3-5) oss(1) by (intro that[of tab']) simp_all
qed

section \<open>Properties\<close>



end
