(* ===== verification/Gui_logs.thy ===== *)
theory Gui_logs
  imports Gui_command
begin

text \<open>
  The log tab of the user interface (\<open>gui/src/tab_logs.cpp\<close>): the entries are the times in the
  names of the server's log files, the content is the selected file, wrapped at the width of the
  terminal.
\<close>

section \<open>The tab\<close>

record tab_logs =
  logs_selected :: int
  log_selected :: int
  log_selected_last :: int
  logs_entries :: "string list"
  log_content :: "string list"

definition logs_path :: string where
  "logs_path = ''/var/log/dhcps/''"

text \<open>The loop over the directory.\<close>

fun log_times :: "string list \<Rightarrow> string list c" where
  "log_times [] = Inr []"
| "log_times (path # paths) = cbind (substr path 24 19) (\<lambda>t. cbind (log_times paths) (\<lambda>ts. Inr (t # ts)))"

text \<open>\<open>dir\<close> are the paths the directory iterator visits, \<open>None\<close> when there is no directory: it then throws.\<close>

definition load_log_entries :: "string list option \<Rightarrow> tab_logs \<Rightarrow> tab_logs c" where
  "load_log_entries dir tab =
     (case dir of None \<Rightarrow> Inl Uncaught
      | Some paths \<Rightarrow> cbind (log_times paths) (\<lambda>ts. Inr (tab\<lparr>logs_entries := ts\<rparr>)))"

text \<open>An \<open>int\<close> as \<open>size_t\<close>.\<close>

definition size_t :: "int \<Rightarrow> nat" where
  "size_t i = nat (i mod 2 ^ 64)"

text \<open>
  The rows of a line after the first. The index is an \<open>unsigned\<close>, the width an \<open>int\<close> that is added to it.
\<close>

partial_function (option) wrap_loop :: "string \<Rightarrow> int \<Rightarrow> u32 \<Rightarrow> string list \<Rightarrow> string list c option" where
  "wrap_loop s w i rows =
     (if unat i < length s then
        (case substr s (unat i) (size_t w) of
           Inl e \<Rightarrow> Some (Inl e)
         | Inr t \<Rightarrow> wrap_loop s w (i + word_of_int w) (rows @ [''    '' @ t]))
      else Some (Inr rows))"

declare wrap_loop.simps [code]

definition wrap_line :: "int \<Rightarrow> string \<Rightarrow> string list c" where
  "wrap_line columns s =
     (let dimx = columns - 25 in
      cbind (substr s 0 (size_t dimx)) (\<lambda>row.
        case wrap_loop s (dimx - 4) (word_of_int dimx) [row] of None \<Rightarrow> Inl Diverges | Some r \<Rightarrow> r))"

fun wrap_lines :: "int \<Rightarrow> string list \<Rightarrow> string list c" where
  "wrap_lines columns [] = Inr []"
| "wrap_lines columns (s # ss) = cbind (wrap_line columns s) (\<lambda>rows. cbind (wrap_lines columns ss) (\<lambda>rs. Inr (rows @ rs)))"

text \<open>A file that cannot be opened has no lines.\<close>

definition log_text :: "(string \<Rightarrow> bool) \<Rightarrow> files \<Rightarrow> string \<Rightarrow> string" where
  "log_text can_open fs path = (case fs path of Some s \<Rightarrow> if can_open path then s else [] | None \<Rightarrow> [])"

definition load_file :: "(string \<Rightarrow> bool) \<Rightarrow> files \<Rightarrow> int \<Rightarrow> tab_logs \<Rightarrow> tab_logs c" where
  "load_file can_open fs columns tab =
     (if logs_entries tab = [] then Inr (tab\<lparr>log_content := []\<rparr>)
      else cbind (vec_get (logs_entries tab) (logs_selected tab)) (\<lambda>e.
        let s = log_text can_open fs (logs_path @ ''dhcp-log-'' @ e @ ''.log'')
        in cbind (wrap_lines columns (getlines (CHR 0x0A) s)) (\<lambda>rows. Inr (tab\<lparr>log_content := rows\<rparr>))))"

definition logs_refresh :: "(string \<Rightarrow> bool) \<Rightarrow> files \<Rightarrow> string list option \<Rightarrow> int \<Rightarrow> tab_logs \<Rightarrow> tab_logs c" where
  "logs_refresh can_open fs dir columns tab =
     (if logs_selected tab = log_selected_last tab then Inr tab
      else cbind (load_log_entries dir tab) (\<lambda>tab.
           cbind (load_file can_open fs columns tab) (\<lambda>tab.
             Inr (tab\<lparr>log_selected_last := logs_selected tab\<rparr>))))"

definition TabLogs :: "string list option \<Rightarrow> tab_logs c" where
  "TabLogs dir = load_log_entries dir
     \<lparr>logs_selected = 0, log_selected = 0, log_selected_last = -1, logs_entries = [], log_content = []\<rparr>"

section \<open>Wrapping\<close>

text \<open>The reference: a text cut into pieces of one length.\<close>

function chunks :: "nat \<Rightarrow> string \<Rightarrow> string list" where
  "chunks w s = (if w = 0 \<or> s = [] then [] else take w s # chunks w (drop w s))"
  by auto
termination by (relation "measure (\<lambda>(w, s). length s)") auto

declare chunks.simps [simp del]

definition wrapped :: "nat \<Rightarrow> string \<Rightarrow> string list" where
  "wrapped n s = take n s # map (\<lambda>t. ''    '' @ t) (chunks (n - 4) (drop n s))"

definition unwrapped :: "string list \<Rightarrow> string" where
  "unwrapped rows = (case rows of [] \<Rightarrow> [] | r # rs \<Rightarrow> r @ concat (map (drop 4) rs))"

lemma concat_chunks: "0 < w \<Longrightarrow> concat (chunks w s) = s"
  by (induction w s rule: chunks.induct) (subst chunks.simps, auto)

lemma chunks_length: "t \<in> set (chunks w s) \<Longrightarrow> length t \<le> w"
  by (induction w s rule: chunks.induct) (subst (asm) chunks.simps, auto split: if_splits)

lemma unwrap_wrapped:
  assumes "5 \<le> n"
  shows "unwrapped (wrapped n s) = s"
proof -
  have "concat (map (drop 4 \<circ> (\<lambda>t. ''    '' @ t)) (chunks (n - 4) (drop n s))) = concat (chunks (n - 4) (drop n s))"
    by (simp add: comp_def)
  then show ?thesis using assms by (simp add: unwrapped_def wrapped_def concat_chunks)
qed

lemma wrapped_width: "5 \<le> n \<Longrightarrow> r \<in> set (wrapped n s) \<Longrightarrow> length r \<le> n"
  by (auto simp: wrapped_def dest: chunks_length)

text \<open>The loop with a positive width; neither the index nor the sum wraps around.\<close>

lemma wrap_loop_chunks:
  assumes "0 < w" "w < 2 ^ 31" "length s < 2 ^ 31"
  shows "wrap_loop s w i rows = Some (Inr (rows @ map (\<lambda>t. ''    '' @ t) (chunks (nat w) (drop (unat i) s))))"
proof (induction "length s - unat i" arbitrary: i rows rule: less_induct)
  case less
  show ?case
  proof (cases "unat i < length s")
    case True
    have w: "unat (word_of_int w :: u32) = nat w"
      using assms(1,2) by (simp add: unat_eq_nat_uint uint_word_of_int_eq take_bit_int_eq_self)
    have i: "unat (i + word_of_int w) = unat i + nat w"
      using True assms(1-3) by (simp add: w unat_word_ariths)
    have "size_t w = nat w" using assms(1,2) by (simp add: size_t_def)
    then have "wrap_loop s w i rows = wrap_loop s w (i + word_of_int w) (rows @ [''    '' @ take (nat w) (drop (unat i) s)])"
      using True by (simp add: wrap_loop.simps[of s w i] substr_def)
    also have "\<dots> = Some (Inr ((rows @ [''    '' @ take (nat w) (drop (unat i) s)]) @
        map (\<lambda>t. ''    '' @ t) (chunks (nat w) (drop (unat (i + word_of_int w)) s))))"
      using True assms(1) i by (intro less.hyps) simp
    also have "\<dots> = Some (Inr (rows @ map (\<lambda>t. ''    '' @ t) (chunks (nat w) (drop (unat i) s))))"
      using True assms(1) by (subst chunks.simps[of _ "drop (unat i) s"]) (simp add: i add.commute)
    finally show ?thesis .
  next
    case False
    then show ?thesis by (simp add: wrap_loop.simps[of s w i] chunks.simps)
  qed
qed

lemma wrap_line_wrapped:
  assumes "30 \<le> columns" "columns < 2 ^ 31" "length s < 2 ^ 31"
  shows "wrap_line columns s = Inr (wrapped (nat (columns - 25)) s)"
proof -
  have d: "unat (word_of_int (columns - 25) :: u32) = nat (columns - 25)" "size_t (columns - 25) = nat (columns - 25)"
    using assms(1,2) by (simp_all add: unat_eq_nat_uint uint_word_of_int_eq take_bit_int_eq_self size_t_def del: of_int_diff)
  have "wrap_loop s (columns - 25 - 4) (word_of_int (columns - 25)) [take (nat (columns - 25)) s] =
    Some (Inr ([take (nat (columns - 25)) s] @ map (\<lambda>t. ''    '' @ t)
      (chunks (nat (columns - 25 - 4)) (drop (unat (word_of_int (columns - 25) :: u32)) s))))"
    using assms d(1) by (intro wrap_loop_chunks) simp_all
  moreover have "nat (columns - 25 - 4) = nat (columns - 25) - 4" by simp
  ultimately show ?thesis
    by (simp add: wrap_line_def Let_def substr_def d wrapped_def del: of_int_diff)
qed

lemma wrap_lines_wrapped:
  assumes "30 \<le> columns" "columns < 2 ^ 31"
  shows "\<forall>s \<in> set ss. length s < 2 ^ 31 \<Longrightarrow> wrap_lines columns ss = Inr (concat (map (wrapped (nat (columns - 25))) ss))"
  by (induction ss) (simp_all add: wrap_line_wrapped[OF assms])

text \<open>
  What happens to the tab: a refresh, whatever the files and the directory are by then, and moving
  the selections of the two menus.
\<close>

inductive logs_step :: "int \<Rightarrow> tab_logs \<Rightarrow> tab_logs \<Rightarrow> bool" for columns where
  Refresh: "\<forall>s \<in> ran fs. length s < 2 ^ 31 \<Longrightarrow> logs_refresh can_open fs dir columns tab = Inr tab' \<Longrightarrow> logs_step columns tab tab'"
| Select: "logs_step columns tab (tab\<lparr>logs_selected := i, log_selected := k\<rparr>)"

inductive_cases logs_stepE: "logs_step columns tab tab'"

definition rows_fit :: "int \<Rightarrow> tab_logs \<Rightarrow> bool" where
  "rows_fit columns tab \<longleftrightarrow> (30 \<le> columns \<and> columns < 2 ^ 31 \<longrightarrow> (\<forall>r \<in> set (log_content tab). length r \<le> nat (columns - 25)))"

lemma log_times_names:
  assumes "\<forall>t \<in> set ts. length t = 19"
  shows "log_times (map (\<lambda>t. logs_path @ ''dhcp-log-'' @ t @ ''.log'') ts) = Inr ts"
  using assms by (induction ts) (simp_all add: logs_path_def substr_def)

text \<open>A terminal of 29 columns leaves no room for a continued row: the index then stands still.\<close>

lemma wrap_loop_stuck:
  assumes "unat i < length s"
  shows "wrap_loop s 0 i rows = None"
proof -
  have "w = 0 \<longrightarrow> \<not> unat i < length s" if "wrap_loop s w i rows = Some r" for w r
  proof (rule wrap_loop.raw_induct[where P = "\<lambda>s w i rows r. w = 0 \<longrightarrow> \<not> unat i < length s", OF _ that])
    fix f s w i rows r
    assume IH: "\<And>s w i rows r. f s w i rows = Some r \<Longrightarrow> w = 0 \<longrightarrow> \<not> unat i < length s"
      and "(if unat i < length s then (case substr s (unat i) (size_t w) of Inl e \<Rightarrow> Some (Inl e)
        | Inr t \<Rightarrow> f s w (i + word_of_int w) (rows @ [''    '' @ t])) else Some (Inr rows)) = Some r"
    then show "w = 0 \<longrightarrow> \<not> unat i < length s" using IH[of s 0 i] by (auto simp: substr_def)
  qed
  then show ?thesis using assms by (cases "wrap_loop s 0 i rows") auto
qed

lemma wrap_line_hangs: "4 < length s \<Longrightarrow> wrap_line 29 s = Inl Diverges"
  by (simp add: wrap_line_def Let_def substr_def wrap_loop_stuck)

lemma split_on_part: "p \<in> set (split_on sep s) \<Longrightarrow> length p \<le> length s"
  by (induction s arbitrary: p) (force split: list.splits if_splits)+

lemma getlines_part: "p \<in> set (getlines sep s) \<Longrightarrow> length p \<le> length s"
  by (auto simp: getlines_def Let_def dest: in_set_butlastD split_on_part split: if_splits)

lemma load_file_fits:
  assumes "load_file can_open fs columns tab = Inr tab'" "\<forall>s \<in> ran fs. length s < 2 ^ 31"
  shows "rows_fit columns tab'"
proof (cases "logs_entries tab = [] \<or> \<not> (30 \<le> columns \<and> columns < 2 ^ 31)")
  case True
  then show ?thesis using assms(1) by (auto simp: load_file_def rows_fit_def split: if_splits)
next
  case False
  have from_file: "log_text can_open fs path = [] \<or> log_text can_open fs path \<in> ran fs" for path
    by (auto simp: log_text_def ran_def split: option.splits)
  from False obtain s rows where s: "s = [] \<or> s \<in> ran fs" "wrap_lines columns (getlines (CHR 0x0A) s) = Inr rows" "log_content tab' = rows"
    using assms(1) by (auto simp: load_file_def Let_def split: if_splits intro: that[OF from_file])
  then have "\<forall>l \<in> set (getlines (CHR 0x0A) s). length l < 2 ^ 31"
    using getlines_part[of _ "CHR 0x0A" s] assms(2) by fastforce
  then have "rows = concat (map (wrapped (nat (columns - 25))) (getlines (CHR 0x0A) s))"
    using wrap_lines_wrapped[of columns] False s(2) by simp
  then show ?thesis using s(3) wrapped_width[of "nat (columns - 25)"] False by (auto simp: rows_fit_def)
qed

interpretation logs_tab: ui_session "logs_step columns" "rows_fit columns" for columns
proof
  fix tab tab' assume "logs_step columns tab tab'" "rows_fit columns tab"
  then show "rows_fit columns tab'"
    by (elim logs_stepE) (auto simp: logs_refresh_def rows_fit_def split: if_splits dest!: load_file_fits)
qed

text \<open>No row that is ever shown is wider than the space for it.\<close>

lemma shown_rows_fit:
  assumes "TabLogs dir = Inr tab0" "(logs_step columns)\<^sup>*\<^sup>* tab0 tab" "30 \<le> columns" "columns < 2 ^ 31" "r \<in> set (log_content tab)"
  shows "length r \<le> nat (columns - 25)"
proof -
  have "rows_fit columns tab0" using assms(1) by (auto simp: TabLogs_def load_log_entries_def rows_fit_def split: option.splits)
  with logs_tab.run_keeps[OF assms(2)] assms(3-5) show ?thesis by (auto simp: rows_fit_def)
qed

section \<open>Properties\<close>

text \<open>
  C25. The log tab shows the selected log file: on a terminal of at least 30 columns, the wrapping of
  each line ends, the rows of a line without their indentation are the line, no row is wider than
  the space for it, and the entries are the times of the log files.
\<close>

theorem logs_tab_shows:
  assumes "30 \<le> columns" "columns < 2 ^ 31" "\<forall>t \<in> set ts. length t = 19" "k < length ts"
    and "path = (\<lambda>t. logs_path @ ''dhcp-log-'' @ t @ ''.log'')" "fs (path (ts ! k)) = Some s" "can_open (path (ts ! k))" "length s < 2 ^ 31"
    and "logs_selected tab = int k" "log_selected_last tab \<noteq> int k"
  shows "\<exists>rows. logs_refresh can_open fs (Some (map path ts)) columns tab =
       Inr (tab\<lparr>logs_entries := ts, log_content := concat rows, log_selected_last := int k\<rparr>) \<and>
     map unwrapped rows = getlines (CHR 0x0A) s \<and> (\<forall>r \<in> set (concat rows). length r \<le> nat (columns - 25))"
proof -
  let ?n = "nat (columns - 25)" and ?ls = "getlines (CHR 0x0A) s"
  have n: "5 \<le> ?n" using assms(1) by simp
  have "\<forall>l \<in> set ?ls. length l < 2 ^ 31" using getlines_part[of _ "CHR 0x0A" s] assms(8) by fastforce
  then have "wrap_lines columns ?ls = Inr (concat (map (wrapped ?n) ?ls))" by (rule wrap_lines_wrapped[OF assms(1,2)])
  moreover have "log_times (map path ts) = Inr ts" unfolding assms(5) using assms(3) by (rule log_times_names)
  moreover have "ts \<noteq> []" "path (ts ! k) = logs_path @ ''dhcp-log-'' @ ts ! k @ ''.log''" using assms(4,5) by auto
  ultimately have "logs_refresh can_open fs (Some (map path ts)) columns tab =
      Inr (tab\<lparr>logs_entries := ts, log_content := concat (map (wrapped ?n) ?ls), log_selected_last := int k\<rparr>)"
    using assms(4,6,7,9,10) by (simp add: logs_refresh_def load_log_entries_def load_file_def log_text_def vec_get_def del: cbind_eq_Inr)
  moreover have "map unwrapped (map (wrapped ?n) ?ls) = ?ls" using unwrap_wrapped[OF n] by (simp add: comp_def)
  moreover have "\<forall>r \<in> set (concat (map (wrapped ?n) ?ls)). length r \<le> ?n" using wrapped_width[OF n] by auto
  ultimately show ?thesis by blast
qed

theorem logs_tab_shows_witness:
  "\<exists>tab tab'. TabLogs (Some [''/var/log/dhcps/dhcp-log-2024-03-01_12-00-00.log'']) = Inr tab \<and>
     logs_refresh (\<lambda>_. True) [''/var/log/dhcps/dhcp-log-2024-03-01_12-00-00.log'' \<mapsto> ''started'' @ [CHR 0x0A]]
       (Some [''/var/log/dhcps/dhcp-log-2024-03-01_12-00-00.log'']) 30 tab = Inr tab' \<and>
     (\<exists>rows. log_content tab' = concat rows \<and> map unwrapped rows = [''started''])"
proof -
  let ?p = "\<lambda>t. logs_path @ ''dhcp-log-'' @ t @ ''.log''" and ?t = "''2024-03-01_12-00-00''"
  let ?tab = "\<lparr>logs_selected = 0, log_selected = 0, log_selected_last = -1, logs_entries = [?t], log_content = []\<rparr>"
  let ?lit = "''/var/log/dhcps/dhcp-log-2024-03-01_12-00-00.log''" and ?s = "''started'' @ [CHR 0x0A]"
  have p: "?p ?t = ?lit" by (simp add: logs_path_def)
  have tab: "TabLogs (Some [?lit]) = Inr ?tab" by (simp add: TabLogs_def load_log_entries_def substr_def)
  have "\<exists>rows. logs_refresh (\<lambda>_. True) [?lit \<mapsto> ?s] (Some (map ?p [?t])) 30 ?tab =
       Inr (?tab\<lparr>logs_entries := [?t], log_content := concat rows, log_selected_last := int 0\<rparr>) \<and>
     map unwrapped rows = getlines (CHR 0x0A) ?s \<and> (\<forall>r \<in> set (concat rows). length r \<le> nat (30 - 25))"
    by (rule logs_tab_shows[where path = ?p]) (simp_all add: logs_path_def)
  moreover have get: "getlines (CHR 0x0A) ?s = [''started'']" by (simp add: getlines_def)
  ultimately obtain rows where "logs_refresh (\<lambda>_. True) [?lit \<mapsto> ?s] (Some [?lit]) 30 ?tab =
       Inr (?tab\<lparr>logs_entries := [?t], log_content := concat rows, log_selected_last := int 0\<rparr>)" "map unwrapped rows = [''started'']"
    unfolding list.map p get by (elim exE conjE) (rule that)
  with tab show ?thesis
    by (intro exI[of _ ?tab] exI[of _ "?tab\<lparr>logs_entries := [?t], log_content := concat rows, log_selected_last := int 0\<rparr>"]
        exI[of _ rows] conjI) simp_all
qed

end
