(* ===== verification/Gui_main.thy ===== *)
theory Gui_main
  imports Gui_reload Gui_logs
begin

text \<open>
  The program of the user interface (\<open>gui/src/main.cpp\<close>, \<open>gui/src/main_renderer.cpp\<close>): it
  creates the directories it shares with the server, makes the tabs and, before each drawing,
  refreshes the selected one.
\<close>

section \<open>The program\<close>

text \<open>
  The directories of the host, with the paths an iterator visits; those a process may create (its
  parent is there and it has the right); the files, and the stored messages.
\<close>

record host =
  host_dirs :: "string \<rightharpoonup> string list"
  host_may_create :: "string \<Rightarrow> bool"
  host_files :: files
  host_database :: database

record 'j tui =
  tab_index :: int
  tui_logs :: tab_logs
  tui_lease :: tab_lease
  tui_inspect :: tab_inspect
  tui_config :: "'j tab_config"
  tui_command :: tab_command

text \<open>\<open>create_directory\<close>: nothing happens to a directory that is there; an exception is \<open>None\<close>.\<close>

definition create_directory :: "string \<Rightarrow> host \<Rightarrow> host option" where
  "create_directory path h =
     (if host_dirs h path \<noteq> None then Some h
      else if host_may_create h path then Some (h\<lparr>host_dirs := (host_dirs h)(path \<mapsto> [])\<rparr>) else None)"

text \<open>The tabs, made in the order of the code.\<close>

definition make_tabs :: "'j gui_env \<Rightarrow> host \<Rightarrow> 'j tui c" where
  "make_tabs env h =
     cbind (TabLogs (host_dirs h logs_path)) (\<lambda>logs.
     cbind (TabConfig env (host_files h)) (\<lambda>config.
       Inr \<lparr>tab_index = 0, tui_logs = logs, tui_lease = TabLease, tui_inspect = TabInspect, tui_config = config,
            tui_command = TabCommand\<rparr>))"

text \<open>What the renderer does before it draws; a missing directory makes the iterator throw.\<close>

definition render :: "'j gui_env \<Rightarrow> int \<Rightarrow> host \<Rightarrow> 'j tui \<Rightarrow> 'j tui c" where
  "render env columns h t =
     (if tab_index t = 1 then cbind (config_refresh (tui_config t)) (\<lambda>tab. Inr (t\<lparr>tui_config := tab\<rparr>))
      else if tab_index t = 2 then
        cbind (logs_refresh (ge_can_open env) (host_files h) (host_dirs h logs_path) columns (tui_logs t)) (\<lambda>tab.
          Inr (t\<lparr>tui_logs := tab\<rparr>))
      else if tab_index t = 3 then
        (case host_dirs h leases_path of None \<Rightarrow> Inl Uncaught
         | Some dir \<Rightarrow> cbind (leases_refresh (ge_json env) (ge_can_open env) (host_files h) dir (ge_behind env) (tui_lease t)) (\<lambda>tab.
             Inr (t\<lparr>tui_lease := tab\<rparr>)))
      else if tab_index t = 4 then
        (case host_dirs h gui_db_path of None \<Rightarrow> Inl Uncaught
         | Some dir \<Rightarrow> cbind (inspect_refresh (ge_can_open env) (host_database h) dir (tui_inspect t)) (\<lambda>tab.
             Inr (t\<lparr>tui_inspect := tab\<rparr>)))
      else Inr t)"

text \<open>\<open>main\<close> up to the loop of the screen: its exit status, or the host and the tabs.\<close>

definition gui_main :: "'j gui_env \<Rightarrow> host \<Rightarrow> (int + host \<times> 'j tui) c" where
  "gui_main env h =
     (case Option.bind (create_directory ''/var/dhcp/'' h) (\<lambda>h.
           Option.bind (create_directory ''/var/dhcp/database/'' h) (\<lambda>h.
           Option.bind (create_directory ''/var/log/dhcps/'' h) (create_directory ''/etc/dhcp/''))) of
        None \<Rightarrow> Inr (Inl 1)
      | Some h \<Rightarrow> cbind (make_tabs env h) (\<lambda>t. Inr (Inr (h, t))))"

section \<open>Properties\<close>

lemma TabConfig_selections:
  assumes "TabConfig env fs = Inr tab"
  shows "options_list_selected tab = 0 \<and> options_list_selected_last tab = -1"
  using assms by (auto simp: TabConfig_def)

lemma fresh_config_refresh:
  assumes "TabConfig env fs = Inr tab" "pools_pools tab = []" "options_config_entries tab = [[]]"
  shows "\<exists>tab'. config_refresh tab = Inr tab'"
  using assms(2,3) TabConfig_selections[OF assms(1)]
  by (simp add: config_refresh_def options_load_def load_option_list_def pools_refresh_def update_acl_entries_def Let_def)

text \<open>The directories after the start of the user interface on a host without any of them.\<close>

definition first_dirs :: "string \<rightharpoonup> string list" where
  "first_dirs = [''/var/dhcp/'' \<mapsto> [], ''/var/dhcp/database/'' \<mapsto> [], ''/var/log/dhcps/'' \<mapsto> [], ''/etc/dhcp/'' \<mapsto> []]"

lemma gui_main_first:
  assumes "gui_json_ok (ge_json env)" "host_dirs h = Map.empty" "\<forall>p. host_may_create h p" "host_files h ''/etc/dhcp/config.json'' = None"
  obtains tab where "gui_main env h = Inr (Inr (h\<lparr>host_dirs := first_dirs\<rparr>, \<lparr>tab_index = 0,
      tui_logs = \<lparr>logs_selected = 0, log_selected = 0, log_selected_last = -1, logs_entries = [], log_content = []\<rparr>,
      tui_lease = TabLease, tui_inspect = TabInspect, tui_config = tab, tui_command = TabCommand\<rparr>))"
    "\<exists>tab'. config_refresh tab = Inr tab'"
proof -
  obtain tab where tab: "TabConfig env (host_files h) = Inr tab" "pools_pools tab = []" "options_config_entries tab = [[]]"
    using assms(1,4) by (rule TabConfig_fresh)
  have "host_dirs h p = None" for p using assms(2) by simp
  then have "gui_main env h = cbind (make_tabs env (h\<lparr>host_dirs := first_dirs\<rparr>)) (\<lambda>t. Inr (Inr (h\<lparr>host_dirs := first_dirs\<rparr>, t)))"
    using assms(2,3) by (simp add: gui_main_def create_directory_def first_dirs_def del: cbind_eq_Inr)
  moreover have "first_dirs logs_path = Some []" by (simp add: first_dirs_def logs_path_def)
  ultimately show thesis
    using tab(1) fresh_config_refresh[OF tab]
    by (intro that[of tab]) (simp_all add: make_tabs_def TabLogs_def load_log_entries_def del: cbind_eq_Inr)
qed



end
