(* ===== verification/Spec2Isabelle.thy ===== *)
theory Spec2Isabelle
  imports Prelude Llist Server Snoop Commands Database Config Configuration Start Gui_main
begin

text \<open>
  A verification library for the DHCPv4 server of \<open>src/server/src\<close> (C) and its text user
  interface of \<open>src/gui/src\<close> (C++).

  \<^bold>\<open>The programs.\<close> \<open>main\<close> (\<open>main.c\<close>) reads the command line and a JSON file (\<open>config.c\<close>), sets up
  the tables (\<open>init.c\<close>) and enters the loop of \<open>dhcp_server_serve\<close> (\<open>dhcp_server.c\<close>). A turn of
  the loop updates the timers (\<open>timer.c\<close>), serves a client of the control socket
  (\<open>unix_server.c\<close>, \<open>commands.c\<close>) and takes a packet from the network: it is parsed
  (\<open>dhcp_packet.c\<close>, \<open>dhcp_options.c\<close>), checked against the access lists (\<open>security\<close>), stored in
  the cache of transactions (\<open>transaction.c\<close>, \<open>transaction_cache.c\<close>) and in the database of
  messages (\<open>database.c\<close>) and given to the handler of its type (\<open>messages\<close>). Handlers take
  addresses from the allocator (\<open>allocator.c\<close>) and its pools (\<open>address_pool.c\<close>) and read and write
  the lease files (\<open>lease.c\<close>). The user interface is a program of its own: \<open>main.cpp\<close> and
  \<open>main_renderer.cpp\<close> make its tabs and refresh the selected one before it is drawn. It meets the
  server in the files and on the control socket: it edits the configuration file
  (\<open>tab_config.cpp\<close>, \<open>commands.cpp\<close>), sends commands (\<open>tab_command.cpp\<close>) and shows the leases
  (\<open>tab_leases.cpp\<close>), the stored messages (\<open>tab_inspect.cpp\<close>, \<open>database.cpp\<close>) and the logs
  (\<open>tab_logs.cpp\<close>).

  \<^bold>\<open>Theories, in the order of import.\<close> Definitions carry the names of the C functions and types.
  \<^item> \<open>Prelude\<close>: the integers \<open>u8\<close>, \<open>u16\<close>, \<open>u32\<close>, the result type \<open>'a c\<close> with the \<open>fault\<close>s of
    undefined behaviour, byte lists, shared lemmas.
  \<^item> \<open>Llist\<close>: \<open>utils/llist.c\<close> at pointer level, nodes in a heap. The other theories use the
    sequence a well-formed list stands for.
  \<^item> \<open>Xtoy\<close>: \<open>utils/xtoy.c\<close> with the parts of \<open>snprintf\<close> and \<open>sscanf\<close> it uses. \<open>Rfc\<close>: \<open>RFC/*.h\<close>.
  \<^item> \<open>Dhcp_options\<close>: the option with its union as bytes, parser, serialiser, option lists, the
    options of an answer. \<open>Dhcp_packet\<close>: packets, messages, and the heap of option lists, in which
    a list can be freed and dangling.
  \<^item> \<open>Address_pool\<close>, \<open>Allocator\<close>: the bitmap of a pool, and the pools with the default options.
  \<^item> \<open>Timer\<close>, \<open>Transaction\<close>: timers, whose callback is a value run by the caller, and the cache.
  \<^item> \<open>Acl\<close>: static and dynamic access lists. \<open>Lease\<close>: lease files over the record \<open>'j cjson\<close> of
    the functions of the library cJSON. \<open>Database\<close>: the files of stored messages.
  \<^item> \<open>Messages\<close>: the state \<open>dhcp_server\<close> and every handler, builder and sender. \<open>Handlers\<close>:
    lemmas on them. \<open>Dialogue\<close>: their properties.
  \<^item> \<open>Snoop\<close>: the scan for other servers (\<open>security/dhcp_snooping\<close>). \<open>Commands\<close>: \<open>commands.c\<close>,
    \<open>unix_server.c\<close> and their registration in \<open>init.c\<close>.
  \<^item> \<open>Server\<close>: \<open>dhcp_server.c\<close>; a turn (\<open>serve_turn\<close>), the loop (\<open>serve_loop\<close>,
    \<open>dhcp_server_serve\<close>) over the list of what the outside does, and the relations
    \<open>server_step\<close> and \<open>server_run\<close>, of which every turn is a run (\<open>serve_turn_run\<close>).
  \<^item> \<open>Getopt\<close>: \<open>getopt_long\<close> on the tables of the program. \<open>Config\<close>: \<open>config.c\<close>;
    \<open>Configuration\<close>: its lemmas and properties. \<open>Start\<close>: \<open>init.c\<close> and \<open>main.c\<close>.
  \<^item> \<open>Gui_base\<close>: the option tables of the user interface and the functions of the C++ library it
    uses. \<open>Gui_json\<close>: the functions of cJSON it calls, as the record \<open>'j gui_json\<close>.
  \<^item> \<open>Gui_inspect\<close>, \<open>Gui_leases\<close>, \<open>Gui_command\<close>, \<open>Gui_logs\<close>: a tab each, its state as a record and
    its methods. \<open>Gui_config\<close>: the configuration tab; \<open>Gui_session\<close>: what the user can do with it, as
    a step relation; \<open>Gui_apply\<close>: what Apply writes and what the server's \<open>Config\<close> reads of it;
    \<open>Gui_reload\<close>: what the tab itself reads of it.
  \<^item> \<open>Gui_main\<close>: the program of the user interface, with all its tabs.

  \<^bold>\<open>What is shown.\<close>
  \<^item> Invariants: the tables of the server stay well-formed in every reachable state
    (\<open>server_run_wf\<close>), also from any command line and configuration file
    (\<open>started_server_keeps_invariant\<close>); configuration leaves fresh pools and unique options; the
    cache keeps the messages of each transaction in order.
  \<^item> Refinement: the bitmap of a pool and the whole allocator are sets of addresses in use; an
    address in use is not handed out again. A linked list is a sequence.
  \<^item> Functional behaviour: discover and offer, request and acknowledgement, expiry of leases and
    transactions, restoring leases at start, access lists, the default configuration, the verdict
    of a scan, the report of the pools.
  \<^item> Round trips: options and packets, leases, addresses as text, the pool flag, the database; an
    entry of the configuration file that a command sets and gets, and the configuration tab that
    saves and loads it.
  \<^item> The two programs together: what Apply saves is what the server starts with, setting by setting
    (but one) and pool by pool; the tabs show the leases and messages the server wrote and the
    reply it sent; both number and type the options alike (but one); every session with the
    configuration tab keeps its lists in step.
  \<^item> Bounds and termination: the serialiser stays in its field; timers fire at their deadline,
    also when the clock wraps around; the scan and the server loop end when they should, and so
    does the wrapping of log lines, with an index of 32 bits.
  \<^item> Errors: the inputs on which the code leaves the defined behaviour of C or loses track of an
    address, each with a concrete instance.

  \<^bold>\<open>Interfaces.\<close> \<open>sequence\<close> (\<open>Llist\<close>, interpreted as \<open>lls\<close>); \<open>tagged_store\<close> for lists with one
  element per tag (\<open>Dhcp_options\<close>, as \<open>opts\<close> for option lists and \<open>default_opts\<close> for the
  allocator); \<open>lease_table\<close> for tables of addresses that are taken and given back
  (\<open>Address_pool\<close>, as \<open>pools\<close> and as \<open>allocs\<close>); \<open>message_store\<close> (\<open>Transaction\<close>, as \<open>caches\<close>);
  \<open>ui_session\<close> for what a tab keeps in a session (\<open>Gui_base\<close>, as \<open>config_tab\<close> and \<open>logs_tab\<close>).

  \<^bold>\<open>Conventions.\<close> The target is little-endian LP64. A result \<open>Inl\<close> is undefined behaviour: a null
  or dangling pointer, an access outside an object, a shift by the width or more, an
  uninitialised value, a loop that never ends or an exception that nothing catches. NULL arguments are modelled where the program
  can pass them. The clock does not change within a turn. Loops whose end depends on the outside
  run over a list of events; the parser of options, which can hang, is a partial function with
  the fault \<open>Diverges\<close>. cJSON is a parameter; \<open>cjson_ok\<close> and \<open>cjson_prints\<close> name what is
  relied on of it, and \<open>plain_json\<close> is a concrete instance; for the user interface they are
  \<open>gui_json_ok\<close> and \<open>gui_tagged\<close>. The user interface holds pointers into the tree of the
  configuration file; in the model the tree is a value and a pointer is a path. The pools that are almost as large as
  the address space, whose bitmap size wraps around, are left out by \<open>small_pool\<close>.

  \<^bold>\<open>Not modelled.\<close> Failing memory allocation; read and write errors after a successful open; the
  creation and closing of sockets, directories and signal handlers (they succeed or fail as a
  parameter); destructors that only free memory; the log, usage texts and dumps; concurrent
  changes of the files by other processes. Of the user interface: the widgets and layout of FTXUI
  (what the user can change through them is a step), the help page, the debug log. The set-up of
  the external logging library (\<open>logging.c\<close>), and the tests.
\<close>

end
